theory Spec2Isabelle
  imports Main "HOL-Library.AList"
begin

section \<open>Python values\<close>

text \<open>
  A Python \<open>str\<close> is a sequence of Unicode code points, so slices such as \<open>s[2:]\<close> and
  \<open>s[:-1]\<close> count code points. A string is modelled as the list of its code points;
  \<open>str\<close> turns an ASCII literal of the source into that list.
\<close>

type_synonym pystr = "nat list"

definition str :: "string \<Rightarrow> pystr" where
  "str s = map of_char s"

text \<open>
  The exceptions the code can raise. \<open>AssertionError\<close> carries the message of the
  \<open>assert\<close> statement; \<open>TransportError\<close> stands for whatever \<open>httpx.Client.get\<close> raises.
\<close>

datatype error =
    ValueError
  | IndexError
  | KeyError
  | TypeError
  | AttributeError
  | AssertionError string
  | HTTPStatusError
  | TransportError
  | JSONDecodeError
  | ValidationError

text \<open>The class of an exception, without the message it carries.\<close>

datatype error_kind =
    KValueError
  | KIndexError
  | KKeyError
  | KTypeError
  | KAttributeError
  | KAssertionError
  | KHTTPStatusError
  | KTransportError
  | KJSONDecodeError
  | KValidationError

fun kind_of :: "error \<Rightarrow> error_kind" where
  "kind_of ValueError = KValueError"
| "kind_of IndexError = KIndexError"
| "kind_of KeyError = KKeyError"
| "kind_of TypeError = KTypeError"
| "kind_of AttributeError = KAttributeError"
| "kind_of (AssertionError m) = KAssertionError"
| "kind_of HTTPStatusError = KHTTPStatusError"
| "kind_of TransportError = KTransportError"
| "kind_of JSONDecodeError = KJSONDecodeError"
| "kind_of ValidationError = KValidationError"

text \<open>Sequencing: the first exception raised ends the computation.\<close>

fun bind_err :: "error + 'a \<Rightarrow> ('a \<Rightarrow> error + 'b) \<Rightarrow> error + 'b" where
  "bind_err (Inl e) f = Inl e"
| "bind_err (Inr x) f = f x"

text \<open>\<open>xs[i]\<close> for a non-negative literal index: \<open>IndexError\<close> out of range.\<close>

definition getitem :: "'a list \<Rightarrow> nat \<Rightarrow> error + 'a" where
  "getitem xs i = (if i < length xs then Inr (xs ! i) else Inl IndexError)"

section \<open>String operations of the standard library\<close>

subsection \<open>\<open>str.split(sep)\<close>\<close>

fun startswith :: "pystr \<Rightarrow> pystr \<Rightarrow> bool" where
  "startswith s [] = True"
| "startswith [] (p # ps) = False"
| "startswith (c # cs) (p # ps) = (c = p \<and> startswith cs ps)"

text \<open>
  \<open>split_from sep acc s\<close> scans \<open>s\<close> from the left; \<open>acc\<close> is the piece read since the
  last separator. Occurrences of the separator are taken left to right and do not
  overlap. The separator is never empty in the source (Python raises on an empty one).
\<close>

fun split_from :: "pystr \<Rightarrow> pystr \<Rightarrow> pystr \<Rightarrow> pystr list" where
  "split_from sep acc [] = [acc]"
| "split_from sep acc (c # cs) =
     (if startswith (c # cs) sep
      then acc # split_from sep [] (drop (length sep - 1) cs)
      else split_from sep (acc @ [c]) cs)"

definition str_split :: "pystr \<Rightarrow> pystr \<Rightarrow> pystr list" where
  "str_split s sep = split_from sep [] s"

text \<open>\<open>sub in s\<close> for strings.\<close>

fun contains :: "pystr \<Rightarrow> pystr \<Rightarrow> bool" where
  "contains [] sub = (sub = [])"
| "contains (c # cs) sub = (startswith (c # cs) sub \<or> contains cs sub)"

subsection \<open>\<open>urllib.parse.urlsplit(url).path\<close>\<close>

text \<open>
  The steps of \<open>urlsplit\<close> that decide the path, in the order of CPython 3.12: strip
  and clean the text, cut off the scheme, cut off the authority after \<open>//\<close>, check the
  authority, cut off fragment and query.
\<close>

definition is_ascii_alpha :: "nat \<Rightarrow> bool" where
  "is_ascii_alpha c = ((65 \<le> c \<and> c \<le> 90) \<or> (97 \<le> c \<and> c \<le> 122))"

definition is_scheme_char :: "nat \<Rightarrow> bool" where
  "is_scheme_char c =
     (is_ascii_alpha c \<or> (48 \<le> c \<and> c \<le> 57) \<or> c = 43 \<or> c = 45 \<or> c = 46)"

text \<open>
  \<open>url.lstrip(_WHATWG_C0_CONTROL_OR_SPACE)\<close>: leading code points up to U+0020 go;
  then every tab, carriage return and line feed is removed.
\<close>

definition lstrip_c0 :: "pystr \<Rightarrow> pystr" where
  "lstrip_c0 url = dropWhile (\<lambda>c. c \<le> 32) url"

definition remove_unsafe :: "pystr \<Rightarrow> pystr" where
  "remove_unsafe url = filter (\<lambda>c. c \<noteq> 9 \<and> c \<noteq> 13 \<and> c \<noteq> 10) url"

text \<open>
  The scheme: when the text before the first \<open>:\<close> starts with an ASCII letter and has
  scheme characters only, it is cut off together with the colon.
\<close>

definition strip_scheme :: "pystr \<Rightarrow> pystr" where
  "strip_scheme url =
     (case url of
        [] \<Rightarrow> url
      | c # cs \<Rightarrow>
          if of_char (CHR '':'') \<in> set url \<and> is_ascii_alpha c
             \<and> list_all is_scheme_char (takeWhile (\<lambda>x. x \<noteq> of_char (CHR '':'')) url)
          then tl (dropWhile (\<lambda>x. x \<noteq> of_char (CHR '':'')) url)
          else url)"

definition is_netloc_end :: "nat \<Rightarrow> bool" where
  "is_netloc_end c =
     (c = of_char (CHR ''/'') \<or> c = of_char (CHR ''?'') \<or> c = of_char (CHR ''#''))"

text \<open>
  After the bracket-balance test \<open>urlsplit\<close> validates the authority further: a
  bracketed host must be an IPv6 or IPvFuture literal (\<open>_check_bracketed_netloc\<close>), and
  an authority with non-ASCII characters must survive NFKC normalisation
  (\<open>_checknetloc\<close>). Both need tables of the standard library; \<open>netloc_ok\<close> stands for
  their verdict and is consulted for exactly the authorities that reach them.
\<close>

definition netloc_passes :: "(pystr \<Rightarrow> bool) \<Rightarrow> pystr \<Rightarrow> bool" where
  "netloc_passes netloc_ok netloc =
     (if (of_char (CHR ''['') \<in> set netloc \<and> of_char (CHR '']'') \<in> set netloc)
         \<or> list_ex (\<lambda>c. 128 \<le> c) netloc
      then netloc_ok netloc else True)"

definition unbalanced_brackets :: "pystr \<Rightarrow> bool" where
  "unbalanced_brackets netloc =
     ((of_char (CHR ''['') \<in> set netloc \<and> of_char (CHR '']'') \<notin> set netloc)
      \<or> (of_char (CHR '']'') \<in> set netloc \<and> of_char (CHR ''['') \<notin> set netloc))"

definition urlsplit_path :: "(pystr \<Rightarrow> bool) \<Rightarrow> pystr \<Rightarrow> error + pystr" where
  "urlsplit_path netloc_ok url0 =
     (let url = strip_scheme (remove_unsafe (lstrip_c0 url0));
          has_netloc = (take 2 url = str ''//'');
          netloc = (if has_netloc then takeWhile (\<lambda>c. \<not> is_netloc_end c) (drop 2 url) else []);
          rest = (if has_netloc then dropWhile (\<lambda>c. \<not> is_netloc_end c) (drop 2 url) else url);
          no_fragment = takeWhile (\<lambda>c. c \<noteq> of_char (CHR ''#'')) rest;
          path = takeWhile (\<lambda>c. c \<noteq> of_char (CHR ''?'')) no_fragment
      in if unbalanced_brackets netloc then Inl ValueError
         else if netloc_passes netloc_ok netloc then Inr path
         else Inl ValueError)"

subsection \<open>\<open>urllib.parse.unquote\<close>\<close>

definition is_hexdig :: "nat \<Rightarrow> bool" where
  "is_hexdig c = ((48 \<le> c \<and> c \<le> 57) \<or> (65 \<le> c \<and> c \<le> 70) \<or> (97 \<le> c \<and> c \<le> 102))"

definition hexval :: "nat \<Rightarrow> nat" where
  "hexval c = (if c \<le> 57 then c - 48 else if c \<le> 70 then c - 55 else c - 87)"

text \<open>
  \<open>_unquote_impl\<close> on a run of ASCII characters: a percent sign followed by two
  hexadecimal digits becomes the byte they name; any other percent sign stays.
\<close>

fun unquote_impl :: "nat list \<Rightarrow> nat list" where
  "unquote_impl [] = []"
| "unquote_impl (c # cs) =
     (if c = 37 then
        (case cs of
           a # b # rest \<Rightarrow>
             if is_hexdig a \<and> is_hexdig b
             then (16 * hexval a + hexval b) # unquote_impl rest
             else 37 # unquote_impl cs
         | _ \<Rightarrow> 37 # unquote_impl cs)
      else c # unquote_impl cs)"

text \<open>
  \<open>bytes.decode('utf-8', 'replace')\<close>: each maximal ill-formed prefix of a sequence
  becomes U+FFFD (65533).
\<close>

definition is_cont :: "nat \<Rightarrow> bool" where
  "is_cont c = (128 \<le> c \<and> c \<le> 191)"

definition second_of3_ok :: "nat \<Rightarrow> nat \<Rightarrow> bool" where
  "second_of3_ok b c =
     (if b = 224 then 160 \<le> c \<and> c \<le> 191
      else if b = 237 then 128 \<le> c \<and> c \<le> 159
      else is_cont c)"

definition second_of4_ok :: "nat \<Rightarrow> nat \<Rightarrow> bool" where
  "second_of4_ok b c =
     (if b = 240 then 144 \<le> c \<and> c \<le> 191
      else if b = 244 then 128 \<le> c \<and> c \<le> 143
      else is_cont c)"

fun utf8_decode :: "nat list \<Rightarrow> nat list" where
  "utf8_decode [] = []"
| "utf8_decode (b # bs) =
     (if b < 128 then b # utf8_decode bs
      else if b < 194 \<or> 245 \<le> b then 65533 # utf8_decode bs
      else if b < 224 then
        (case bs of
           [] \<Rightarrow> [65533]
         | c # cs \<Rightarrow>
             if is_cont c then ((b - 192) * 64 + (c - 128)) # utf8_decode cs
             else 65533 # utf8_decode bs)
      else if b < 240 then
        (case bs of
           [] \<Rightarrow> [65533]
         | c # cs \<Rightarrow>
             if \<not> second_of3_ok b c then 65533 # utf8_decode bs
             else (case cs of
                     [] \<Rightarrow> [65533]
                   | d # ds \<Rightarrow>
                       if is_cont d
                       then ((b - 224) * 4096 + (c - 128) * 64 + (d - 128)) # utf8_decode ds
                       else 65533 # utf8_decode cs))
      else
        (case bs of
           [] \<Rightarrow> [65533]
         | c # cs \<Rightarrow>
             if \<not> second_of4_ok b c then 65533 # utf8_decode bs
             else (case cs of
                     [] \<Rightarrow> [65533]
                   | d # ds \<Rightarrow>
                       if \<not> is_cont d then 65533 # utf8_decode cs
                       else (case ds of
                               [] \<Rightarrow> [65533]
                             | e # es \<Rightarrow>
                                 if is_cont e
                                 then ((b - 240) * 262144 + (c - 128) * 4096
                                       + (d - 128) * 64 + (e - 128)) # utf8_decode es
                                 else 65533 # utf8_decode ds))))"

text \<open>
  \<open>unquote\<close> returns a string without a percent sign as it is. Otherwise it decodes
  each maximal run of ASCII characters (\<open>run\<close> collects the current one) and keeps the
  other characters.
\<close>

fun unquote_runs :: "pystr \<Rightarrow> pystr \<Rightarrow> pystr" where
  "unquote_runs run [] = utf8_decode (unquote_impl run)"
| "unquote_runs run (c # cs) =
     (if c < 128 then unquote_runs (run @ [c]) cs
      else utf8_decode (unquote_impl run) @ c # unquote_runs [] cs)"

definition unquote :: "pystr \<Rightarrow> pystr" where
  "unquote s = (if 37 \<in> set s then unquote_runs [] s else s)"

section \<open>Link normalisation\<close>

text \<open>
  \<^verbatim>\<open>def get_abs_link(r_search_link)\<close>: \<open>None\<close> and the empty string give the empty
  string; otherwise the path of the URL is split at \<open>RU=\<close>, the piece after the first
  marker is cut at its first slash and percent-decoded. \<open>[1]\<close> raises \<open>IndexError\<close>
  when the path has no marker.
\<close>

definition get_abs_link :: "(pystr \<Rightarrow> bool) \<Rightarrow> pystr option \<Rightarrow> error + pystr" where
  "get_abs_link netloc_ok r_search_link =
     (case r_search_link of
        None \<Rightarrow> Inr []
      | Some link \<Rightarrow>
          if link = [] then Inr []
          else bind_err (urlsplit_path netloc_ok link) (\<lambda>path.
               bind_err (getitem (str_split path (str ''RU='')) 1) (\<lambda>after.
               bind_err (getitem (str_split after (str ''/'')) 0) (\<lambda>seg.
               Inr (unquote seg)))))"

text \<open>\<^verbatim>\<open>def get_abs_image(yimg_link)\<close>.\<close>

definition get_abs_image :: "pystr option \<Rightarrow> error + pystr" where
  "get_abs_image yimg_link =
     (case yimg_link of
        None \<Rightarrow> Inr []
      | Some link \<Rightarrow>
          if link = [] then Inr []
          else bind_err (getitem (str_split link (str ''https://'')) 1) (\<lambda>after.
               Inr (str ''https://'' @ after)))"

section \<open>Values built by the extractors\<close>

text \<open>
  The extractors assemble plain dictionaries and lists and hand them to the pydantic
  models; \<open>json.loads\<close> returns the same kind of value. A dictionary is an association
  list in insertion order with distinct keys.
\<close>

datatype pyfloat = Finite int int | Infinite bool | NaN

datatype pyval =
    PNone
  | PBool bool
  | PInt int
  | PFloat pyfloat
  | PStr pystr
  | PList "pyval list"
  | PDict "(pystr \<times> pyval) list"

type_synonym pydict = "(pystr \<times> pyval) list"

text \<open>\<open>d.update({k: v})\<close> and \<open>d[k] = v\<close>.\<close>

definition dict_set :: "string \<Rightarrow> pyval \<Rightarrow> pydict \<Rightarrow> pydict" where
  "dict_set k v d = AList.update (str k) v d"

text \<open>Truth value of an object in a condition.\<close>

fun truthy :: "pyval \<Rightarrow> bool" where
  "truthy PNone = False"
| "truthy (PBool b) = b"
| "truthy (PInt i) = (i \<noteq> 0)"
| "truthy (PFloat f) = (case f of Finite m e \<Rightarrow> m \<noteq> 0 | _ \<Rightarrow> True)"
| "truthy (PStr s) = (s \<noteq> [])"
| "truthy (PList xs) = (xs \<noteq> [])"
| "truthy (PDict d) = (d \<noteq> [])"

text \<open>\<open>obj[key]\<close> with a string key, and \<open>obj[i]\<close> with a non-negative integer.\<close>

fun getitem_str :: "pyval \<Rightarrow> string \<Rightarrow> error + pyval" where
  "getitem_str (PDict d) k = (case map_of d (str k) of None \<Rightarrow> Inl KeyError | Some v \<Rightarrow> Inr v)"
| "getitem_str v k = Inl TypeError"

fun getitem_int :: "pyval \<Rightarrow> nat \<Rightarrow> error + pyval" where
  "getitem_int (PList xs) i = getitem xs i"
| "getitem_int (PStr s) i = (if i < length s then Inr (PStr [s ! i]) else Inl IndexError)"
| "getitem_int (PDict d) i = Inl KeyError"
| "getitem_int v i = Inl TypeError"

definition opt_val :: "pystr option \<Rightarrow> pyval" where
  "opt_val v = (case v of None \<Rightarrow> PNone | Some s \<Rightarrow> PStr s)"

section \<open>The libraries the extractors call\<close>

text \<open>
  What \<open>client.get\<close> returns: the status code, \<open>res.text\<close>, and what \<open>res.json()\<close>
  returns or raises.
\<close>

record response =
  status_code :: int
  res_text :: pystr
  res_json :: "error + pyval"

text \<open>\<open>res.raise_for_status()\<close> of current httpx: a status outside 200..299 raises.\<close>

definition raise_for_status :: "response \<Rightarrow> error + unit" where
  "raise_for_status res =
     (if 200 \<le> status_code res \<and> status_code res \<le> 299 then Inr () else Inl HTTPStatusError)"

text \<open>
  The HTTP client, the HTML parser (selectolax) and the parts of the standard library
  that rest on Unicode tables are not code of this repository. The extractors take their
  behaviour as \<open>E\<close>. A parsed document is mutable (\<open>unwrap_tags\<close> rewrites it in
  place), so every query names the document state \<open>'d\<close> it reads; \<open>'n\<close> are the node
  handles.
  \<^item> \<open>client_get url headers\<close> is \<open>client.get(url, headers=headers)\<close>, \<open>Inl\<close> when it
    raises; \<open>quote_plus\<close> and \<open>json_loads\<close> are the functions of \<open>urllib.parse\<close> and
    \<open>json\<close>;
  \<^item> \<open>Parser t\<close> is \<open>Parser(t)\<close>: the fresh document state and the handle on which
    \<open>parser.css\<close> and \<open>parser.css_first\<close> are asked;
  \<^item> \<open>css d n sel\<close> is \<open>n.css(sel)\<close>, the matches in document order;
  \<^item> \<open>attributes d n k\<close> is \<open>None\<close> when \<open>n\<close> has no attribute \<open>k\<close>, \<open>Some None\<close>
    when the attribute has no value;
  \<^item> \<open>node_text d n\<close> is \<open>n.text()\<close> and \<open>text_deep d n\<close> is
    \<open>n.text(deep=True, separator=" ", strip=True)\<close>;
  \<^item> \<open>int_of_str s\<close> is \<open>int(s)\<close>, \<open>None\<close> when it raises \<open>ValueError\<close>;
  \<^item> \<open>netloc_ok\<close> is the verdict of \<open>urlsplit\<close> on an authority, as above.
  An \<open>assert\<close> statement is taken as executed (Python run without \<open>-O\<close>).
\<close>

record ('d, 'n) env =
  client_get :: "pystr \<Rightarrow> (string \<times> string) list \<Rightarrow> error + response"
  quote_plus :: "pystr \<Rightarrow> pystr"
  Parser :: "pystr \<Rightarrow> 'd \<times> 'n"
  css :: "'d \<Rightarrow> 'n \<Rightarrow> string \<Rightarrow> 'n list"
  attributes :: "'d \<Rightarrow> 'n \<Rightarrow> string \<Rightarrow> pystr option option"
  node_text :: "'d \<Rightarrow> 'n \<Rightarrow> pystr"
  text_deep :: "'d \<Rightarrow> 'n \<Rightarrow> pystr"
  first_child :: "'d \<Rightarrow> 'n \<Rightarrow> 'n option"
  last_child :: "'d \<Rightarrow> 'n \<Rightarrow> 'n option"
  unwrap_tags :: "'d \<Rightarrow> 'n \<Rightarrow> string list \<Rightarrow> 'd"
  json_loads :: "pystr \<Rightarrow> error + pyval"
  int_of_str :: "pystr \<Rightarrow> int option"
  netloc_ok :: "pystr \<Rightarrow> bool"

text \<open>\<open>n.css_first(sel)\<close>: the first match, or \<open>None\<close>.\<close>

definition css_first :: "('d, 'n) env \<Rightarrow> 'd \<Rightarrow> 'n \<Rightarrow> string \<Rightarrow> 'n option" where
  "css_first E d n sel = (case css E d n sel of [] \<Rightarrow> None | x # xs \<Rightarrow> Some x)"

text \<open>\<open>n.attributes[k]\<close> raises \<open>KeyError\<close> without the attribute; \<open>.get(k)\<close> gives \<open>None\<close>.\<close>

definition attr :: "('d, 'n) env \<Rightarrow> 'd \<Rightarrow> 'n \<Rightarrow> string \<Rightarrow> error + pystr option" where
  "attr E d n k = (case attributes E d n k of None \<Rightarrow> Inl KeyError | Some v \<Rightarrow> Inr v)"

definition attr_get :: "('d, 'n) env \<Rightarrow> 'd \<Rightarrow> 'n \<Rightarrow> string \<Rightarrow> pystr option" where
  "attr_get E d n k = (case attributes E d n k of None \<Rightarrow> None | Some v \<Rightarrow> v)"

definition py_int :: "('d, 'n) env \<Rightarrow> pystr \<Rightarrow> error + int" where
  "py_int E s = (case int_of_str E s of None \<Rightarrow> Inl ValueError | Some i \<Rightarrow> Inr i)"

text \<open>
  The messages of the three \<open>assert\<close> statements; \<open>CHR 0x27\<close> is the apostrophe.
\<close>

definition search_missing_message :: string where
  "search_missing_message =
     ''Could not find '' @ [CHR 0x27] @ ''.reg.searchCCenterMiddle'' @ [CHR 0x27]
     @ '' (search results)''"

definition news_missing_message :: string where
  "news_missing_message =
     ''Could not find '' @ [CHR 0x27] @ ''#main #web'' @ [CHR 0x27] @ '' (news results)''"

definition videos_empty_message :: string where
  "videos_empty_message =
     ''Couldn'' @ [CHR 0x27] @ ''t find any results for '' @ [CHR 0x27]
     @ ''#search li.vr.vres'' @ [CHR 0x27]"

definition MD_TAGS :: "string list" where
  "MD_TAGS = [''strong'', ''b'', ''s'', ''i'']"

definition headers :: "(string \<times> string) list" where
  "headers =
     [(''User-Agent'',
       ''Mozilla/5.0 (Windows NT 10.0; Win64; x64) AppleWebKit/537.36 ''
       @ ''(KHTML, like Gecko) Chrome/116.0.0.0 Safari/537.36 OPR/102.0.0.0 ''
       @ ''(Edition GX-CN)'')]"

section \<open>The pydantic models\<close>

record AlsoTryItem =
  ati_link :: pystr
  ati_text :: pystr

record PageResult =
  page_title :: pystr
  page_link :: pystr
  page_text :: "pystr option"

record CardResultSource =
  source_link :: pystr
  source_text :: pystr

record CardResult =
  card_image :: "pystr option"
  card_heading :: "pystr option"
  card_text :: "pystr option"
  card_source :: "CardResultSource option"

record RelatedSearch =
  related_link :: pystr
  related_text :: pystr

record SearchResult =
  also_try :: "AlsoTryItem list"
  pages :: "PageResult list"
  card_result :: "CardResult option"
  related_searches :: "RelatedSearch list"

text \<open>
  Validation of a dictionary against a model. A field is looked up under its own name;
  keys that name no field are ignored; a required field that is missing, and a value of
  the wrong type, fail the whole construction. An \<open>Optional\<close> field takes \<open>None\<close> and
  defaults to it. A \<open>str\<close> field takes a string and an \<open>int\<close> field an integer, as
  in pydantic 2 (version 1 would also turn a number into a string; the extractors put a
  number under a string field only where \<open>search_videos\<close> copies one from the JSON of a
  \<open>data\<close> attribute).
\<close>

definition req_str :: "pydict \<Rightarrow> string \<Rightarrow> error + pystr" where
  "req_str d k = (case map_of d (str k) of Some (PStr s) \<Rightarrow> Inr s | _ \<Rightarrow> Inl ValidationError)"

definition opt_str :: "pydict \<Rightarrow> string \<Rightarrow> error + pystr option" where
  "opt_str d k =
     (case map_of d (str k) of
        None \<Rightarrow> Inr None
      | Some PNone \<Rightarrow> Inr None
      | Some (PStr s) \<Rightarrow> Inr (Some s)
      | _ \<Rightarrow> Inl ValidationError)"

definition req_int :: "pydict \<Rightarrow> string \<Rightarrow> error + int" where
  "req_int d k = (case map_of d (str k) of Some (PInt i) \<Rightarrow> Inr i | _ \<Rightarrow> Inl ValidationError)"

fun validate_list :: "(pyval \<Rightarrow> error + 'a) \<Rightarrow> pyval list \<Rightarrow> error + 'a list" where
  "validate_list f [] = Inr []"
| "validate_list f (x # xs) =
     bind_err (f x) (\<lambda>y. bind_err (validate_list f xs) (\<lambda>ys. Inr (y # ys)))"

definition validate_AlsoTryItem :: "pyval \<Rightarrow> error + AlsoTryItem" where
  "validate_AlsoTryItem v =
     (case v of
        PDict d \<Rightarrow>
          bind_err (req_str d ''link'') (\<lambda>l.
          bind_err (req_str d ''text'') (\<lambda>t.
          Inr \<lparr>ati_link = l, ati_text = t\<rparr>))
      | _ \<Rightarrow> Inl ValidationError)"

definition validate_PageResult :: "pyval \<Rightarrow> error + PageResult" where
  "validate_PageResult v =
     (case v of
        PDict d \<Rightarrow>
          bind_err (req_str d ''title'') (\<lambda>ti.
          bind_err (req_str d ''link'') (\<lambda>l.
          bind_err (opt_str d ''text'') (\<lambda>t.
          Inr \<lparr>page_title = ti, page_link = l, page_text = t\<rparr>)))
      | _ \<Rightarrow> Inl ValidationError)"

definition validate_CardResultSource :: "pyval \<Rightarrow> error + CardResultSource" where
  "validate_CardResultSource v =
     (case v of
        PDict d \<Rightarrow>
          bind_err (req_str d ''link'') (\<lambda>l.
          bind_err (req_str d ''text'') (\<lambda>t.
          Inr \<lparr>source_link = l, source_text = t\<rparr>))
      | _ \<Rightarrow> Inl ValidationError)"

definition validate_CardResult :: "pyval \<Rightarrow> error + CardResult" where
  "validate_CardResult v =
     (case v of
        PDict d \<Rightarrow>
          bind_err (opt_str d ''image'') (\<lambda>im.
          bind_err (opt_str d ''heading'') (\<lambda>h.
          bind_err (opt_str d ''text'') (\<lambda>t.
          bind_err (case map_of d (str ''source'') of
                      None \<Rightarrow> Inr None
                    | Some PNone \<Rightarrow> Inr None
                    | Some s \<Rightarrow> bind_err (validate_CardResultSource s) (\<lambda>x. Inr (Some x))) (\<lambda>s.
          Inr \<lparr>card_image = im, card_heading = h, card_text = t, card_source = s\<rparr>))))
      | _ \<Rightarrow> Inl ValidationError)"

definition validate_RelatedSearch :: "pyval \<Rightarrow> error + RelatedSearch" where
  "validate_RelatedSearch v =
     (case v of
        PDict d \<Rightarrow>
          bind_err (req_str d ''link'') (\<lambda>l.
          bind_err (req_str d ''text'') (\<lambda>t.
          Inr \<lparr>related_link = l, related_text = t\<rparr>))
      | _ \<Rightarrow> Inl ValidationError)"

text \<open>
  \<open>SearchResult(**contents)\<close>. \<open>card\<close> is \<open>Optional[CardResult] = None\<close>: a missing
  key and \<open>None\<close> give \<open>None\<close>, a dictionary is validated as a \<open>CardResult\<close>.
\<close>

definition validate_list_field ::
  "(pyval \<Rightarrow> error + 'a) \<Rightarrow> pydict \<Rightarrow> string \<Rightarrow> error + 'a list" where
  "validate_list_field f d k =
     (case map_of d (str k) of
        Some (PList xs) \<Rightarrow> validate_list f xs
      | _ \<Rightarrow> Inl ValidationError)"

definition validate_SearchResult :: "pydict \<Rightarrow> error + SearchResult" where
  "validate_SearchResult d =
     bind_err (validate_list_field validate_AlsoTryItem d ''also_try'') (\<lambda>a.
     bind_err (validate_list_field validate_PageResult d ''pages'') (\<lambda>p.
     bind_err (case map_of d (str ''card'') of
                 None \<Rightarrow> Inr None
               | Some PNone \<Rightarrow> Inr None
               | Some c \<Rightarrow> bind_err (validate_CardResult c) (\<lambda>x. Inr (Some x))) (\<lambda>c.
     bind_err (validate_list_field validate_RelatedSearch d ''related_searches'') (\<lambda>r.
     Inr \<lparr>also_try = a, pages = p, card_result = c, related_searches = r\<rparr>))))"

section \<open>search\<close>

text \<open>
  The loop over the heading anchors of one result block: each sets \<open>title\<close> and
  \<open>link\<close> of \<open>page_results\<close>.
\<close>

fun search_titles ::
  "('d, 'n) env \<Rightarrow> 'd \<Rightarrow> pydict \<Rightarrow> 'n list \<Rightarrow> error + pydict" where
  "search_titles E d page_results [] = Inr page_results"
| "search_titles E d page_results (title # rest) =
     bind_err (attr E d title ''href'') (\<lambda>link.
     bind_err (get_abs_link (netloc_ok E) link) (\<lambda>absLink.
     search_titles E d
       (dict_set ''link'' (PStr absLink)
         (dict_set ''title''
           (PStr (case last_child E d title of Some c \<Rightarrow> node_text E d c | None \<Rightarrow> []))
           page_results))
       rest))"

text \<open>The loop over the snippet paragraphs: each is unwrapped in place, then read.\<close>

fun search_texts ::
  "('d, 'n) env \<Rightarrow> 'd \<Rightarrow> pydict \<Rightarrow> 'n list \<Rightarrow> 'd \<times> pydict" where
  "search_texts E d page_results [] = (d, page_results)"
| "search_texts E d page_results (texts # rest) =
     (let d' = unwrap_tags E d texts MD_TAGS
      in search_texts E d' (dict_set ''text'' (PStr (text_deep E d' texts)) page_results) rest)"

text \<open>The loop over the result blocks; \<open>ps\<close> is \<open>contents['pages']\<close>.\<close>

fun search_webpages ::
  "('d, 'n) env \<Rightarrow> 'd \<Rightarrow> pyval list \<Rightarrow> 'n list \<Rightarrow> error + 'd \<times> pyval list" where
  "search_webpages E d ps [] = Inr (d, ps)"
| "search_webpages E d ps (webpage # rest) =
     bind_err (search_titles E d [] (css E d webpage ''div.compTitle h3 a'')) (\<lambda>r1.
     case search_texts E d r1 (css E d webpage ''.compText.aAbs p'') of
       (d', r2) \<Rightarrow> search_webpages E d' (ps @ [PDict r2]) rest)"

text \<open>The info card. \<open>contents['card']\<close> starts as the empty dictionary.\<close>

definition card_image_part :: "('d, 'n) env \<Rightarrow> 'd \<Rightarrow> 'n \<Rightarrow> pydict \<Rightarrow> error + pydict" where
  "card_image_part E d c cd =
     (case css_first E d c ''img'' of
        None \<Rightarrow> Inr cd
      | Some image_node \<Rightarrow>
          bind_err (attr E d image_node ''src'') (\<lambda>src.
          bind_err (get_abs_image src) (\<lambda>im.
          Inr (dict_set ''image'' (PStr im) cd))))"

definition card_heading_part :: "('d, 'n) env \<Rightarrow> 'd \<Rightarrow> 'n \<Rightarrow> pydict \<Rightarrow> 'd \<times> pydict" where
  "card_heading_part E d c cd =
     (case css_first E d c ''p.pl-15.pr-10 span'' of
        None \<Rightarrow> (d, cd)
      | Some heading_2 \<Rightarrow>
          (let d' = unwrap_tags E d heading_2 MD_TAGS
           in (d', dict_set ''heading'' (PStr (text_deep E d' heading_2)) cd)))"

definition card_inner_part :: "('d, 'n) env \<Rightarrow> 'd \<Rightarrow> 'n \<Rightarrow> pydict \<Rightarrow> error + pydict" where
  "card_inner_part E d c cd =
     (case css_first E d c ''div.compText p'' of
        None \<Rightarrow> Inr cd
      | Some inner_content \<Rightarrow>
          (let cd' = dict_set ''text''
                 (PStr (case first_child E d inner_content of
                          Some t \<Rightarrow> node_text E d t | None \<Rightarrow> [])) cd
           in case css_first E d inner_content ''a'' of
                None \<Rightarrow> Inr cd'
              | Some source \<Rightarrow>
                  bind_err (get_abs_link (netloc_ok E) (attr_get E d source ''href'')) (\<lambda>l.
                  Inr (dict_set ''source''
                         (PDict [(str ''link'', PStr l), (str ''text'', PStr (node_text E d source))])
                         cd'))))"

definition search_card :: "('d, 'n) env \<Rightarrow> 'd \<Rightarrow> 'n \<Rightarrow> error + 'd \<times> pydict" where
  "search_card E d parser =
     (case css_first E d parser ''.cardReg.searchRightTop'' of
        None \<Rightarrow> Inr (d, [])
      | Some c \<Rightarrow>
          bind_err (card_image_part E d c []) (\<lambda>cd1.
          case card_heading_part E d c cd1 of
            (d', cd2) \<Rightarrow>
              bind_err (card_inner_part E d' c cd2) (\<lambda>cd3. Inr (d', cd3))))"

text \<open>The two link lists: the \<open>link\<close> of an entry is the anchor's \<open>href\<close> as it stands.\<close>

fun search_also_try ::
  "('d, 'n) env \<Rightarrow> 'd \<Rightarrow> pyval list \<Rightarrow> 'n list \<Rightarrow> error + pyval list" where
  "search_also_try E d acc [] = Inr acc"
| "search_also_try E d acc (item # rest) =
     bind_err (attr E d item ''href'') (\<lambda>href.
     search_also_try E d
       (acc @ [PDict [(str ''link'', opt_val href), (str ''text'', PStr (node_text E d item))]])
       rest)"

fun search_related ::
  "('d, 'n) env \<Rightarrow> 'd \<Rightarrow> pyval list \<Rightarrow> 'n list \<Rightarrow> error + 'd \<times> pyval list" where
  "search_related E d acc [] = Inr (d, acc)"
| "search_related E d acc (item # rest) =
     (let d' = unwrap_tags E d item MD_TAGS;
          t = text_deep E d' item
      in bind_err (attr E d' item ''href'') (\<lambda>href.
         search_related E d'
           (acc @ [PDict [(str ''link'', opt_val href), (str ''text'', PStr t)]])
           rest))"

text \<open>
  Everything after \<open>Parser(res.text)\<close>: the container is looked up first, the
  assertion comes before the loops.
\<close>

definition search_parse :: "('d, 'n) env \<Rightarrow> 'd \<Rightarrow> 'n \<Rightarrow> error + SearchResult" where
  "search_parse E d parser =
     (case css_first E d parser ''.reg.searchCenterMiddle'' of
        None \<Rightarrow> Inl (AssertionError search_missing_message)
      | Some node \<Rightarrow>
          bind_err (search_webpages E d [] (css E d node ''.dd.algo.algo-sr'')) (\<lambda>(d1, ps).
          bind_err (search_card E d1 parser) (\<lambda>(d2, cd).
          bind_err (search_also_try E d2 []
                      (css E d2 parser ''ol.cardReg.searchTop .compDlink li span a'')) (\<lambda>at.
          bind_err (search_related E d2 []
                      (css E d2 parser ''ol.scf.reg.searchCenterFooter tbody tr td a''))
            (\<lambda>(d3, rs).
          validate_SearchResult
            [(str ''also_try'', PList at), (str ''pages'', PList ps),
             (str ''card'', PDict cd), (str ''related_searches'', PList rs)])))))"

definition search :: "('d, 'n) env \<Rightarrow> pystr \<Rightarrow> error + SearchResult" where
  "search E query =
     bind_err (client_get E (str ''https://sg.search.yahoo.com/search?q='' @ quote_plus E query)
                 headers) (\<lambda>res.
     bind_err (raise_for_status res) (\<lambda>_.
     case Parser E (res_text res) of (d, parser) \<Rightarrow> search_parse E d parser))"

section \<open>search_news\<close>

text \<open>\<^verbatim>\<open>def query_to_tabs(query)\<close>: the three tab links of a quoted query.\<close>

definition query_to_tabs :: "pystr \<Rightarrow> (string \<times> pystr) list" where
  "query_to_tabs query =
     [(''images'', str ''https://sg.image.search.yahoo.com/search?q='' @ query),
      (''news'', str ''https://sg.news.search.yahoo.com/search?q='' @ query),
      (''videos'', str ''https://sg.video.search.yahoo.com/search?q='' @ query)]"

definition tabs_get :: "(string \<times> pystr) list \<Rightarrow> string \<Rightarrow> error + pystr" where
  "tabs_get tabs k = (case map_of tabs k of None \<Rightarrow> Inl KeyError | Some v \<Rightarrow> Inr v)"

record News =
  news_title :: pystr
  news_thumbnail :: "pystr option"
  news_source :: "pystr option"
  news_last_updated :: "pystr option"
  news_text :: "pystr option"

record NewsSearchResult =
  news :: "News list"

definition validate_News :: "pyval \<Rightarrow> error + News" where
  "validate_News v =
     (case v of
        PDict d \<Rightarrow>
          bind_err (req_str d ''title'') (\<lambda>ti.
          bind_err (opt_str d ''thumbnail'') (\<lambda>th.
          bind_err (opt_str d ''source'') (\<lambda>so.
          bind_err (opt_str d ''last_updated'') (\<lambda>lu.
          bind_err (opt_str d ''text'') (\<lambda>te.
          Inr \<lparr>news_title = ti, news_thumbnail = th, news_source = so,
               news_last_updated = lu, news_text = te\<rparr>)))))
      | _ \<Rightarrow> Inl ValidationError)"

definition validate_NewsSearchResult :: "pyval list \<Rightarrow> error + NewsSearchResult" where
  "validate_NewsSearchResult contents =
     bind_err (validate_list validate_News contents) (\<lambda>ns. Inr \<lparr>news = ns\<rparr>)"

text \<open>
  The probes of one list item, in the order of the source; \<open>this\<close> is the dictionary
  of the item. \<open>src.startswith\<close> raises \<open>AttributeError\<close> when the attribute has no
  value.
\<close>

definition news_thumbnail_part ::
  "('d, 'n) env \<Rightarrow> 'd \<Rightarrow> 'n \<Rightarrow> pydict \<Rightarrow> error + pydict" where
  "news_thumbnail_part E d item this =
     (case css_first E d item ''img'' of
        None \<Rightarrow> Inr this
      | Some thumbnail \<Rightarrow>
          bind_err (attr E d thumbnail ''src'') (\<lambda>src.
          case src of
            None \<Rightarrow> Inl AttributeError
          | Some s \<Rightarrow>
              Inr (dict_set ''thumbnail''
                     (if startswith s (str ''data:image/'') then PNone else PStr s) this)))"

definition news_title_part ::
  "('d, 'n) env \<Rightarrow> 'd \<Rightarrow> 'n \<Rightarrow> pydict \<Rightarrow> error + pydict" where
  "news_title_part E d item this =
     (case css_first E d item ''h4 a'' of
        None \<Rightarrow> Inr this
      | Some title \<Rightarrow>
          bind_err (attr E d title ''href'') (\<lambda>href.
          Inr (dict_set ''link'' (opt_val href)
                 (dict_set ''title'' (PStr (node_text E d title)) this))))"

definition news_source_part :: "('d, 'n) env \<Rightarrow> 'd \<Rightarrow> 'n \<Rightarrow> pydict \<Rightarrow> pydict" where
  "news_source_part E d item this =
     (case css_first E d item ''span.s-source'' of
        None \<Rightarrow> this
      | Some source \<Rightarrow> dict_set ''source'' (PStr (node_text E d source)) this)"

definition news_time_part :: "('d, 'n) env \<Rightarrow> 'd \<Rightarrow> 'n \<Rightarrow> pydict \<Rightarrow> pydict" where
  "news_time_part E d item this =
     (case css_first E d item ''span.fc-2nd.s-time'' of
        None \<Rightarrow> this
      | Some last_updated \<Rightarrow>
          dict_set ''time'' (PStr (drop 2 (node_text E d last_updated))) this)"

definition news_description_part ::
  "('d, 'n) env \<Rightarrow> 'd \<Rightarrow> 'n \<Rightarrow> pydict \<Rightarrow> 'd \<times> pydict" where
  "news_description_part E d item this =
     (case css_first E d item ''p.s-desc'' of
        None \<Rightarrow> (d, this)
      | Some description \<Rightarrow>
          (let d' = unwrap_tags E d description MD_TAGS
           in (d', dict_set ''text'' (PStr (text_deep E d' description)) this)))"

definition news_item :: "('d, 'n) env \<Rightarrow> 'd \<Rightarrow> 'n \<Rightarrow> error + 'd \<times> pydict" where
  "news_item E d item =
     bind_err (news_thumbnail_part E d item []) (\<lambda>t1.
     bind_err (news_title_part E d item t1) (\<lambda>t2.
     Inr (news_description_part E d item
            (news_time_part E d item (news_source_part E d item t2)))))"

fun news_loop ::
  "('d, 'n) env \<Rightarrow> 'd \<Rightarrow> pyval list \<Rightarrow> 'n list \<Rightarrow> error + 'd \<times> pyval list" where
  "news_loop E d contents [] = Inr (d, contents)"
| "news_loop E d contents (item # rest) =
     bind_err (news_item E d item) (\<lambda>(d', this).
     news_loop E d' (contents @ [PDict this]) rest)"

definition news_parse :: "('d, 'n) env \<Rightarrow> 'd \<Rightarrow> 'n \<Rightarrow> error + NewsSearchResult" where
  "news_parse E d parser =
     (case css_first E d parser ''#main #web'' of
        None \<Rightarrow> Inl (AssertionError news_missing_message)
      | Some page \<Rightarrow>
          bind_err (news_loop E d [] (css E d page ''li .dd.NewsArticle li'')) (\<lambda>(d', contents).
          validate_NewsSearchResult contents))"

definition search_news :: "('d, 'n) env \<Rightarrow> pystr \<Rightarrow> error + NewsSearchResult" where
  "search_news E query =
     bind_err (tabs_get (query_to_tabs (quote_plus E query)) ''news'') (\<lambda>url.
     bind_err (client_get E url headers) (\<lambda>res.
     case Parser E (res_text res) of (d, parser) \<Rightarrow> news_parse E d parser))"

section \<open>search_videos\<close>

record Video =
  video_age :: "pystr option"
  video_cite :: "pystr option"
  video_thumbnail :: "pystr option"
  video_preview :: "pystr option"
  video_title :: pystr
  video_link :: pystr

record VideoSearchResult =
  videos :: "Video list"

definition validate_Video :: "pyval \<Rightarrow> error + Video" where
  "validate_Video v =
     (case v of
        PDict d \<Rightarrow>
          bind_err (opt_str d ''age'') (\<lambda>a.
          bind_err (opt_str d ''cite'') (\<lambda>c.
          bind_err (opt_str d ''thumbnail'') (\<lambda>th.
          bind_err (opt_str d ''video_preview'') (\<lambda>vp.
          bind_err (req_str d ''title'') (\<lambda>ti.
          bind_err (req_str d ''link'') (\<lambda>l.
          Inr \<lparr>video_age = a, video_cite = c, video_thumbnail = th,
               video_preview = vp, video_title = ti, video_link = l\<rparr>))))))
      | _ \<Rightarrow> Inl ValidationError)"

definition validate_VideoSearchResult :: "pyval list \<Rightarrow> error + VideoSearchResult" where
  "validate_VideoSearchResult contents =
     bind_err (validate_list validate_Video contents) (\<lambda>vs. Inr \<lparr>videos = vs\<rparr>)"

text \<open>
  The anchor of a video item: the link is the fixed origin followed by \<open>href\<close>
  (\<open>TypeError\<close> when the attribute has no value); a non-empty \<open>data\<close> attribute is
  parsed as JSON and gives the preview when its \<open>m\<close> is true.
\<close>

definition video_preview_part :: "('d, 'n) env \<Rightarrow> pystr option \<Rightarrow> pydict \<Rightarrow> error + pydict" where
  "video_preview_part E preview this =
     (case preview of
        None \<Rightarrow> Inr this
      | Some p \<Rightarrow>
          if p = [] then Inr this
          else bind_err (json_loads E p) (\<lambda>meta.
               bind_err (getitem_str meta ''m'') (\<lambda>m.
               if truthy m
               then bind_err (getitem_str m ''u'') (\<lambda>u. Inr (dict_set ''video_preview'' u this))
               else Inr this)))"

definition video_anchor_part ::
  "('d, 'n) env \<Rightarrow> 'd \<Rightarrow> 'n \<Rightarrow> pydict \<Rightarrow> error + pydict" where
  "video_anchor_part E d result this =
     (case css_first E d result ''a'' of
        None \<Rightarrow> Inr this
      | Some anchor \<Rightarrow>
          bind_err (attr E d anchor ''href'') (\<lambda>href.
          case href of
            None \<Rightarrow> Inl TypeError
          | Some h \<Rightarrow>
              video_preview_part E (attr_get E d anchor ''data'')
                (dict_set ''link'' (PStr (str ''https://sg.video.search.yahoo.com'' @ h)) this)))"

definition video_thumbnail_part ::
  "('d, 'n) env \<Rightarrow> 'd \<Rightarrow> 'n \<Rightarrow> pydict \<Rightarrow> error + pydict" where
  "video_thumbnail_part E d result this =
     (case css_first E d result ''img'' of
        None \<Rightarrow> Inr this
      | Some thumbnail \<Rightarrow>
          bind_err (attr E d thumbnail ''src'') (\<lambda>src.
          Inr (dict_set ''thumbnail'' (opt_val src) this)))"

definition video_duration_part :: "('d, 'n) env \<Rightarrow> 'd \<Rightarrow> 'n \<Rightarrow> pydict \<Rightarrow> pydict" where
  "video_duration_part E d result this =
     (case css_first E d result ''div.pos-box .vthm .stack.grad span.v-time'' of
        None \<Rightarrow> this
      | Some duration \<Rightarrow> dict_set ''duration'' (PStr (node_text E d duration)) this)"

definition video_metadata_part ::
  "('d, 'n) env \<Rightarrow> 'd \<Rightarrow> 'n \<Rightarrow> pydict \<Rightarrow> 'd \<times> pydict" where
  "video_metadata_part E d result this =
     (case css_first E d result ''div.v-meta'' of
        None \<Rightarrow> (d, this)
      | Some metadata \<Rightarrow>
          (let (d1, this1) =
                 (case first_child E d metadata of
                    None \<Rightarrow> (d, this)
                  | Some title \<Rightarrow>
                      (let d' = unwrap_tags E d title MD_TAGS
                       in (d', dict_set ''title'' (PStr (text_deep E d' title)) this)));
               this2 =
                 (case css_first E d1 metadata ''.v-age'' of
                    None \<Rightarrow> this1
                  | Some age \<Rightarrow> dict_set ''age'' (PStr (node_text E d1 age)) this1);
               this3 =
                 (case last_child E d1 metadata of
                    None \<Rightarrow> this2
                  | Some cite \<Rightarrow> dict_set ''cite'' (PStr (node_text E d1 cite)) this2)
           in (d1, this3)))"

definition video_item :: "('d, 'n) env \<Rightarrow> 'd \<Rightarrow> 'n \<Rightarrow> error + 'd \<times> pydict" where
  "video_item E d result =
     bind_err (video_anchor_part E d result []) (\<lambda>t1.
     bind_err (video_thumbnail_part E d result t1) (\<lambda>t2.
     Inr (video_metadata_part E d result (video_duration_part E d result t2))))"

fun video_loop ::
  "('d, 'n) env \<Rightarrow> 'd \<Rightarrow> pyval list \<Rightarrow> 'n list \<Rightarrow> error + 'd \<times> pyval list" where
  "video_loop E d contents [] = Inr (d, contents)"
| "video_loop E d contents (result # rest) =
     bind_err (video_item E d result) (\<lambda>(d', this).
     video_loop E d' (contents @ [PDict this]) rest)"

text \<open>The assertion is on the list of items: an empty list fails it.\<close>

definition videos_parse :: "('d, 'n) env \<Rightarrow> 'd \<Rightarrow> 'n \<Rightarrow> error + VideoSearchResult" where
  "videos_parse E d parser =
     (let results = css E d parser ''#search li.vr.vres''
      in if results = []
         then Inl (AssertionError videos_empty_message)
         else bind_err (video_loop E d [] results) (\<lambda>(d', contents).
              validate_VideoSearchResult contents))"

definition search_videos :: "('d, 'n) env \<Rightarrow> pystr \<Rightarrow> error + VideoSearchResult" where
  "search_videos E query =
     bind_err (tabs_get (query_to_tabs (quote_plus E query)) ''videos'') (\<lambda>url.
     bind_err (client_get E url headers) (\<lambda>res.
     bind_err (raise_for_status res) (\<lambda>_.
     case Parser E (res_text res) of (d, parser) \<Rightarrow> videos_parse E d parser)))"

section \<open>autocomplete\<close>

text \<open>\<open>res.json()[1]\<close>, returned as it is: the annotation \<open>List[str]\<close> checks nothing.\<close>

definition autocomplete :: "('d, 'n) env \<Rightarrow> pystr \<Rightarrow> error + pyval" where
  "autocomplete E query =
     bind_err (client_get E
                 (str ''https://ff.search.yahoo.com/gossip?output=fxjson&query=''
                  @ quote_plus E query) headers) (\<lambda>res.
     bind_err (res_json res) (\<lambda>j. getitem_int j 1))"

section \<open>weather\<close>

record HighLowTemperature =
  highest :: int
  lowest :: int

record WeatherForecastInner =
  inner_text :: pystr
  inner_icon :: pystr

record Precipitation =
  precipitation_icon :: pystr
  precipitation_percentage :: pystr

record WeatherForecast =
  forecast_fahrenheit :: HighLowTemperature
  forecast_celsius :: HighLowTemperature
  forecast_weather :: WeatherForecastInner
  forecast_precipitation :: Precipitation

record WeatherInformation =
  location :: pystr
  country :: pystr
  time :: pystr
  celsius :: int
  fahrenheit :: int
  weather_text :: pystr
  weather_icon :: pystr
  forecast :: "(pystr \<times> WeatherForecast) list"

definition weekdays :: "pystr list" where
  "weekdays =
     [str ''Monday'', str ''Tuesday'', str ''Wednesday'', str ''Thursday'', str ''Friday'',
      str ''Saturday'', str ''Sunday'']"

definition validate_HighLowTemperature :: "pyval \<Rightarrow> error + HighLowTemperature" where
  "validate_HighLowTemperature v =
     (case v of
        PDict d \<Rightarrow>
          bind_err (req_int d ''highest'') (\<lambda>h.
          bind_err (req_int d ''lowest'') (\<lambda>l.
          Inr \<lparr>highest = h, lowest = l\<rparr>))
      | _ \<Rightarrow> Inl ValidationError)"

definition validate_WeatherForecastInner :: "pyval \<Rightarrow> error + WeatherForecastInner" where
  "validate_WeatherForecastInner v =
     (case v of
        PDict d \<Rightarrow>
          bind_err (req_str d ''text'') (\<lambda>t.
          bind_err (req_str d ''icon'') (\<lambda>i.
          Inr \<lparr>inner_text = t, inner_icon = i\<rparr>))
      | _ \<Rightarrow> Inl ValidationError)"

definition validate_Precipitation :: "pyval \<Rightarrow> error + Precipitation" where
  "validate_Precipitation v =
     (case v of
        PDict d \<Rightarrow>
          bind_err (req_str d ''icon'') (\<lambda>i.
          bind_err (req_str d ''percentage'') (\<lambda>p.
          Inr \<lparr>precipitation_icon = i, precipitation_percentage = p\<rparr>))
      | _ \<Rightarrow> Inl ValidationError)"

definition req_field :: "(pyval \<Rightarrow> error + 'a) \<Rightarrow> pydict \<Rightarrow> string \<Rightarrow> error + 'a" where
  "req_field f d k = (case map_of d (str k) of None \<Rightarrow> Inl ValidationError | Some v \<Rightarrow> f v)"

definition validate_WeatherForecast :: "pyval \<Rightarrow> error + WeatherForecast" where
  "validate_WeatherForecast v =
     (case v of
        PDict d \<Rightarrow>
          bind_err (req_field validate_HighLowTemperature d ''fahrenheit'') (\<lambda>f.
          bind_err (req_field validate_HighLowTemperature d ''celsius'') (\<lambda>c.
          bind_err (req_field validate_WeatherForecastInner d ''weather'') (\<lambda>w.
          bind_err (req_field validate_Precipitation d ''precipitation'') (\<lambda>p.
          Inr \<lparr>forecast_fahrenheit = f, forecast_celsius = c, forecast_weather = w,
               forecast_precipitation = p\<rparr>))))
      | _ \<Rightarrow> Inl ValidationError)"

text \<open>
  \<open>Dict[Literal['Monday', ..., 'Sunday'], WeatherForecast]\<close>: every key must be one of
  the seven names, every value a valid forecast.
\<close>

fun validate_forecast :: "pydict \<Rightarrow> error + (pystr \<times> WeatherForecast) list" where
  "validate_forecast [] = Inr []"
| "validate_forecast ((k, v) # rest) =
     (if k \<in> set weekdays
      then bind_err (validate_WeatherForecast v) (\<lambda>w.
           bind_err (validate_forecast rest) (\<lambda>ws. Inr ((k, w) # ws)))
      else Inl ValidationError)"

definition validate_WeatherInformation :: "pydict \<Rightarrow> error + WeatherInformation" where
  "validate_WeatherInformation d =
     bind_err (req_str d ''location'') (\<lambda>lo.
     bind_err (req_str d ''country'') (\<lambda>co.
     bind_err (req_str d ''time'') (\<lambda>ti.
     bind_err (req_int d ''celsius'') (\<lambda>ce.
     bind_err (req_int d ''fahrenheit'') (\<lambda>fa.
     bind_err (req_str d ''weather'') (\<lambda>we.
     bind_err (req_str d ''weather_icon'') (\<lambda>ic.
     bind_err (case map_of d (str ''forecast'') of
                 Some (PDict fc) \<Rightarrow> validate_forecast fc
               | _ \<Rightarrow> Inl ValidationError) (\<lambda>fc.
     Inr \<lparr>location = lo, country = co, time = ti, celsius = ce, fahrenheit = fa,
          weather_text = we, weather_icon = ic, forecast = fc\<rparr>))))))))"

text \<open>The backslash of the escaped class names in the selectors.\<close>

definition bs :: string where
  "bs = [CHR 0x5C]"

text \<open>The fields read above the forecast table; \<open>data\<close> is the dictionary being filled.\<close>

definition weather_str_part ::
  "('d, 'n) env \<Rightarrow> 'd \<Rightarrow> 'n \<Rightarrow> string \<Rightarrow> string \<Rightarrow> pydict \<Rightarrow> pydict" where
  "weather_str_part E d parser sel k data =
     (case css_first E d parser sel of
        None \<Rightarrow> data
      | Some n \<Rightarrow> dict_set k (PStr (node_text E d n)) data)"

definition weather_int_part ::
  "('d, 'n) env \<Rightarrow> 'd \<Rightarrow> 'n \<Rightarrow> string \<Rightarrow> string \<Rightarrow> pydict \<Rightarrow> error + pydict" where
  "weather_int_part E d parser sel k data =
     (case css_first E d parser sel of
        None \<Rightarrow> Inr data
      | Some n \<Rightarrow> bind_err (py_int E (node_text E d n)) (\<lambda>i. Inr (dict_set k (PInt i) data)))"

text \<open>
  \<open>info[k1].update({k2: v})\<close>: the inner dictionary is changed in place, the key
  \<open>k1\<close> keeps its position in \<open>info\<close>.
\<close>

definition nested_set :: "pydict \<Rightarrow> string \<Rightarrow> string \<Rightarrow> pyval \<Rightarrow> error + pydict" where
  "nested_set info k1 k2 v =
     (case map_of info (str k1) of
        None \<Rightarrow> Inl KeyError
      | Some (PDict sub) \<Rightarrow> Inr (dict_set k1 (PDict (dict_set k2 v sub)) info)
      | Some _ \<Rightarrow> Inl AttributeError)"

text \<open>
  The loop over the temperature cells of a row, \<open>index\<close> counting from 0: the text
  loses its last character and is parsed; the index alone decides the field.
\<close>

fun hl_temp_loop ::
  "('d, 'n) env \<Rightarrow> 'd \<Rightarrow> pydict \<Rightarrow> nat \<Rightarrow> 'n list \<Rightarrow> error + pydict" where
  "hl_temp_loop E d info index [] = Inr info"
| "hl_temp_loop E d info index (item # rest) =
     bind_err (py_int E (butlast (node_text E d item))) (\<lambda>v.
     bind_err (if index = 0 then nested_set info ''fahrenheit'' ''highest'' (PInt v)
               else if index = 1 then nested_set info ''celsius'' ''highest'' (PInt v)
               else if index = 2 then nested_set info ''fahrenheit'' ''lowest'' (PInt v)
               else nested_set info ''celsius'' ''lowest'' (PInt v)) (\<lambda>info'.
     hl_temp_loop E d info' (Suc index) rest))"

text \<open>\<open>row.first_child.last_child.text()\<close>: \<open>AttributeError\<close> on a missing child.\<close>

definition row_day :: "('d, 'n) env \<Rightarrow> 'd \<Rightarrow> 'n \<Rightarrow> error + pystr" where
  "row_day E d row =
     (case first_child E d row of
        None \<Rightarrow> Inl AttributeError
      | Some f \<Rightarrow>
          (case last_child E d f of
             None \<Rightarrow> Inl AttributeError
           | Some l \<Rightarrow> Inr (node_text E d l)))"

definition row_weather_part :: "('d, 'n) env \<Rightarrow> 'd \<Rightarrow> 'n \<Rightarrow> pydict \<Rightarrow> error + pydict" where
  "row_weather_part E d row info =
     (case css_first E d row (''td.Ta'' @ bs @ ''(c'' @ bs @ '') img'') of
        None \<Rightarrow> Inr info
      | Some w \<Rightarrow>
          bind_err (attr E d w ''alt'') (\<lambda>alt.
          bind_err (attr E d w ''src'') (\<lambda>src.
          Inr (dict_set ''weather''
                 (PDict [(str ''text'', opt_val alt), (str ''icon'', opt_val src)]) info))))"

definition row_precipitation_part ::
  "('d, 'n) env \<Rightarrow> 'd \<Rightarrow> 'n \<Rightarrow> pydict \<Rightarrow> error + pydict" where
  "row_precipitation_part E d row info =
     (case css_first E d row (''td.D'' @ bs @ ''(f'' @ bs @ '').Jc'' @ bs @ ''(c'' @ bs @ '')'') of
        None \<Rightarrow> Inr info
      | Some precipitation \<Rightarrow>
          (case last_child E d precipitation of
             None \<Rightarrow> Inl AttributeError
           | Some l \<Rightarrow>
               (case first_child E d precipitation of
                  None \<Rightarrow> Inl AttributeError
                | Some img \<Rightarrow>
                    bind_err (attr E d img ''src'') (\<lambda>src.
                    case last_child E d l of
                      None \<Rightarrow> Inl AttributeError
                    | Some percentage \<Rightarrow>
                        Inr (dict_set ''precipitation''
                               (PDict [(str ''icon'', opt_val src),
                                       (str ''percentage'', PStr (node_text E d percentage))])
                               info)))))"

definition hl_temp_selector :: string where
  "hl_temp_selector =
     ''td.D'' @ bs @ ''(f'' @ bs @ '').Jc'' @ bs @ ''(fe'' @ bs @ '').Ta'' @ bs @ ''(end'' @ bs
     @ '') dl dd''"

text \<open>One row of the forecast table: its day label and its \<open>info\<close> dictionary.\<close>

definition forecast_row :: "('d, 'n) env \<Rightarrow> 'd \<Rightarrow> 'n \<Rightarrow> error + pystr \<times> pydict" where
  "forecast_row E d row =
     bind_err (row_day E d row) (\<lambda>day.
     bind_err (row_weather_part E d row
                 [(str ''fahrenheit'', PDict []), (str ''celsius'', PDict [])]) (\<lambda>i1.
     bind_err (row_precipitation_part E d row i1) (\<lambda>i2.
     bind_err (hl_temp_loop E d i2 0 (css E d row hl_temp_selector)) (\<lambda>i3.
     Inr (day, i3)))))"

text \<open>The loop over the rows; \<open>fc\<close> is \<open>data['forecast']\<close>.\<close>

fun forecast_loop :: "('d, 'n) env \<Rightarrow> 'd \<Rightarrow> pydict \<Rightarrow> 'n list \<Rightarrow> error + pydict" where
  "forecast_loop E d fc [] = Inr fc"
| "forecast_loop E d fc (row # rest) =
     bind_err (forecast_row E d row) (\<lambda>(day, info).
     forecast_loop E d (AList.update day (PDict info) fc) rest)"

definition forecast_selector :: string where
  \<open>forecast_selector = ''table[data-slk="sec:forecast;"] tbody tr''\<close>

text \<open>
  The heading module: icon, description, and, only inside this branch, the forecast
  table, of which the first seven rows are read.
\<close>

definition weather_heading_part ::
  "('d, 'n) env \<Rightarrow> 'd \<Rightarrow> 'n \<Rightarrow> pydict \<Rightarrow> error + pydict" where
  "weather_heading_part E d parser data =
     (case css_first E d parser ''div#module-location-heading'' of
        None \<Rightarrow> Inr data
      | Some w \<Rightarrow>
          bind_err (case css_first E d w ''img'' of
                      None \<Rightarrow> Inr data
                    | Some img \<Rightarrow>
                        bind_err (attr E d img ''src'') (\<lambda>src.
                        Inr (dict_set ''weather_icon'' (opt_val src) data))) (\<lambda>data1.
          let data2 = weather_str_part E d w ''p'' ''weather'' data1
          in bind_err (forecast_loop E d []
                         (take 7 (css E d parser forecast_selector))) (\<lambda>fc.
             Inr (dict_set ''forecast'' (PDict fc) data2))))"

definition weather_parse :: "('d, 'n) env \<Rightarrow> 'd \<Rightarrow> 'n \<Rightarrow> error + WeatherInformation" where
  "weather_parse E d parser =
     bind_err (weather_int_part E d parser (''.celsius.celsius_D'' @ bs @ ''(b'' @ bs @ '')'')
                 ''celsius''
                 (weather_str_part E d parser ''time'' ''time''
                   (weather_str_part E d parser (''h2.D'' @ bs @ ''(b'' @ bs @ '')'') ''country''
                     (weather_str_part E d parser
                        (''div.M'' @ bs @ ''(10px'' @ bs @ '') h1'') ''location''
                        [(str ''forecast'', PDict [])])))) (\<lambda>data1.
     bind_err (weather_int_part E d parser ''.fahrenheit'' ''fahrenheit'' data1) (\<lambda>data2.
     bind_err (weather_heading_part E d parser data2) (\<lambda>data3.
     validate_WeatherInformation data3)))"

definition weather :: "('d, 'n) env \<Rightarrow> error + WeatherInformation" where
  "weather E =
     bind_err (client_get E (str ''https://sg.news.yahoo.com/weather/'') headers) (\<lambda>res.
     case Parser E (res_text res) of (d, parser) \<Rightarrow> weather_parse E d parser)"

section \<open>Fixture pages\<close>

text \<open>
  Concrete library behaviours on which the extractors are run. Nodes are numbered; a
  document state counts the \<open>unwrap_tags\<close> calls made so far. The queries of a fixture
  do not depend on the state: its pages hold none of the tags that are unwrapped.
\<close>

text \<open>
  A verdict for the further validation of an authority that accepts none. A URL with a
  plain ASCII authority never asks for it.
\<close>

definition strict_netloc :: "pystr \<Rightarrow> bool" where
  "strict_netloc n = False"

text \<open>\<open>int\<close> on a non-empty string of ASCII digits, the only texts the fixtures parse.\<close>

definition ascii_int :: "pystr \<Rightarrow> int option" where
  "ascii_int s =
     (if s \<noteq> [] \<and> list_all (\<lambda>c. 48 \<le> c \<and> c \<le> 57) s
      then Some (foldl (\<lambda>a c. 10 * a + int (c - 48)) 0 s)
      else None)"

definition page_env ::
  "(nat \<Rightarrow> string \<Rightarrow> nat list) \<Rightarrow> (nat \<Rightarrow> string \<Rightarrow> pystr option option) \<Rightarrow> (nat \<Rightarrow> pystr)
   \<Rightarrow> (nat \<Rightarrow> nat option) \<Rightarrow> (nat \<Rightarrow> nat option) \<Rightarrow> (error + pyval) \<Rightarrow> (nat, nat) env" where
  "page_env cssf attrf textf firstf lastf js =
     \<lparr>client_get = (\<lambda>url hs. Inr \<lparr>status_code = 200, res_text = [], res_json = js\<rparr>),
      quote_plus = (\<lambda>q. q),
      Parser = (\<lambda>t. (0, 0)),
      css = (\<lambda>d. cssf),
      attributes = (\<lambda>d. attrf),
      node_text = (\<lambda>d. textf),
      text_deep = (\<lambda>d. textf),
      first_child = (\<lambda>d. firstf),
      last_child = (\<lambda>d. lastf),
      unwrap_tags = (\<lambda>d n tags. Suc d),
      json_loads = (\<lambda>s. Inl JSONDecodeError),
      int_of_str = ascii_int,
      netloc_ok = strict_netloc\<rparr>"

text \<open>A page on which no selector matches anything.\<close>

definition empty_page :: "(nat, nat) env" where
  "empty_page =
     page_env (\<lambda>n sel. []) (\<lambda>n k. None) (\<lambda>n. []) (\<lambda>n. None) (\<lambda>n. None) (Inl JSONDecodeError)"

text \<open>
  A result page with one organic result (block 2: heading anchor 3 with text node 4,
  snippet paragraph 5), one "also try" anchor (6), one related search anchor (7) and no
  info card. Node 1 is the results container, node 0 the document.
\<close>

definition wrapped_example_com :: pystr where
  "wrapped_example_com =
     str ''https://r.search.yahoo.com/_ylt=Awr/RV=2/RE=1700000000/RO=10/RU=https%3a%2f%2fexample.com%2fabc/RK=2/RS=abc-''"

definition wrapped_example_org :: pystr where
  "wrapped_example_org =
     str ''https://r.search.yahoo.com/_ylt=Awr/RV=2/RE=1700000000/RO=10/RU=https%3a%2f%2fexample.org%2f/RK=2/RS=xyz-''"

definition result_page_css :: "nat \<Rightarrow> string \<Rightarrow> nat list" where
  "result_page_css n sel =
     (if n = 0 \<and> sel = ''.reg.searchCenterMiddle'' then [1]
      else if n = 1 \<and> sel = ''.dd.algo.algo-sr'' then [2]
      else if n = 2 \<and> sel = ''div.compTitle h3 a'' then [3]
      else if n = 2 \<and> sel = ''.compText.aAbs p'' then [5]
      else if n = 0 \<and> sel = ''ol.cardReg.searchTop .compDlink li span a'' then [6]
      else if n = 0 \<and> sel = ''ol.scf.reg.searchCenterFooter tbody tr td a'' then [7]
      else [])"

definition result_page_attr :: "nat \<Rightarrow> string \<Rightarrow> pystr option option" where
  "result_page_attr n k =
     (if n = 3 \<and> k = ''href'' then Some (Some wrapped_example_com)
      else if n = 6 \<and> k = ''href'' then Some (Some wrapped_example_org)
      else if n = 7 \<and> k = ''href''
        then Some (Some (str ''https://sg.search.yahoo.com/search?p=examples''))
      else None)"

definition result_page_text :: "nat \<Rightarrow> pystr" where
  "result_page_text n =
     (if n = 4 then str ''Example''
      else if n = 5 then str ''An example page''
      else if n = 6 then str ''example org''
      else if n = 7 then str ''examples''
      else [])"

definition result_page :: "(nat, nat) env" where
  "result_page =
     page_env result_page_css result_page_attr result_page_text
       (\<lambda>n. None) (\<lambda>n. if n = 3 then Some 4 else None) (Inl JSONDecodeError)"

text \<open>What \<open>search\<close> returns on this page.\<close>

definition result_page_result :: SearchResult where
  "result_page_result =
     \<lparr>also_try = [\<lparr>ati_link = wrapped_example_org, ati_text = str ''example org''\<rparr>],
      pages = [\<lparr>page_title = str ''Example'', page_link = str ''https://example.com/abc'',
                page_text = Some (str ''An example page'')\<rparr>],
      card_result = Some \<lparr>card_image = None, card_heading = None, card_text = None,
                           card_source = None\<rparr>,
      related_searches =
        [\<lparr>related_link = str ''https://sg.search.yahoo.com/search?p=examples'',
          related_text = str ''examples''\<rparr>]\<rparr>"

text \<open>
  News pages. Node 1 is the results list. Item 2 has a heading anchor (3) and a time
  label (4) reading U+00B7, a space, and \<open>2 hours ago\<close>; item 5 has nothing that any
  probe matches.
\<close>

definition news_page_attr :: "nat \<Rightarrow> string \<Rightarrow> pystr option option" where
  "news_page_attr n k =
     (if n = 3 \<and> k = ''href'' then Some (Some (str ''https://news.example.com/story''))
      else None)"

definition news_page_text :: "nat \<Rightarrow> pystr" where
  "news_page_text n =
     (if n = 3 then str ''Headline''
      else if n = 4 then [183, 32] @ str ''2 hours ago''
      else [])"

definition news_page_css :: "nat list \<Rightarrow> nat \<Rightarrow> string \<Rightarrow> nat list" where
  "news_page_css items n sel =
     (if n = 0 \<and> sel = ''#main #web'' then [1]
      else if n = 1 \<and> sel = ''li .dd.NewsArticle li'' then items
      else if n = 2 \<and> sel = ''h4 a'' then [3]
      else if n = 2 \<and> sel = ''span.fc-2nd.s-time'' then [4]
      else [])"

definition news_page :: "nat list \<Rightarrow> (nat, nat) env" where
  "news_page items =
     page_env (news_page_css items) news_page_attr news_page_text
       (\<lambda>n. None) (\<lambda>n. None) (Inl JSONDecodeError)"

text \<open>What \<open>search_news\<close> returns on the page whose only item is item 2.\<close>

definition news_page_result :: NewsSearchResult where
  "news_page_result =
     \<lparr>news = [\<lparr>news_title = str ''Headline'', news_thumbnail = None, news_source = None,
               news_last_updated = None, news_text = None\<rparr>]\<rparr>"

text \<open>
  A news page with two list items. Item 5 has nothing that any probe matches; item 6
  has an image (7) that carries no \<open>src\<close> attribute.
\<close>

definition broken_news_css :: "nat \<Rightarrow> string \<Rightarrow> nat list" where
  "broken_news_css n sel =
     (if n = 0 \<and> sel = ''#main #web'' then [1]
      else if n = 1 \<and> sel = ''li .dd.NewsArticle li'' then [5, 6]
      else if n = 6 \<and> sel = ''img'' then [7]
      else [])"

definition broken_news_page :: "(nat, nat) env" where
  "broken_news_page =
     page_env broken_news_css (\<lambda>n k. None) (\<lambda>n. []) (\<lambda>n. None) (\<lambda>n. None)
       (Inl JSONDecodeError)"

text \<open>Suggestion responses: the body is the JSON value given.\<close>

definition suggest_response :: "pyval \<Rightarrow> (nat, nat) env" where
  "suggest_response j =
     page_env (\<lambda>n sel. []) (\<lambda>n k. None) (\<lambda>n. []) (\<lambda>n. None) (\<lambda>n. None) (Inr j)"

text \<open>
  A weather page with five forecast rows, nodes 100, 200, ..., 500. In row \<open>r\<close>: the
  first cell \<open>r + 1\<close> ends in the text node \<open>r + 2\<close> with the day label; \<open>r + 3\<close> is
  the weather image; \<open>r + 4\<close> the precipitation cell with image \<open>r + 5\<close> and, under
  its last child \<open>r + 6\<close>, the text node \<open>r + 7\<close>; \<open>r + 8\<close> to \<open>r + 11\<close> are the four
  temperature cells. Nodes 1 to 8 are the heading fields.
\<close>

definition weather_rows :: "nat list" where
  "weather_rows = [100, 200, 300, 400, 500]"

definition weather_page_css :: "nat \<Rightarrow> string \<Rightarrow> nat list" where
  "weather_page_css n sel =
     (if n = 0 then
        (if sel = ''div.M'' @ bs @ ''(10px'' @ bs @ '') h1'' then [1]
         else if sel = ''h2.D'' @ bs @ ''(b'' @ bs @ '')'' then [2]
         else if sel = ''time'' then [3]
         else if sel = ''.celsius.celsius_D'' @ bs @ ''(b'' @ bs @ '')'' then [4]
         else if sel = ''.fahrenheit'' then [5]
         else if sel = ''div#module-location-heading'' then [6]
         else if sel = forecast_selector then weather_rows
         else [])
      else if n = 6 then
        (if sel = ''img'' then [7] else if sel = ''p'' then [8] else [])
      else if n \<in> set weather_rows then
        (if sel = ''td.Ta'' @ bs @ ''(c'' @ bs @ '') img'' then [n + 3]
         else if sel = ''td.D'' @ bs @ ''(f'' @ bs @ '').Jc'' @ bs @ ''(c'' @ bs @ '')'' then [n + 4]
         else if sel = hl_temp_selector then [n + 8, n + 9, n + 10, n + 11]
         else [])
      else [])"

definition weather_page_attr :: "nat \<Rightarrow> string \<Rightarrow> pystr option option" where
  "weather_page_attr n k =
     (if n = 7 \<and> k = ''src'' then Some (Some (str ''https://s.yimg.com/cloudy.png''))
      else if n mod 100 = 3 \<and> k = ''alt'' then Some (Some (str ''Cloudy''))
      else if n mod 100 = 3 \<and> k = ''src'' then Some (Some (str ''https://s.yimg.com/cloudy.png''))
      else if n mod 100 = 5 \<and> k = ''src'' then Some (Some (str ''https://s.yimg.com/rain.png''))
      else None)"

definition weather_page_text :: "nat \<Rightarrow> pystr" where
  "weather_page_text n =
     (if n = 1 then str ''Singapore''
      else if n = 2 then str ''Singapore''
      else if n = 3 then str ''10:00 AM''
      else if n = 4 then str ''31''
      else if n = 5 then str ''88''
      else if n = 8 then str ''Cloudy''
      else if n = 102 then str ''Monday''
      else if n = 202 then str ''Tuesday''
      else if n = 302 then str ''Wednesday''
      else if n = 402 then str ''Thursday''
      else if n = 502 then str ''Friday''
      else if n mod 100 = 7 then str ''10%''
      else if n mod 100 = 8 then str ''91'' @ [176]
      else if n mod 100 = 9 then str ''33'' @ [176]
      else if n mod 100 = 10 then str ''79'' @ [176]
      else if n mod 100 = 11 then str ''26'' @ [176]
      else [])"

definition weather_page_first :: "nat \<Rightarrow> nat option" where
  "weather_page_first n =
     (if n \<in> set weather_rows then Some (n + 1)
      else if n mod 100 = 4 then Some (n + 1)
      else None)"

definition weather_page_last :: "nat \<Rightarrow> nat option" where
  "weather_page_last n =
     (if n mod 100 = 1 \<and> 100 \<le> n then Some (n + 1)
      else if n mod 100 = 4 then Some (n + 2)
      else if n mod 100 = 6 \<and> 100 \<le> n then Some (n + 1)
      else None)"

definition weather_page :: "(nat, nat) env" where
  "weather_page =
     page_env weather_page_css weather_page_attr weather_page_text
       weather_page_first weather_page_last (Inl JSONDecodeError)"

text \<open>The \<open>info\<close> dictionary of each row of this page, and what \<open>weather\<close> returns on it.\<close>

definition weather_page_info :: pydict where
  "weather_page_info =
     [(str ''fahrenheit'', PDict [(str ''highest'', PInt 91), (str ''lowest'', PInt 79)]),
      (str ''celsius'', PDict [(str ''highest'', PInt 33), (str ''lowest'', PInt 26)]),
      (str ''weather'',
         PDict [(str ''text'', PStr (str ''Cloudy'')),
                (str ''icon'', PStr (str ''https://s.yimg.com/cloudy.png''))]),
      (str ''precipitation'',
         PDict [(str ''icon'', PStr (str ''https://s.yimg.com/rain.png'')),
                (str ''percentage'', PStr (str ''10%''))])]"

definition weather_page_day :: WeatherForecast where
  "weather_page_day =
     \<lparr>forecast_fahrenheit = \<lparr>highest = 91, lowest = 79\<rparr>,
      forecast_celsius = \<lparr>highest = 33, lowest = 26\<rparr>,
      forecast_weather =
        \<lparr>inner_text = str ''Cloudy'', inner_icon = str ''https://s.yimg.com/cloudy.png''\<rparr>,
      forecast_precipitation =
        \<lparr>precipitation_icon = str ''https://s.yimg.com/rain.png'',
         precipitation_percentage = str ''10%''\<rparr>\<rparr>"

definition weather_page_result :: WeatherInformation where
  "weather_page_result =
     \<lparr>location = str ''Singapore'', country = str ''Singapore'', time = str ''10:00 AM'',
      celsius = 31, fahrenheit = 88, weather_text = str ''Cloudy'',
      weather_icon = str ''https://s.yimg.com/cloudy.png'',
      forecast =
        [(str ''Monday'', weather_page_day), (str ''Tuesday'', weather_page_day),
         (str ''Wednesday'', weather_page_day), (str ''Thursday'', weather_page_day),
         (str ''Friday'', weather_page_day)]\<rparr>"

section \<open>Sequencing and splitting: basic facts\<close>

lemma bind_err_Inr: "bind_err m f = Inr r \<longleftrightarrow> (\<exists>x. m = Inr x \<and> f x = Inr r)"
  by (cases m) auto

lemma bind_err_Inl: "bind_err m f = Inl e \<longleftrightarrow> (m = Inl e \<or> (\<exists>x. m = Inr x \<and> f x = Inl e))"
  by (cases m) auto

lemma tabs_get_news:
  "tabs_get (query_to_tabs q) ''news'' = Inr (str ''https://sg.news.search.yahoo.com/search?q='' @ q)"
  by (simp add: tabs_get_def query_to_tabs_def)

lemma tabs_get_videos:
  "tabs_get (query_to_tabs q) ''videos''
     = Inr (str ''https://sg.video.search.yahoo.com/search?q='' @ q)"
  by (simp add: tabs_get_def query_to_tabs_def)

lemma startswith_append:
  "length p \<le> length xs \<Longrightarrow> startswith (xs @ ys) p = startswith xs p"
  by (induction xs p rule: startswith.induct) auto

lemma startswith_self: "startswith (p @ ys) p"
  by (induction p) auto

lemma split_from_nonempty: "split_from sep acc s \<noteq> []"
  by (induction sep acc s rule: split_from.induct) auto

lemma split_from_no_marker:
  "sep \<noteq> [] \<Longrightarrow> \<not> contains s sep \<Longrightarrow> split_from sep acc s = [acc @ s]"
  by (induction s arbitrary: acc) auto

lemma split_from_two:
  "sep \<noteq> [] \<Longrightarrow> contains s sep \<Longrightarrow> 2 \<le> length (split_from sep acc s)"
proof (induction s arbitrary: acc)
  case Nil
  then show ?case by simp
next
  case (Cons c cs)
  show ?case
  proof (cases "startswith (c # cs) sep")
    case True
    have "split_from sep [] (drop (length sep - 1) cs) \<noteq> []"
      by (rule split_from_nonempty)
    then have "1 \<le> length (split_from sep [] (drop (length sep - 1) cs))"
      by (cases "split_from sep [] (drop (length sep - 1) cs)") auto
    with True show ?thesis by simp
  next
    case False
    with Cons show ?thesis by simp
  qed
qed

text \<open>
  The first piece of a split ends where the separator first occurs: no occurrence may
  start inside \<open>pre\<close>, also none that runs over its end.
\<close>

lemma split_from_first:
  "sep \<noteq> [] \<Longrightarrow> \<not> contains (pre @ butlast sep) sep \<Longrightarrow>
   split_from sep acc (pre @ sep @ rest) = (acc @ pre) # split_from sep [] rest"
proof (induction pre arbitrary: acc)
  case Nil
  then obtain c sep' where sep: "sep = c # sep'" by (cases sep) auto
  have "startswith (sep @ rest) sep" by (rule startswith_self)
  then show ?case using sep by simp
next
  case (Cons c pre)
  have len: "length sep \<le> length ((c # pre) @ butlast sep)" by simp
  from Cons.prems have ns: "\<not> startswith ((c # pre) @ butlast sep) sep"
    and nc: "\<not> contains (pre @ butlast sep) sep" by auto
  have "(c # pre) @ sep @ rest = ((c # pre) @ butlast sep) @ (last sep # rest)"
    using Cons.prems(1) by simp
  then have "startswith ((c # pre) @ sep @ rest) sep
      = startswith ((c # pre) @ butlast sep) sep"
    using startswith_append [OF len] by metis
  with ns have "\<not> startswith (c # (pre @ sep @ rest)) sep" by simp
  then have "split_from sep acc ((c # pre) @ sep @ rest)
      = split_from sep (acc @ [c]) (pre @ sep @ rest)"
    by simp
  also have "\<dots> = ((acc @ [c]) @ pre) # split_from sep [] rest"
    using Cons.IH [OF Cons.prems(1) nc] .
  finally show ?case by simp
qed

lemma split_from_skip:
  "sep = c # sep' \<Longrightarrow> c \<notin> set xs \<Longrightarrow>
   split_from sep acc (xs @ ys) = split_from sep (acc @ xs) ys"
  by (induction xs arbitrary: acc) auto

lemma split_from_hd: "\<exists>s' more. split_from sep acc s = (acc @ s') # more"
proof (induction s arbitrary: acc)
  case Nil
  show ?case by simp
next
  case (Cons c cs)
  show ?case
  proof (cases "startswith (c # cs) sep")
    case True
    then show ?thesis by simp
  next
    case False
    from Cons [of "acc @ [c]"] obtain s' more
      where "split_from sep (acc @ [c]) cs = ((acc @ [c]) @ s') # more" by blast
    with False have "split_from sep acc (c # cs) = (acc @ (c # s')) # more" by simp
    then show ?thesis by blast
  qed
qed

text \<open>What evaluating \<open>get_abs_link\<close> on a literal URL unfolds.\<close>

lemmas url_eval =
  get_abs_link_def str_def urlsplit_path_def strip_scheme_def remove_unsafe_def lstrip_c0_def
  is_ascii_alpha_def is_scheme_char_def is_netloc_end_def netloc_passes_def
  unbalanced_brackets_def str_split_def getitem_def unquote_def is_hexdig_def hexval_def Let_def

lemma startswith_decompose: "startswith s p \<Longrightarrow> \<exists>r. s = p @ r"
  by (induction s p rule: startswith.induct) auto

lemma startswith_extend: "startswith xs p \<Longrightarrow> startswith (xs @ ys) p"
  by (induction xs p rule: startswith.induct) auto

lemma contains_nil: "contains s []"
  by (cases s) auto

lemma contains_extend: "contains s m \<Longrightarrow> contains (s @ t) m"
proof (induction s)
  case Nil
  then show ?case by (simp add: contains_nil)
next
  case (Cons a s)
  from Cons.prems have "startswith (a # s) m \<or> contains s m" by simp
  then show ?case
  proof
    assume "startswith (a # s) m"
    from startswith_extend [OF this, of t] show ?thesis by simp
  next
    assume "contains s m"
    with Cons.IH show ?thesis by simp
  qed
qed

lemma contains_single: "c \<notin> set s \<Longrightarrow> \<not> contains s [c]"
  by (induction s) auto

text \<open>
  The piece after the first separator ends at the next separator, or at the end of the
  string when there is none.
\<close>

lemma split_from_second:
  assumes "sep \<noteq> []"
    and "\<not> contains (pre @ butlast sep) sep"
    and "\<not> contains (mid @ butlast sep) sep"
    and "rest = [] \<or> startswith rest sep"
  shows "\<exists>more. split_from sep [] (pre @ sep @ mid @ rest) = pre # mid # more"
proof -
  have nm: "\<not> contains mid sep" using assms(3) contains_extend by blast
  have f: "split_from sep [] (pre @ sep @ mid @ rest) = pre # split_from sep [] (mid @ rest)"
    using split_from_first [OF assms(1) assms(2), of "[]" "mid @ rest"] by simp
  from assms(4) show ?thesis
  proof
    assume "rest = []"
    with f split_from_no_marker [OF assms(1) nm, of "[]"] show ?thesis by simp
  next
    assume "startswith rest sep"
    then obtain r where "rest = sep @ r" using startswith_decompose by blast
    with f split_from_first [OF assms(1) assms(3), of "[]" r] show ?thesis by simp
  qed
qed

lemma split_from_head_piece:
  assumes "sep \<noteq> []"
    and "\<not> contains (seg @ butlast sep) sep"
    and "tail = [] \<or> startswith tail sep"
  shows "\<exists>more. split_from sep [] (seg @ tail) = seg # more"
proof -
  have nm: "\<not> contains seg sep" using assms(2) contains_extend by blast
  from assms(3) show ?thesis
  proof
    assume "tail = []"
    with split_from_no_marker [OF assms(1) nm, of "[]"] show ?thesis by simp
  next
    assume "startswith tail sep"
    then obtain r where "tail = sep @ r" using startswith_decompose by blast
    with split_from_first [OF assms(1) assms(2), of "[]" r] show ?thesis by simp
  qed
qed

lemma get_abs_link_position:
  assumes "l \<noteq> []"
    and "urlsplit_path ok l = Inr (pre @ str ''RU='' @ mid @ rest)"
    and "\<not> contains (pre @ str ''RU'') (str ''RU='')"
    and "\<not> contains (mid @ str ''RU'') (str ''RU='')"
    and "rest = [] \<or> startswith rest (str ''RU='')"
    and "mid = seg @ tail"
    and "of_char (CHR ''/'') \<notin> set seg"
    and "tail = [] \<or> startswith tail (str ''/'')"
  shows "get_abs_link ok (Some l) = Inr (unquote seg)"
proof -
  have marker: "str ''RU='' \<noteq> []" and slash: "str ''/'' \<noteq> []" by (simp_all add: str_def)
  have bl: "butlast (str ''RU='') = str ''RU''" "butlast (str ''/'') = []"
    by (simp_all add: str_def)
  from split_from_second [OF marker, of pre mid rest] assms(3-5) obtain more where
    s1: "str_split (pre @ str ''RU='' @ mid @ rest) (str ''RU='') = pre # mid # more"
    by (auto simp: bl str_split_def)
  have "\<not> contains seg (str ''/'')"
    using contains_single [OF assms(7)] by (simp add: str_def)
  with split_from_head_piece [OF slash, of seg tail] assms(8) obtain more2 where
    s2: "str_split (seg @ tail) (str ''/'') = seg # more2"
    by (auto simp: bl str_split_def)
  have g1: "getitem (str_split (pre @ str ''RU='' @ mid @ rest) (str ''RU='')) 1 = Inr mid"
    unfolding s1 by (simp add: getitem_def)
  have g2: "getitem (str_split mid (str ''/'')) 0 = Inr seg"
    unfolding assms(6) s2 by (simp add: getitem_def)
  show ?thesis
    using assms(1) by (simp add: get_abs_link_def assms(2) g1 g2 del: One_nat_def)
qed

section \<open>get_abs_link\<close>

text \<open>
  C2, as the code has it. \<open>get_abs_link\<close> returns the empty string for \<open>None\<close> and for
  the empty string. For any other input it raises what \<open>urlsplit\<close> raises; it raises
  \<open>IndexError\<close> when the path of the URL does not contain the marker \<open>RU=\<close>; and
  when the path contains the marker it returns, percent-decoded, the text that follows
  the first marker of the path and ends at the next marker, at the next slash or at
  the end of the path, whichever comes first. So a URL without the marker does not give
  an empty or best-effort result: the call raises.
\<close>

theorem get_abs_link_outcomes:
  "get_abs_link ok None = Inr [] \<and> get_abs_link ok (Some []) = Inr [] \<and>
   (l \<noteq> [] \<longrightarrow> urlsplit_path ok l = Inl e \<longrightarrow> get_abs_link ok (Some l) = Inl e) \<and>
   (l \<noteq> [] \<longrightarrow> urlsplit_path ok l = Inr p \<longrightarrow> \<not> contains p (str ''RU='') \<longrightarrow>
      get_abs_link ok (Some l) = Inl IndexError) \<and>
   (l \<noteq> [] \<longrightarrow> urlsplit_path ok l = Inr p \<longrightarrow> contains p (str ''RU='') \<longrightarrow>
      (\<exists>after. getitem (str_split p (str ''RU='')) 1 = Inr after \<and>
         get_abs_link ok (Some l) = Inr (unquote (hd (str_split after (str ''/'')))))) \<and>
   (l \<noteq> [] \<longrightarrow> urlsplit_path ok l = Inr (pre @ str ''RU='' @ mid @ rest) \<longrightarrow>
      \<not> contains (pre @ str ''RU'') (str ''RU='') \<longrightarrow>
      \<not> contains (mid @ str ''RU'') (str ''RU='') \<longrightarrow>
      (rest = [] \<or> startswith rest (str ''RU='')) \<longrightarrow>
      mid = seg @ tail \<longrightarrow> of_char (CHR ''/'') \<notin> set seg \<longrightarrow>
      (tail = [] \<or> startswith tail (str ''/'')) \<longrightarrow>
      get_abs_link ok (Some l) = Inr (unquote seg))"
proof -
  have marker: "str ''RU='' \<noteq> []" by (simp add: str_def)
  have a: "get_abs_link ok None = Inr []" "get_abs_link ok (Some []) = Inr []"
    by (simp_all add: get_abs_link_def)
  have b: "get_abs_link ok (Some l) = Inl e" if "l \<noteq> []" "urlsplit_path ok l = Inl e"
    using that by (simp add: get_abs_link_def)
  have c: "get_abs_link ok (Some l) = Inl IndexError"
    if "l \<noteq> []" "urlsplit_path ok l = Inr p" "\<not> contains p (str ''RU='')"
    using that split_from_no_marker [OF marker, of p "[]"]
    by (simp add: get_abs_link_def str_split_def getitem_def)
  have d: "\<exists>after. getitem (str_split p (str ''RU='')) 1 = Inr after \<and>
         get_abs_link ok (Some l) = Inr (unquote (hd (str_split after (str ''/''))))"
    if "l \<noteq> []" "urlsplit_path ok l = Inr p" "contains p (str ''RU='')"
  proof -
    have two: "2 \<le> length (str_split p (str ''RU=''))"
      using split_from_two [OF marker that(3)] by (simp add: str_split_def)
    then have g: "getitem (str_split p (str ''RU='')) 1 = Inr (str_split p (str ''RU='') ! 1)"
      by (simp add: getitem_def)
    have ne: "str_split (str_split p (str ''RU='') ! 1) (str ''/'') \<noteq> []"
      by (simp add: str_split_def split_from_nonempty)
    then have "getitem (str_split (str_split p (str ''RU='') ! 1) (str ''/'')) 0
        = Inr (hd (str_split (str_split p (str ''RU='') ! 1) (str ''/'')))"
      by (simp add: getitem_def hd_conv_nth)
    with g that show ?thesis by (simp add: get_abs_link_def)
  qed
  note f = get_abs_link_position [of l ok pre mid rest seg tail]
  from a b c d f show ?thesis by blast
qed

theorem get_abs_link_outcomes_witness:
  "get_abs_link strict_netloc None = Inr [] \<and>
   get_abs_link strict_netloc (Some []) = Inr [] \<and>
   get_abs_link strict_netloc (Some (str ''http://[::1/RU=a/'')) = Inl ValueError \<and>
   get_abs_link strict_netloc (Some (str ''https://search.yahoo.com/search?p=RU=x''))
     = Inl IndexError \<and>
   get_abs_link strict_netloc (Some (str ''https://r.search.yahoo.com/RU=a%2Fb/RK=2''))
     = Inr (str ''a/b'') \<and>
   get_abs_link strict_netloc (Some (str ''http://h/RU=aRU=b/c'')) = Inr (str ''a'') \<and>
   get_abs_link strict_netloc (Some (str ''http://h/RU=abc'')) = Inr (str ''abc'')"
proof -
  note T = get_abs_link_outcomes [where ok = strict_netloc]
  have u1: "urlsplit_path strict_netloc (str ''http://[::1/RU=a/'') = Inl ValueError"
    by (simp add: url_eval)
  have u2: "urlsplit_path strict_netloc (str ''https://search.yahoo.com/search?p=RU=x'')
      = Inr (str ''/search'')"
    by (simp add: url_eval)
  have n2: "\<not> contains (str ''/search'') (str ''RU='')" by (simp add: str_def)
  have u3: "urlsplit_path strict_netloc (str ''https://r.search.yahoo.com/RU=a%2Fb/RK=2'')
      = Inr (str ''/'' @ str ''RU='' @ (str ''a%2Fb'' @ str ''/RK=2'') @ [])"
    by (simp add: url_eval)
  have u4: "urlsplit_path strict_netloc (str ''http://h/RU=aRU=b/c'')
      = Inr (str ''/'' @ str ''RU='' @ (str ''a'' @ []) @ str ''RU=b/c'')"
    by (simp add: url_eval)
  have u5: "urlsplit_path strict_netloc (str ''http://h/RU=abc'')
      = Inr (str ''/'' @ str ''RU='' @ (str ''abc'' @ []) @ [])"
    by (simp add: url_eval)
  have e1: "str ''http://[::1/RU=a/'' \<noteq> []"
    "str ''https://search.yahoo.com/search?p=RU=x'' \<noteq> []"
    "str ''https://r.search.yahoo.com/RU=a%2Fb/RK=2'' \<noteq> []"
    "str ''http://h/RU=aRU=b/c'' \<noteq> []" "str ''http://h/RU=abc'' \<noteq> []"
    by (simp_all add: str_def)
  have pre: "\<not> contains (str ''/'' @ str ''RU'') (str ''RU='')" by (simp add: str_def)
  have q: "unquote (str ''a%2Fb'') = str ''a/b''" "unquote (str ''a'') = str ''a''"
    "unquote (str ''abc'') = str ''abc''"
    by (simp_all add: str_def unquote_def is_hexdig_def hexval_def)
  from T [where l = "str ''http://[::1/RU=a/''" and e = ValueError] u1 e1
  have r1: "get_abs_link strict_netloc (Some (str ''http://[::1/RU=a/'')) = Inl ValueError"
    by blast
  from T [where l = "str ''https://search.yahoo.com/search?p=RU=x''" and p = "str ''/search''"]
    u2 n2 e1
  have r2: "get_abs_link strict_netloc (Some (str ''https://search.yahoo.com/search?p=RU=x''))
      = Inl IndexError"
    by blast
  have r3: "get_abs_link strict_netloc
       (Some (str ''https://r.search.yahoo.com/RU=a%2Fb/RK=2'')) = Inr (str ''a/b'')"
  proof -
    have m: "\<not> contains ((str ''a%2Fb'' @ str ''/RK=2'') @ str ''RU'') (str ''RU='')"
      and s: "of_char (CHR ''/'') \<notin> set (str ''a%2Fb'')"
      and t: "startswith (str ''/RK=2'') (str ''/'')"
      by (simp_all add: str_def)
    from T [where l = "str ''https://r.search.yahoo.com/RU=a%2Fb/RK=2''" and pre = "str ''/''"
        and mid = "str ''a%2Fb'' @ str ''/RK=2''" and rest = "[]" and seg = "str ''a%2Fb''"
        and tail = "str ''/RK=2''"] u3 e1 pre m s t
    have "get_abs_link strict_netloc (Some (str ''https://r.search.yahoo.com/RU=a%2Fb/RK=2''))
        = Inr (unquote (str ''a%2Fb''))" by blast
    then show ?thesis by (simp add: q)
  qed
  have r4: "get_abs_link strict_netloc (Some (str ''http://h/RU=aRU=b/c'')) = Inr (str ''a'')"
  proof -
    have m: "\<not> contains ((str ''a'' @ []) @ str ''RU'') (str ''RU='')"
      and s: "of_char (CHR ''/'') \<notin> set (str ''a'')"
      and t: "startswith (str ''RU=b/c'') (str ''RU='')"
      by (simp_all add: str_def)
    from T [where l = "str ''http://h/RU=aRU=b/c''" and pre = "str ''/''"
        and mid = "str ''a'' @ []" and rest = "str ''RU=b/c''" and seg = "str ''a''"
        and tail = "[]"] u4 e1 pre m s t
    have "get_abs_link strict_netloc (Some (str ''http://h/RU=aRU=b/c''))
        = Inr (unquote (str ''a''))" by blast
    then show ?thesis by (simp add: q)
  qed
  have r5: "get_abs_link strict_netloc (Some (str ''http://h/RU=abc'')) = Inr (str ''abc'')"
  proof -
    have m: "\<not> contains ((str ''abc'' @ []) @ str ''RU'') (str ''RU='')"
      and s: "of_char (CHR ''/'') \<notin> set (str ''abc'')"
      by (simp_all add: str_def)
    from T [where l = "str ''http://h/RU=abc''" and pre = "str ''/''"
        and mid = "str ''abc'' @ []" and rest = "[]" and seg = "str ''abc''"
        and tail = "[]"] u5 e1 pre m s
    have "get_abs_link strict_netloc (Some (str ''http://h/RU=abc''))
        = Inr (unquote (str ''abc''))" by blast
    then show ?thesis by (simp add: q)
  qed
  from T r1 r2 r3 r4 r5 show ?thesis by blast
qed

text \<open>A URL whose path has no marker: the call raises \<open>IndexError\<close>.\<close>

theorem get_abs_link_raises_counterexample:
  "get_abs_link strict_netloc (Some (str ''https://example.com/page'')) = Inl IndexError"
  by (simp add: url_eval)

text \<open>
  C3, as the code has it. For a URL whose path holds
  \<open>RU=https%3A%2F%2Fexample.com%2Fabc/\<close> as its first marker, \<open>get_abs_link\<close> returns
  \<open>https://example.com/abc\<close>: the text between the marker and the next slash of the
  path, percent-decoded as a whole. The encoded slash \<open>%2F\<close> does not end it.
\<close>

theorem get_abs_link_first_segment:
  assumes "url \<noteq> []"
    and "urlsplit_path ok url = Inr (pre @ str ''RU=https%3A%2F%2Fexample.com%2Fabc/'' @ post)"
    and "\<not> contains (pre @ str ''RU'') (str ''RU='')"
  shows "get_abs_link ok (Some url) = Inr (str ''https://example.com/abc'')"
proof -
  let ?seg = "str ''https%3A%2F%2Fexample.com%2Fabc''"
  have marker: "str ''RU='' \<noteq> []" and slash: "str ''/'' \<noteq> []" by (simp_all add: str_def)
  have path: "pre @ str ''RU=https%3A%2F%2Fexample.com%2Fabc/'' @ post
      = pre @ str ''RU='' @ ((?seg @ str ''/'') @ post)"
    by (simp add: str_def)
  have bl: "butlast (str ''RU='') = str ''RU''" by (simp add: str_def)
  have s1: "str_split (pre @ str ''RU='' @ ((?seg @ str ''/'') @ post)) (str ''RU='')
      = pre # split_from (str ''RU='') [] ((?seg @ str ''/'') @ post)"
    using split_from_first [OF marker, of pre "[]"] assms(3) by (simp add: str_split_def bl)
  have mk: "str ''RU='' = 82 # str ''U=''" by (simp add: str_def)
  have noR: "82 \<notin> set (?seg @ str ''/'')" by (simp add: str_def)
  have "split_from (str ''RU='') [] ((?seg @ str ''/'') @ post)
      = split_from (str ''RU='') ([] @ (?seg @ str ''/'')) post"
    by (rule split_from_skip [OF mk noR])
  moreover obtain s' more where
    "split_from (str ''RU='') ([] @ (?seg @ str ''/'')) post
       = (([] @ (?seg @ str ''/'')) @ s') # more"
    using split_from_hd by blast
  ultimately have s1': "split_from (str ''RU='') [] ((?seg @ str ''/'') @ post)
      = (?seg @ str ''/'' @ s') # more" by simp
  have nc: "\<not> contains (?seg @ butlast (str ''/'')) (str ''/'')" by (simp add: str_def)
  have s2: "str_split (?seg @ str ''/'' @ s') (str ''/'') = ?seg # split_from (str ''/'') [] s'"
    using split_from_first [OF slash nc, of "[]" s'] by (simp add: str_split_def)
  have uq: "unquote ?seg = str ''https://example.com/abc''"
    by (simp add: str_def unquote_def is_hexdig_def hexval_def)
  have g1: "getitem
      (str_split (pre @ str ''RU=https%3A%2F%2Fexample.com%2Fabc/'' @ post) (str ''RU='')) 1
      = Inr (?seg @ str ''/'' @ s')"
    unfolding path s1 s1' by (simp add: getitem_def)
  have g2: "getitem (str_split (?seg @ str ''/'' @ s') (str ''/'')) 0 = Inr ?seg"
    unfolding s2 by (simp add: getitem_def)
  show ?thesis
    using assms(1) by (simp add: get_abs_link_def assms(2) g1 g2 uq del: One_nat_def)
qed

theorem get_abs_link_first_segment_witness:
  "get_abs_link strict_netloc
     (Some (str ''https://r.search.yahoo.com/_ylt=Awr/RV=2/RE=1700000000/RO=10/RU=https%3A%2F%2Fexample.com%2Fabc/RK=2/RS=abc-''))
   = Inr (str ''https://example.com/abc'')"
proof -
  let ?url = "str ''https://r.search.yahoo.com/_ylt=Awr/RV=2/RE=1700000000/RO=10/RU=https%3A%2F%2Fexample.com%2Fabc/RK=2/RS=abc-''"
  have ne: "?url \<noteq> []" by (simp add: str_def)
  have p: "urlsplit_path strict_netloc ?url
     = Inr (str ''/_ylt=Awr/RV=2/RE=1700000000/RO=10/''
            @ str ''RU=https%3A%2F%2Fexample.com%2Fabc/'' @ str ''RK=2/RS=abc-'')"
    by (simp add: url_eval)
  have nc: "\<not> contains (str ''/_ylt=Awr/RV=2/RE=1700000000/RO=10/'' @ str ''RU'') (str ''RU='')"
    by (simp add: str_def)
  show ?thesis by (rule get_abs_link_first_segment [OF ne p nc])
qed

text \<open>On such a URL the result is not \<open>https://example.com\<close>.\<close>

theorem get_abs_link_example_counterexample:
  "get_abs_link strict_netloc
     (Some (str ''https://r.search.yahoo.com/RU=https%3A%2F%2Fexample.com%2Fabc/RK=2/RS=abc-''))
   = Inr (str ''https://example.com/abc'') \<and>
   str ''https://example.com/abc'' \<noteq> str ''https://example.com''"
  by (simp add: url_eval)

section \<open>autocomplete\<close>

text \<open>
  C4, as the code has it. \<open>autocomplete\<close> returns the second element of the JSON array
  of the response body as it is. For the body \<open>["original", ["sug1", "sug2"]]\<close> that is
  the list \<open>["sug1", "sug2"]\<close>; for the flat body \<open>["original", "sug1", "sug2"]\<close> it is
  the string \<open>"sug1"\<close>.
\<close>

theorem autocomplete_second_element:
  assumes "client_get E (str ''https://ff.search.yahoo.com/gossip?output=fxjson&query=''
                          @ quote_plus E query) headers = Inr res"
    and "res_json res = Inr (PList xs)"
    and "2 \<le> length xs"
  shows "autocomplete E query = Inr (xs ! 1)"
  using assms by (simp add: autocomplete_def getitem_def)

theorem autocomplete_second_element_witness:
  "autocomplete
     (suggest_response
        (PList [PStr (str ''original''), PList [PStr (str ''sug1''), PStr (str ''sug2'')]]))
     (str ''orig'')
   = Inr (PList [PStr (str ''sug1''), PStr (str ''sug2'')])"
proof -
  let ?xs = "[PStr (str ''original''), PList [PStr (str ''sug1''), PStr (str ''sug2'')]]"
  let ?res = "\<lparr>status_code = 200, res_text = [], res_json = Inr (PList ?xs)\<rparr>"
  have g: "client_get (suggest_response (PList ?xs))
       (str ''https://ff.search.yahoo.com/gossip?output=fxjson&query=''
        @ quote_plus (suggest_response (PList ?xs)) (str ''orig'')) headers = Inr ?res"
    by (simp add: suggest_response_def page_env_def)
  have j: "res_json ?res = Inr (PList ?xs)" by simp
  have l: "2 \<le> length ?xs" by simp
  from autocomplete_second_element [OF g j l] show ?thesis by simp
qed

text \<open>The flat array of the example gives a string, not the list of suggestions.\<close>

theorem autocomplete_flat_array_counterexample:
  "autocomplete
     (suggest_response (PList [PStr (str ''original''), PStr (str ''sug1''), PStr (str ''sug2'')]))
     (str ''orig'')
   = Inr (PStr (str ''sug1'')) \<and>
   PStr (str ''sug1'') \<noteq> PList [PStr (str ''sug1''), PStr (str ''sug2'')]"
  by (simp add: autocomplete_def suggest_response_def page_env_def getitem_def)

section \<open>The assertions of search_videos and search\<close>

text \<open>
  C8, as the code has it. On a page with no video item \<open>search_videos\<close> raises an
  \<open>AssertionError\<close> with the message \<open>Couldn't find any results for '#search li.vr.vres'\<close>.
  \<open>search\<close> on a page without the results container raises an \<open>AssertionError\<close> too,
  with another message. The two failures are of the same kind and differ in the message
  only.
\<close>

theorem empty_videos_assertion:
  assumes "client_get E (str ''https://sg.video.search.yahoo.com/search?q='' @ quote_plus E q)
             headers = Inr res"
    and "raise_for_status res = Inr ()"
    and "Parser E (res_text res) = (d, parser)"
    and "css E d parser ''#search li.vr.vres'' = []"
    and "client_get E' (str ''https://sg.search.yahoo.com/search?q='' @ quote_plus E' q')
           headers = Inr res'"
    and "raise_for_status res' = Inr ()"
    and "Parser E' (res_text res') = (d', parser')"
    and "css E' d' parser' ''.reg.searchCenterMiddle'' = []"
  shows "search_videos E q = Inl (AssertionError videos_empty_message)
       \<and> search E' q' = Inl (AssertionError search_missing_message)
       \<and> videos_empty_message \<noteq> search_missing_message
       \<and> kind_of (AssertionError videos_empty_message)
           = kind_of (AssertionError search_missing_message)"
proof -
  have v: "search_videos E q = Inl (AssertionError videos_empty_message)"
    using assms(1-4)
    by (simp add: search_videos_def tabs_get_videos videos_parse_def)
  have s: "search E' q' = Inl (AssertionError search_missing_message)"
    using assms(5-8)
    by (simp add: search_def search_parse_def css_first_def)
  have m: "videos_empty_message \<noteq> search_missing_message"
    by (simp add: videos_empty_message_def search_missing_message_def)
  from v s m show ?thesis by simp
qed

theorem empty_videos_assertion_witness:
  "search_videos empty_page (str ''cats'') = Inl (AssertionError videos_empty_message)
   \<and> search empty_page (str ''cats'') = Inl (AssertionError search_missing_message)
   \<and> videos_empty_message \<noteq> search_missing_message
   \<and> kind_of (AssertionError videos_empty_message)
       = kind_of (AssertionError search_missing_message)"
proof -
  let ?res = "\<lparr>status_code = 200, res_text = [], res_json = Inl JSONDecodeError\<rparr>"
  have a1: "client_get empty_page
      (str ''https://sg.video.search.yahoo.com/search?q='' @ quote_plus empty_page (str ''cats''))
      headers = Inr ?res"
    by (simp add: empty_page_def page_env_def)
  have a2: "raise_for_status ?res = Inr ()" by (simp add: raise_for_status_def)
  have a3: "Parser empty_page (res_text ?res) = (0, 0)"
    by (simp add: empty_page_def page_env_def)
  have a4: "css empty_page 0 0 ''#search li.vr.vres'' = []"
    by (simp add: empty_page_def page_env_def)
  have a5: "client_get empty_page
      (str ''https://sg.search.yahoo.com/search?q='' @ quote_plus empty_page (str ''cats''))
      headers = Inr ?res"
    by (simp add: empty_page_def page_env_def)
  have a8: "css empty_page 0 0 ''.reg.searchCenterMiddle'' = []"
    by (simp add: empty_page_def page_env_def)
  show ?thesis by (rule empty_videos_assertion [OF a1 a2 a3 a4 a5 a2 a3 a8])
qed

text \<open>
  The error of \<open>search_videos\<close> on the empty page and the error of \<open>search\<close> on it have
  the same kind.
\<close>

theorem same_kind_counterexample:
  "map_sum kind_of id (search_videos empty_page (str ''cats'')) = Inl KAssertionError
   \<and> map_sum kind_of id (search empty_page (str ''cats'')) = Inl KAssertionError"
  by (simp add: search_videos_def tabs_get_videos videos_parse_def
      search_def search_parse_def css_first_def
      empty_page_def page_env_def raise_for_status_def)

section \<open>Dictionaries and validation: basic facts\<close>

lemma str_inj: "str a = str b \<longleftrightarrow> a = b"
  by (simp add: str_def inj_map_eq_map inj_def)

lemma map_of_dict_set:
  "map_of (dict_set k v d) (str k') = (if k = k' then Some v else map_of d (str k'))"
  by (simp add: dict_set_def update_conv' str_inj)

lemma validate_list_elem:
  "validate_list f xs = Inr ys \<Longrightarrow> y \<in> set ys \<Longrightarrow> \<exists>x \<in> set xs. f x = Inr y"
  by (induction xs arbitrary: ys) (auto simp: bind_err_Inr)

lemma validate_list_fail:
  "x \<in> set xs \<Longrightarrow> f x = Inl e \<Longrightarrow> \<exists>e'. validate_list f xs = Inl e'"
proof (induction xs)
  case Nil
  then show ?case by simp
next
  case (Cons a xs)
  show ?case
  proof (cases "f a")
    case (Inl e1)
    then show ?thesis by simp
  next
    case (Inr y)
    with Cons obtain e' where "validate_list f xs = Inl e'" by auto
    with Inr show ?thesis by simp
  qed
qed

lemma attr_Inr: "attr E d n k = Inr v \<longleftrightarrow> attributes E d n k = Some v"
  by (simp add: attr_def split: option.splits)

section \<open>search\<close>

lemma validate_card_empty:
  "validate_CardResult (PDict []) =
     Inr \<lparr>card_image = None, card_heading = None, card_text = None, card_source = None\<rparr>"
  by (simp add: validate_CardResult_def opt_str_def)

lemma validate_SearchResult_card:
  assumes "validate_SearchResult
            [(str ''also_try'', at), (str ''pages'', ps), (str ''card'', PDict cd),
             (str ''related_searches'', rs)] = Inr r"
  shows "\<exists>c. validate_CardResult (PDict cd) = Inr c \<and> card_result r = Some c"
  using assms
  by (auto simp: validate_SearchResult_def bind_err_Inr str_inj)

lemma validate_SearchResult_lists:
  assumes "validate_SearchResult
            [(str ''also_try'', PList at), (str ''pages'', PList ps), (str ''card'', c),
             (str ''related_searches'', PList rs)] = Inr r"
  shows "validate_list validate_AlsoTryItem at = Inr (also_try r)"
    and "validate_list validate_PageResult ps = Inr (pages r)"
    and "validate_list validate_RelatedSearch rs = Inr (related_searches r)"
  using assms
  by (auto simp: validate_SearchResult_def validate_list_field_def bind_err_Inr str_inj)

lemma validate_PageResult_link:
  "validate_PageResult v = Inr p \<Longrightarrow>
   \<exists>pr. v = PDict pr \<and> map_of pr (str ''link'') = Some (PStr (page_link p))"
  by (auto simp: validate_PageResult_def req_str_def bind_err_Inr
      split: pyval.splits option.splits)

lemma validate_AlsoTryItem_link:
  "validate_AlsoTryItem v = Inr a \<Longrightarrow>
   \<exists>al. v = PDict al \<and> map_of al (str ''link'') = Some (PStr (ati_link a))"
  by (auto simp: validate_AlsoTryItem_def req_str_def bind_err_Inr
      split: pyval.splits option.splits)

lemma validate_RelatedSearch_link:
  "validate_RelatedSearch v = Inr a \<Longrightarrow>
   \<exists>al. v = PDict al \<and> map_of al (str ''link'') = Some (PStr (related_link a))"
  by (auto simp: validate_RelatedSearch_def req_str_def bind_err_Inr
      split: pyval.splits option.splits)

lemma search_texts_link:
  "search_texts E d pr ns = (d', pr') \<Longrightarrow> map_of pr' (str ''link'') = map_of pr (str ''link'')"
  by (induction ns arbitrary: d pr) (auto simp: Let_def map_of_dict_set)

lemma validate_list_all2:
  "validate_list f xs = Inr ys \<Longrightarrow> list_all2 (\<lambda>x y. f x = Inr y) xs ys"
  by (induction xs arbitrary: ys) (auto simp: bind_err_Inr)

lemma search_titles_last:
  assumes "search_titles E d pr (ns @ [a]) = Inr pr'"
  shows "\<exists>h l. attributes E d a ''href'' = Some h \<and> get_abs_link (netloc_ok E) h = Inr l
           \<and> map_of pr' (str ''link'') = Some (PStr l)"
  using assms
proof (induction ns arbitrary: pr)
  case Nil
  then show ?case by (auto simp: bind_err_Inr attr_Inr map_of_dict_set)
next
  case (Cons title rest)
  from Cons.prems obtain pr1 where "search_titles E d pr1 (rest @ [a]) = Inr pr'"
    by (auto simp: bind_err_Inr)
  from Cons.IH [OF this] show ?case .
qed

lemma search_webpages_append:
  "search_webpages E d ps (xs @ ys) =
     bind_err (search_webpages E d ps xs) (\<lambda>(d', ps'). search_webpages E d' ps' ys)"
proof (induction xs arbitrary: d ps)
  case Nil
  show ?case by simp
next
  case (Cons w rest)
  show ?case
  proof (cases "search_titles E d [] (css E d w ''div.compTitle h3 a'')")
    case (Inl e)
    then show ?thesis by simp
  next
    case (Inr r1)
    then show ?thesis
      by (cases "search_texts E d r1 (css E d w ''.compText.aAbs p'')") (simp add: Cons.IH)
  qed
qed

lemma search_webpages_length:
  "search_webpages E d ps ws = Inr (d', ps') \<Longrightarrow>
   \<exists>new. ps' = ps @ new \<and> length new = length ws"
proof (induction ws arbitrary: d ps)
  case Nil
  then show ?case by simp
next
  case (Cons w rest)
  from Cons.prems obtain r1 where
    c: "(case search_texts E d r1 (css E d w ''.compText.aAbs p'') of
               (d1, r2) \<Rightarrow> search_webpages E d1 (ps @ [PDict r2]) rest) = Inr (d', ps')"
    by (auto simp: bind_err_Inr)
  obtain d1 r2 where
    x: "search_texts E d r1 (css E d w ''.compText.aAbs p'') = (d1, r2)"
    by (cases "search_texts E d r1 (css E d w ''.compText.aAbs p'')")
  with c have "search_webpages E d1 (ps @ [PDict r2]) rest = Inr (d', ps')" by simp
  from Cons.IH [OF this] obtain new where
    "ps' = (ps @ [PDict r2]) @ new" "length new = length rest" by blast
  then have "ps' = ps @ (PDict r2 # new) \<and> length (PDict r2 # new) = length (w # rest)"
    by simp
  then show ?case by blast
qed

lemma search_webpages_head:
  assumes "search_webpages E d ps (w # rest) = Inr (d', ps')"
    and "css E d w ''div.compTitle h3 a'' \<noteq> []"
  shows "\<exists>pr h l. ps' ! length ps = PDict pr
      \<and> attributes E d (last (css E d w ''div.compTitle h3 a'')) ''href'' = Some h
      \<and> get_abs_link (netloc_ok E) h = Inr l
      \<and> map_of pr (str ''link'') = Some (PStr l)"
proof -
  from assms(1) obtain r1 where
    t: "search_titles E d [] (css E d w ''div.compTitle h3 a'') = Inr r1"
    and c: "(case search_texts E d r1 (css E d w ''.compText.aAbs p'') of
               (d1, r2) \<Rightarrow> search_webpages E d1 (ps @ [PDict r2]) rest) = Inr (d', ps')"
    by (auto simp: bind_err_Inr)
  obtain d1 r2 where
    x: "search_texts E d r1 (css E d w ''.compText.aAbs p'') = (d1, r2)"
    by (cases "search_texts E d r1 (css E d w ''.compText.aAbs p'')")
  with c have "search_webpages E d1 (ps @ [PDict r2]) rest = Inr (d', ps')" by simp
  from search_webpages_length [OF this] obtain new where
    "ps' = (ps @ [PDict r2]) @ new" by blast
  then have n: "ps' ! length ps = PDict r2" by (simp add: nth_append)
  from assms(2) have
    "css E d w ''div.compTitle h3 a'' =
       butlast (css E d w ''div.compTitle h3 a'') @ [last (css E d w ''div.compTitle h3 a'')]"
    by simp
  with t have "search_titles E d []
      (butlast (css E d w ''div.compTitle h3 a'') @ [last (css E d w ''div.compTitle h3 a'')])
      = Inr r1" by simp
  from search_titles_last [OF this] obtain h l where
    hl: "attributes E d (last (css E d w ''div.compTitle h3 a'')) ''href'' = Some h"
      "get_abs_link (netloc_ok E) h = Inr l"
      "map_of r1 (str ''link'') = Some (PStr l)" by blast
  from search_texts_link [OF x] hl(3) have "map_of r2 (str ''link'') = Some (PStr l)" by simp
  with n hl(1,2) show ?thesis by blast
qed

lemma search_webpages_no_heading:
  assumes "search_webpages E d ps (w # rest) = Inr (d', ps')"
    and "css E d w ''div.compTitle h3 a'' = []"
  shows "\<exists>pr. ps' ! length ps = PDict pr \<and> map_of pr (str ''link'') = None"
proof -
  from assms have
    c: "(case search_texts E d [] (css E d w ''.compText.aAbs p'') of
               (d1, r2) \<Rightarrow> search_webpages E d1 (ps @ [PDict r2]) rest) = Inr (d', ps')"
    by simp
  obtain d1 r2 where
    x: "search_texts E d [] (css E d w ''.compText.aAbs p'') = (d1, r2)"
    by (cases "search_texts E d [] (css E d w ''.compText.aAbs p'')")
  with c have "search_webpages E d1 (ps @ [PDict r2]) rest = Inr (d', ps')" by simp
  from search_webpages_length [OF this] obtain new where
    "ps' = (ps @ [PDict r2]) @ new" by blast
  then have n: "ps' ! length ps = PDict r2" by (simp add: nth_append)
  from search_texts_link [OF x] have "map_of r2 (str ''link'') = None" by simp
  with n show ?thesis by blast
qed

lemma search_webpages_nth:
  assumes "search_webpages E d [] ws = Inr (d', ps)"
    and "i < length ws"
  shows "\<exists>di psi. search_webpages E d [] (take i ws) = Inr (di, psi)
      \<and> length psi = i
      \<and> search_webpages E di psi (ws ! i # drop (Suc i) ws) = Inr (d', ps)"
proof -
  from assms(2) have "ws = take i ws @ (ws ! i # drop (Suc i) ws)"
    by (simp add: id_take_nth_drop)
  with assms(1) have
    "search_webpages E d [] (take i ws @ (ws ! i # drop (Suc i) ws)) = Inr (d', ps)" by simp
  then obtain di psi where
    a: "search_webpages E d [] (take i ws) = Inr (di, psi)"
    and b: "search_webpages E di psi (ws ! i # drop (Suc i) ws) = Inr (d', ps)"
    unfolding search_webpages_append by (auto simp: bind_err_Inr)
  from search_webpages_length [OF a] assms(2) have "length psi = i" by auto
  with a b show ?thesis by blast
qed

lemma search_webpages_page_link:
  assumes w: "search_webpages E d [] ws = Inr (d', ps)"
    and i: "i < length ws"
    and v: "validate_PageResult (ps ! i) = Inr x"
  shows "\<exists>di psi h. search_webpages E d [] (take i ws) = Inr (di, psi)
      \<and> css E di (ws ! i) ''div.compTitle h3 a'' \<noteq> []
      \<and> attributes E di (last (css E di (ws ! i) ''div.compTitle h3 a'')) ''href'' = Some h
      \<and> get_abs_link (netloc_ok E) h = Inr (page_link x)"
proof -
  from search_webpages_nth [OF w i] obtain di psi where
    a: "search_webpages E d [] (take i ws) = Inr (di, psi)"
    and l: "length psi = i"
    and b: "search_webpages E di psi (ws ! i # drop (Suc i) ws) = Inr (d', ps)" by blast
  from validate_PageResult_link [OF v] obtain pr where
    pr: "ps ! i = PDict pr" "map_of pr (str ''link'') = Some (PStr (page_link x))" by blast
  have ne: "css E di (ws ! i) ''div.compTitle h3 a'' \<noteq> []"
  proof
    assume "css E di (ws ! i) ''div.compTitle h3 a'' = []"
    from search_webpages_no_heading [OF b this] l pr show False by auto
  qed
  from search_webpages_head [OF b ne] l pr obtain h where
    "attributes E di (last (css E di (ws ! i) ''div.compTitle h3 a'')) ''href'' = Some h"
    "get_abs_link (netloc_ok E) h = Inr (page_link x)" by auto
  with a ne show ?thesis by blast
qed

lemma search_also_try_items:
  "search_also_try E d acc items = Inr acc' \<Longrightarrow>
   \<exists>new. acc' = acc @ new
     \<and> list_all2 (\<lambda>n v. \<exists>href. attributes E d n ''href'' = Some href
          \<and> v = PDict [(str ''link'', opt_val href), (str ''text'', PStr (node_text E d n))])
        items new"
proof (induction items arbitrary: acc)
  case Nil
  then show ?case by simp
next
  case (Cons item rest)
  from Cons.prems obtain href where
    a: "attributes E d item ''href'' = Some href"
    and r: "search_also_try E d
       (acc @ [PDict [(str ''link'', opt_val href), (str ''text'', PStr (node_text E d item))]])
       rest = Inr acc'"
    by (auto simp: bind_err_Inr attr_Inr)
  from Cons.IH [OF r] obtain new where
    n: "acc' = (acc @ [PDict [(str ''link'', opt_val href),
                              (str ''text'', PStr (node_text E d item))]]) @ new"
    and l: "list_all2 (\<lambda>n v. \<exists>href. attributes E d n ''href'' = Some href
          \<and> v = PDict [(str ''link'', opt_val href), (str ''text'', PStr (node_text E d n))])
        rest new" by blast
  let ?v = "PDict [(str ''link'', opt_val href), (str ''text'', PStr (node_text E d item))]"
  from n have "acc' = acc @ (?v # new)" by simp
  moreover from a l have "list_all2 (\<lambda>n v. \<exists>href. attributes E d n ''href'' = Some href
          \<and> v = PDict [(str ''link'', opt_val href), (str ''text'', PStr (node_text E d n))])
        (item # rest) (?v # new)" by simp
  ultimately show ?case by blast
qed

lemma opt_val_PStr: "opt_val h = PStr l \<longleftrightarrow> h = Some l"
  by (simp add: opt_val_def split: option.splits)

lemma also_try_item_link:
  assumes "attributes E d n ''href'' = Some href"
    and "validate_AlsoTryItem
           (PDict [(str ''link'', opt_val href), (str ''text'', PStr t)]) = Inr x"
  shows "attributes E d n ''href'' = Some (Some (ati_link x))"
proof -
  from validate_AlsoTryItem_link [OF assms(2)]
  have "opt_val href = PStr (ati_link x)" by (auto simp: str_inj)
  with assms(1) show ?thesis by (simp add: opt_val_PStr)
qed

lemma related_item_link:
  assumes "attributes E d n ''href'' = Some href"
    and "validate_RelatedSearch
           (PDict [(str ''link'', opt_val href), (str ''text'', PStr t)]) = Inr x"
  shows "attributes E d n ''href'' = Some (Some (related_link x))"
proof -
  from validate_RelatedSearch_link [OF assms(2)]
  have "opt_val href = PStr (related_link x)" by (auto simp: str_inj)
  with assms(1) show ?thesis by (simp add: opt_val_PStr)
qed

lemma search_related_append:
  "search_related E d acc (xs @ ys) =
     bind_err (search_related E d acc xs) (\<lambda>(d', acc'). search_related E d' acc' ys)"
proof (induction xs arbitrary: d acc)
  case Nil
  show ?case by simp
next
  case (Cons item rest)
  show ?case
    by (cases "attr E (unwrap_tags E d item MD_TAGS) item ''href''")
       (simp_all add: Let_def Cons.IH)
qed

lemma search_related_length:
  "search_related E d acc items = Inr (d', acc') \<Longrightarrow>
   \<exists>new. acc' = acc @ new \<and> length new = length items"
proof (induction items arbitrary: d acc)
  case Nil
  then show ?case by simp
next
  case (Cons item rest)
  let ?d = "unwrap_tags E d item MD_TAGS"
  from Cons.prems obtain href where
    r: "search_related E ?d
       (acc @ [PDict [(str ''link'', opt_val href), (str ''text'', PStr (text_deep E ?d item))]])
       rest = Inr (d', acc')"
    by (auto simp: bind_err_Inr Let_def)
  let ?v = "PDict [(str ''link'', opt_val href), (str ''text'', PStr (text_deep E ?d item))]"
  from Cons.IH [OF r] obtain new where
    "acc' = (acc @ [?v]) @ new" "length new = length rest" by blast
  then have "acc' = acc @ (?v # new) \<and> length (?v # new) = length (item # rest)" by simp
  then show ?case by blast
qed

lemma search_related_head:
  assumes "search_related E d acc (item # rest) = Inr (d', acc')"
  shows "\<exists>href t. attributes E (unwrap_tags E d item MD_TAGS) item ''href'' = Some href
      \<and> acc' ! length acc = PDict [(str ''link'', opt_val href), (str ''text'', PStr t)]"
proof -
  let ?d = "unwrap_tags E d item MD_TAGS"
  from assms obtain href where
    a: "attributes E ?d item ''href'' = Some href"
    and r: "search_related E ?d
       (acc @ [PDict [(str ''link'', opt_val href), (str ''text'', PStr (text_deep E ?d item))]])
       rest = Inr (d', acc')"
    by (auto simp: bind_err_Inr attr_Inr Let_def)
  let ?v = "PDict [(str ''link'', opt_val href), (str ''text'', PStr (text_deep E ?d item))]"
  from search_related_length [OF r] obtain new where "acc' = (acc @ [?v]) @ new" by blast
  then have "acc' ! length acc = ?v" by (simp add: nth_append)
  with a show ?thesis by blast
qed

lemma search_related_nth:
  assumes s: "search_related E d [] items = Inr (d', rs)"
    and j: "j < length items"
    and v: "validate_RelatedSearch (rs ! j) = Inr x"
  shows "\<exists>dj accj. search_related E d [] (take j items) = Inr (dj, accj)
      \<and> attributes E (unwrap_tags E dj (items ! j) MD_TAGS) (items ! j) ''href''
          = Some (Some (related_link x))"
proof -
  from j have "items = take j items @ (items ! j # drop (Suc j) items)"
    by (simp add: id_take_nth_drop)
  with s have
    "search_related E d [] (take j items @ (items ! j # drop (Suc j) items)) = Inr (d', rs)"
    by simp
  then obtain dj accj where
    a: "search_related E d [] (take j items) = Inr (dj, accj)"
    and b: "search_related E dj accj (items ! j # drop (Suc j) items) = Inr (d', rs)"
    unfolding search_related_append by (auto simp: bind_err_Inr)
  from search_related_length [OF a] j have l: "length accj = j" by auto
  from search_related_head [OF b] l obtain href t where
    h: "attributes E (unwrap_tags E dj (items ! j) MD_TAGS) (items ! j) ''href'' = Some href"
    and n: "rs ! j = PDict [(str ''link'', opt_val href), (str ''text'', PStr t)]" by auto
  from v n have "validate_RelatedSearch
           (PDict [(str ''link'', opt_val href), (str ''text'', PStr t)]) = Inr x" by simp
  from related_item_link [OF h this] a show ?thesis by blast
qed

lemma search_parse_steps:
  assumes "search_parse E d parser = Inr r"
  shows "\<exists>node d1 ps d2 cd at d3 rs.
      css_first E d parser ''.reg.searchCenterMiddle'' = Some node
    \<and> search_webpages E d [] (css E d node ''.dd.algo.algo-sr'') = Inr (d1, ps)
    \<and> search_card E d1 parser = Inr (d2, cd)
    \<and> search_also_try E d2 []
        (css E d2 parser ''ol.cardReg.searchTop .compDlink li span a'') = Inr at
    \<and> search_related E d2 []
        (css E d2 parser ''ol.scf.reg.searchCenterFooter tbody tr td a'') = Inr (d3, rs)
    \<and> validate_SearchResult
        [(str ''also_try'', PList at), (str ''pages'', PList ps), (str ''card'', PDict cd),
         (str ''related_searches'', PList rs)] = Inr r"
proof (cases "css_first E d parser ''.reg.searchCenterMiddle''")
  case None
  with assms show ?thesis by (simp add: search_parse_def)
next
  case (Some node)
  with assms show ?thesis
    by (simp add: search_parse_def bind_err_Inr)
qed

lemma search_steps:
  assumes "search E query = Inr r"
  shows "\<exists>res d parser.
      client_get E (str ''https://sg.search.yahoo.com/search?q='' @ quote_plus E query) headers
        = Inr res
    \<and> raise_for_status res = Inr ()
    \<and> Parser E (res_text res) = (d, parser)
    \<and> search_parse E d parser = Inr r"
  using assms
  by (cases "client_get E (str ''https://sg.search.yahoo.com/search?q='' @ quote_plus E query) headers")
     (auto simp: search_def bind_err_Inr split: prod.splits)

lemma result_page_link:
  "get_abs_link strict_netloc (Some wrapped_example_com) = Inr (str ''https://example.com/abc'')"
  by (simp add: wrapped_example_com_def url_eval)

lemma result_page_webpages:
  "search_webpages result_page 0 [] [2] =
     Inr (Suc 0, [PDict [(str ''title'', PStr (str ''Example'')),
                     (str ''link'', PStr (str ''https://example.com/abc'')),
                     (str ''text'', PStr (str ''An example page''))]])"
  by (simp add: result_page_def page_env_def result_page_css_def result_page_attr_def
      result_page_text_def attr_def result_page_link dict_set_def str_inj MD_TAGS_def)

lemma search_result_page: "search result_page (str ''example'') = Inr result_page_result"
  by (simp add: search_def search_parse_def result_page_webpages search_card_def
      css_first_def raise_for_status_def result_page_result_def validate_SearchResult_def
      validate_list_field_def validate_AlsoTryItem_def validate_PageResult_def
      validate_RelatedSearch_def validate_CardResult_def req_str_def opt_str_def str_inj
      opt_val_def attr_def result_page_link dict_set_def
      result_page_def page_env_def result_page_css_def result_page_attr_def
      result_page_text_def MD_TAGS_def)

text \<open>
  C1, as the code has it. The loop over the heading anchors of a result block leaves, as
  the \<open>link\<close> of the block, what \<open>get_abs_link\<close> returns for the \<open>href\<close> of the last
  anchor. In every \<open>SearchResult\<close> that \<open>search\<close> returns, \<open>pages\<close> has one entry for
  each result block \<open>.dd.algo.algo-sr\<close>, in order, and the link of entry \<open>i\<close> is what
  \<open>get_abs_link\<close> returns for the \<open>href\<close> of the last heading anchor
  \<open>div.compTitle h3 a\<close> of block \<open>i\<close>, read in the document as the blocks before it
  have left it. \<open>also_try\<close> and \<open>related_searches\<close> have one entry for each anchor
  that their selector matches, in order, and the link of each entry is the \<open>href\<close>
  attribute of its anchor as it stands; it is not passed through \<open>get_abs_link\<close>.
  Nothing is promised about the text \<open>RU=\<close> inside a link.
\<close>

theorem search_links:
  "(search_titles E d0 pr0 (ns @ [a]) = Inr pr' \<longrightarrow>
      (\<exists>h l. attributes E d0 a ''href'' = Some h \<and> get_abs_link (netloc_ok E) h = Inr l
          \<and> map_of pr' (str ''link'') = Some (PStr l)))
   \<and> (search E query = Inr r
      \<and> client_get E (str ''https://sg.search.yahoo.com/search?q='' @ quote_plus E query)
          headers = Inr res
      \<and> Parser E (res_text res) = (d, parser) \<longrightarrow>
      (\<exists>node d1 ps d2 cd.
          css_first E d parser ''.reg.searchCenterMiddle'' = Some node
        \<and> search_webpages E d [] (css E d node ''.dd.algo.algo-sr'') = Inr (d1, ps)
        \<and> search_card E d1 parser = Inr (d2, cd)
        \<and> length (pages r) = length (css E d node ''.dd.algo.algo-sr'')
        \<and> (\<forall>i < length (pages r). \<exists>di psi h.
              search_webpages E d [] (take i (css E d node ''.dd.algo.algo-sr''))
                = Inr (di, psi)
            \<and> css E di (css E d node ''.dd.algo.algo-sr'' ! i) ''div.compTitle h3 a'' \<noteq> []
            \<and> attributes E di
                (last (css E di (css E d node ''.dd.algo.algo-sr'' ! i) ''div.compTitle h3 a''))
                ''href'' = Some h
            \<and> get_abs_link (netloc_ok E) h = Inr (page_link (pages r ! i)))
        \<and> list_all2 (\<lambda>n x. attributes E d2 n ''href'' = Some (Some (ati_link x)))
            (css E d2 parser ''ol.cardReg.searchTop .compDlink li span a'') (also_try r)
        \<and> length (related_searches r)
            = length (css E d2 parser ''ol.scf.reg.searchCenterFooter tbody tr td a'')
        \<and> (\<forall>j < length (related_searches r). \<exists>dj accj.
              search_related E d2 []
                (take j (css E d2 parser ''ol.scf.reg.searchCenterFooter tbody tr td a''))
                = Inr (dj, accj)
            \<and> attributes E
                (unwrap_tags E dj
                   (css E d2 parser ''ol.scf.reg.searchCenterFooter tbody tr td a'' ! j) MD_TAGS)
                (css E d2 parser ''ol.scf.reg.searchCenterFooter tbody tr td a'' ! j) ''href''
                = Some (Some (related_link (related_searches r ! j))))))"
proof (intro conjI impI)
  assume "search_titles E d0 pr0 (ns @ [a]) = Inr pr'"
  then show "\<exists>h l. attributes E d0 a ''href'' = Some h \<and> get_abs_link (netloc_ok E) h = Inr l
          \<and> map_of pr' (str ''link'') = Some (PStr l)"
    by (rule search_titles_last)
next
  let ?blocks = "\<lambda>node. css E d node ''.dd.algo.algo-sr''"
  let ?also = "\<lambda>d2. css E d2 parser ''ol.cardReg.searchTop .compDlink li span a''"
  let ?rel = "\<lambda>d2. css E d2 parser ''ol.scf.reg.searchCenterFooter tbody tr td a''"
  assume asm: "search E query = Inr r
      \<and> client_get E (str ''https://sg.search.yahoo.com/search?q='' @ quote_plus E query)
          headers = Inr res
      \<and> Parser E (res_text res) = (d, parser)"
  then have "search_parse E d parser = Inr r"
    by (auto simp: search_def bind_err_Inr)
  from search_parse_steps [OF this] obtain node d1 ps d2 cd at d3 rs where
    n: "css_first E d parser ''.reg.searchCenterMiddle'' = Some node"
    and w: "search_webpages E d [] (?blocks node) = Inr (d1, ps)"
    and c: "search_card E d1 parser = Inr (d2, cd)"
    and a: "search_also_try E d2 [] (?also d2) = Inr at"
    and s: "search_related E d2 [] (?rel d2) = Inr (d3, rs)"
    and v: "validate_SearchResult
              [(str ''also_try'', PList at), (str ''pages'', PList ps), (str ''card'', PDict cd),
               (str ''related_searches'', PList rs)] = Inr r"
    by blast
  note vl = validate_SearchResult_lists [OF v]
  note va = validate_list_all2 [OF vl(1)]
  note vp = validate_list_all2 [OF vl(2)]
  note vr = validate_list_all2 [OF vl(3)]
  from search_webpages_length [OF w] have lps: "length ps = length (?blocks node)" by auto
  with list_all2_lengthD [OF vp] have lp: "length (pages r) = length (?blocks node)" by simp
  have pg: "\<exists>di psi h.
              search_webpages E d [] (take i (?blocks node)) = Inr (di, psi)
            \<and> css E di (?blocks node ! i) ''div.compTitle h3 a'' \<noteq> []
            \<and> attributes E di (last (css E di (?blocks node ! i) ''div.compTitle h3 a''))
                ''href'' = Some h
            \<and> get_abs_link (netloc_ok E) h = Inr (page_link (pages r ! i))"
    if "i < length (pages r)" for i
  proof -
    from that lp have i: "i < length (?blocks node)" by simp
    with lps have "i < length ps" by simp
    from list_all2_nthD [OF vp this]
    have "validate_PageResult (ps ! i) = Inr (pages r ! i)" .
    from search_webpages_page_link [OF w i this] show ?thesis .
  qed
  from search_also_try_items [OF a] have
    ai: "list_all2 (\<lambda>n v. \<exists>href. attributes E d2 n ''href'' = Some href
          \<and> v = PDict [(str ''link'', opt_val href), (str ''text'', PStr (node_text E d2 n))])
        (?also d2) at" by simp
  have al: "list_all2 (\<lambda>n x. attributes E d2 n ''href'' = Some (Some (ati_link x)))
              (?also d2) (also_try r)"
  proof (rule list_all2_trans [OF _ ai va])
    fix n v x
    assume "\<exists>href. attributes E d2 n ''href'' = Some href
          \<and> v = PDict [(str ''link'', opt_val href), (str ''text'', PStr (node_text E d2 n))]"
      and vx: "validate_AlsoTryItem v = Inr x"
    then obtain href where
      h: "attributes E d2 n ''href'' = Some href"
      and "v = PDict [(str ''link'', opt_val href), (str ''text'', PStr (node_text E d2 n))]"
      by blast
    with vx have "validate_AlsoTryItem
        (PDict [(str ''link'', opt_val href), (str ''text'', PStr (node_text E d2 n))]) = Inr x"
      by simp
    from also_try_item_link [OF h this]
    show "attributes E d2 n ''href'' = Some (Some (ati_link x))" .
  qed
  from search_related_length [OF s] have lrs: "length rs = length (?rel d2)" by auto
  with list_all2_lengthD [OF vr] have lr: "length (related_searches r) = length (?rel d2)"
    by simp
  have rl: "\<exists>dj accj. search_related E d2 [] (take j (?rel d2)) = Inr (dj, accj)
            \<and> attributes E (unwrap_tags E dj (?rel d2 ! j) MD_TAGS) (?rel d2 ! j) ''href''
                = Some (Some (related_link (related_searches r ! j)))"
    if "j < length (related_searches r)" for j
  proof -
    from that lr have j: "j < length (?rel d2)" by simp
    with lrs have "j < length rs" by simp
    from list_all2_nthD [OF vr this]
    have "validate_RelatedSearch (rs ! j) = Inr (related_searches r ! j)" .
    from search_related_nth [OF s j this] show ?thesis .
  qed
  from n w c lp pg al lr rl
  show "\<exists>node d1 ps d2 cd.
          css_first E d parser ''.reg.searchCenterMiddle'' = Some node
        \<and> search_webpages E d [] (css E d node ''.dd.algo.algo-sr'') = Inr (d1, ps)
        \<and> search_card E d1 parser = Inr (d2, cd)
        \<and> length (pages r) = length (css E d node ''.dd.algo.algo-sr'')
        \<and> (\<forall>i < length (pages r). \<exists>di psi h.
              search_webpages E d [] (take i (css E d node ''.dd.algo.algo-sr''))
                = Inr (di, psi)
            \<and> css E di (css E d node ''.dd.algo.algo-sr'' ! i) ''div.compTitle h3 a'' \<noteq> []
            \<and> attributes E di
                (last (css E di (css E d node ''.dd.algo.algo-sr'' ! i) ''div.compTitle h3 a''))
                ''href'' = Some h
            \<and> get_abs_link (netloc_ok E) h = Inr (page_link (pages r ! i)))
        \<and> list_all2 (\<lambda>n x. attributes E d2 n ''href'' = Some (Some (ati_link x)))
            (css E d2 parser ''ol.cardReg.searchTop .compDlink li span a'') (also_try r)
        \<and> length (related_searches r)
            = length (css E d2 parser ''ol.scf.reg.searchCenterFooter tbody tr td a'')
        \<and> (\<forall>j < length (related_searches r). \<exists>dj accj.
              search_related E d2 []
                (take j (css E d2 parser ''ol.scf.reg.searchCenterFooter tbody tr td a''))
                = Inr (dj, accj)
            \<and> attributes E
                (unwrap_tags E dj
                   (css E d2 parser ''ol.scf.reg.searchCenterFooter tbody tr td a'' ! j) MD_TAGS)
                (css E d2 parser ''ol.scf.reg.searchCenterFooter tbody tr td a'' ! j) ''href''
                = Some (Some (related_link (related_searches r ! j))))"
    by blast
qed


theorem search_links_witness:
  "search result_page (str ''example'') = Inr result_page_result
   \<and> search_titles result_page 0 [] [3]
       = Inr [(str ''title'', PStr (str ''Example'')),
              (str ''link'', PStr (str ''https://example.com/abc''))]
   \<and> css_first result_page 0 0 ''.reg.searchCenterMiddle'' = Some 1
   \<and> css result_page 0 1 ''.dd.algo.algo-sr'' = [2]
   \<and> css result_page 0 2 ''div.compTitle h3 a'' = [3]
   \<and> attributes result_page 0 3 ''href'' = Some (Some wrapped_example_com)
   \<and> get_abs_link (netloc_ok result_page) (Some wrapped_example_com)
       = Inr (str ''https://example.com/abc'')
   \<and> map page_link (pages result_page_result) = [str ''https://example.com/abc'']
   \<and> css result_page 1 0 ''ol.cardReg.searchTop .compDlink li span a'' = [6]
   \<and> attributes result_page 1 6 ''href'' = Some (Some wrapped_example_org)
   \<and> map ati_link (also_try result_page_result) = [wrapped_example_org]
   \<and> css result_page 1 0 ''ol.scf.reg.searchCenterFooter tbody tr td a'' = [7]
   \<and> attributes result_page 2 7 ''href''
       = Some (Some (str ''https://sg.search.yahoo.com/search?p=examples''))
   \<and> map related_link (related_searches result_page_result)
       = [str ''https://sg.search.yahoo.com/search?p=examples'']
   \<and> (\<exists>node d1 ps d2 cd.
          css_first result_page 0 0 ''.reg.searchCenterMiddle'' = Some node
        \<and> search_webpages result_page 0 [] (css result_page 0 node ''.dd.algo.algo-sr'')
            = Inr (d1, ps)
        \<and> search_card result_page d1 0 = Inr (d2, cd)
        \<and> length (pages result_page_result)
            = length (css result_page 0 node ''.dd.algo.algo-sr'')
        \<and> (\<forall>i < length (pages result_page_result). \<exists>di psi h.
              search_webpages result_page 0 []
                (take i (css result_page 0 node ''.dd.algo.algo-sr'')) = Inr (di, psi)
            \<and> css result_page di (css result_page 0 node ''.dd.algo.algo-sr'' ! i)
                ''div.compTitle h3 a'' \<noteq> []
            \<and> attributes result_page di
                (last (css result_page di (css result_page 0 node ''.dd.algo.algo-sr'' ! i)
                         ''div.compTitle h3 a''))
                ''href'' = Some h
            \<and> get_abs_link (netloc_ok result_page) h
                = Inr (page_link (pages result_page_result ! i)))
        \<and> list_all2 (\<lambda>n x. attributes result_page d2 n ''href'' = Some (Some (ati_link x)))
            (css result_page d2 0 ''ol.cardReg.searchTop .compDlink li span a'')
            (also_try result_page_result)
        \<and> length (related_searches result_page_result)
            = length (css result_page d2 0 ''ol.scf.reg.searchCenterFooter tbody tr td a'')
        \<and> (\<forall>j < length (related_searches result_page_result). \<exists>dj accj.
              search_related result_page d2 []
                (take j (css result_page d2 0 ''ol.scf.reg.searchCenterFooter tbody tr td a''))
                = Inr (dj, accj)
            \<and> attributes result_page
                (unwrap_tags result_page dj
                   (css result_page d2 0 ''ol.scf.reg.searchCenterFooter tbody tr td a'' ! j)
                   MD_TAGS)
                (css result_page d2 0 ''ol.scf.reg.searchCenterFooter tbody tr td a'' ! j)
                ''href''
                = Some (Some (related_link (related_searches result_page_result ! j)))))"
proof -
  note T = search_links [where E = result_page and query = "str ''example''"
      and r = result_page_result and d = 0 and parser = 0
      and res = "\<lparr>status_code = 200, res_text = [], res_json = Inl JSONDecodeError\<rparr>",
      THEN conjunct2, THEN mp]
  have h: "search result_page (str ''example'') = Inr result_page_result
      \<and> client_get result_page
          (str ''https://sg.search.yahoo.com/search?q='' @ quote_plus result_page (str ''example''))
          headers = Inr \<lparr>status_code = 200, res_text = [], res_json = Inl JSONDecodeError\<rparr>
      \<and> Parser result_page
          (res_text \<lparr>status_code = 200, res_text = [], res_json = Inl JSONDecodeError\<rparr>)
          = (0, 0)"
    by (simp add: search_result_page) (simp add: result_page_def page_env_def)
  have c: "search_titles result_page 0 [] [3]
       = Inr [(str ''title'', PStr (str ''Example'')),
              (str ''link'', PStr (str ''https://example.com/abc''))]
   \<and> css_first result_page 0 0 ''.reg.searchCenterMiddle'' = Some 1
   \<and> css result_page 0 1 ''.dd.algo.algo-sr'' = [2]
   \<and> css result_page 0 2 ''div.compTitle h3 a'' = [3]
   \<and> attributes result_page 0 3 ''href'' = Some (Some wrapped_example_com)
   \<and> get_abs_link (netloc_ok result_page) (Some wrapped_example_com)
       = Inr (str ''https://example.com/abc'')
   \<and> map page_link (pages result_page_result) = [str ''https://example.com/abc'']
   \<and> css result_page 1 0 ''ol.cardReg.searchTop .compDlink li span a'' = [6]
   \<and> attributes result_page 1 6 ''href'' = Some (Some wrapped_example_org)
   \<and> map ati_link (also_try result_page_result) = [wrapped_example_org]
   \<and> css result_page 1 0 ''ol.scf.reg.searchCenterFooter tbody tr td a'' = [7]
   \<and> attributes result_page 2 7 ''href''
       = Some (Some (str ''https://sg.search.yahoo.com/search?p=examples''))
   \<and> map related_link (related_searches result_page_result)
       = [str ''https://sg.search.yahoo.com/search?p=examples'']"
    by (simp add: result_page_def page_env_def result_page_css_def result_page_attr_def
        result_page_text_def attr_def result_page_link dict_set_def str_inj css_first_def
        result_page_result_def)
  from h T [OF h] c show ?thesis by blast
qed

text \<open>
  On the fixture page the link of the "also try" entry is the tracking URL itself, marker
  included, and not the destination that \<open>get_abs_link\<close> extracts from it. And a decoded
  link contains the text \<open>RU=\<close> when the destination does.
\<close>

theorem also_try_link_raw_counterexample:
  "map_sum id (\<lambda>r. map ati_link (also_try r)) (search result_page (str ''example''))
     = Inr [wrapped_example_org]
   \<and> contains wrapped_example_org (str ''RU='')
   \<and> get_abs_link strict_netloc (Some wrapped_example_org) = Inr (str ''https://example.org/'')
   \<and> get_abs_link strict_netloc
         (Some (str ''https://r.search.yahoo.com/RU=https%3A%2F%2Fexample.com%2F%3FRU%3D1/RK=2/RS=x-''))
       = Inr (str ''https://example.com/?RU=1'')
   \<and> contains (str ''https://example.com/?RU=1'') (str ''RU='')"
  by (simp add: search_result_page result_page_result_def)
     (simp add: wrapped_example_org_def url_eval)

text \<open>
  C7, as the code has it. When the card panel selector matches nothing, the \<open>card\<close>
  field of the \<open>SearchResult\<close> that \<open>search\<close> returns is not \<open>None\<close>: it is a
  \<open>CardResult\<close> whose four fields are all \<open>None\<close>, built from the empty dictionary
  that \<open>contents['card']\<close> starts as.
\<close>

theorem search_card_without_panel:
  assumes "search E query = Inr r"
    and "client_get E (str ''https://sg.search.yahoo.com/search?q='' @ quote_plus E query)
           headers = Inr res"
    and "Parser E (res_text res) = (d, parser)"
    and "css_first E d parser ''.reg.searchCenterMiddle'' = Some node"
    and "search_webpages E d [] (css E d node ''.dd.algo.algo-sr'') = Inr (d1, ps)"
    and "css E d1 parser ''.cardReg.searchRightTop'' = []"
  shows "card_result r =
           Some \<lparr>card_image = None, card_heading = None, card_text = None, card_source = None\<rparr>"
proof -
  have c: "search_card E d1 parser = Inr (d1, [])"
    using assms(6) by (simp add: search_card_def css_first_def)
  from assms(1-5) c obtain at rs where
    "validate_SearchResult
       [(str ''also_try'', PList at), (str ''pages'', PList ps), (str ''card'', PDict []),
        (str ''related_searches'', PList rs)] = Inr r"
    by (auto simp: search_def search_parse_def bind_err_Inr split: prod.splits)
  from validate_SearchResult_card [OF this] show ?thesis
    by (simp add: validate_card_empty)
qed

theorem search_card_without_panel_witness:
  "search result_page (str ''example'') = Inr result_page_result
   \<and> css result_page (Suc 0) 0 ''.cardReg.searchRightTop'' = []
   \<and> card_result result_page_result =
       Some \<lparr>card_image = None, card_heading = None, card_text = None, card_source = None\<rparr>"
proof -
  let ?res = "\<lparr>status_code = 200, res_text = [], res_json = Inl JSONDecodeError\<rparr>"
  have a2: "client_get result_page
      (str ''https://sg.search.yahoo.com/search?q='' @ quote_plus result_page (str ''example''))
      headers = Inr ?res"
    by (simp add: result_page_def page_env_def)
  have a3: "Parser result_page (res_text ?res) = (0, 0)"
    by (simp add: result_page_def page_env_def)
  have a4: "css_first result_page 0 0 ''.reg.searchCenterMiddle'' = Some 1"
    by (simp add: css_first_def result_page_def page_env_def result_page_css_def)
  have c: "css result_page 0 1 ''.dd.algo.algo-sr'' = [2]"
    by (simp add: result_page_def page_env_def result_page_css_def)
  have a5: "search_webpages result_page 0 [] (css result_page 0 1 ''.dd.algo.algo-sr'')
      = Inr (Suc 0, [PDict [(str ''title'', PStr (str ''Example'')),
                     (str ''link'', PStr (str ''https://example.com/abc'')),
                     (str ''text'', PStr (str ''An example page''))]])"
    unfolding c by (rule result_page_webpages)
  have a6: "css result_page (Suc 0) 0 ''.cardReg.searchRightTop'' = []"
    by (simp add: result_page_def page_env_def result_page_css_def)
  from search_card_without_panel [OF search_result_page a2 a3 a4 a5 a6] a6 search_result_page
  show ?thesis by simp
qed

text \<open>On the fixture page, which has no card panel, \<open>card\<close> is not \<open>None\<close>.\<close>

theorem card_not_absent_counterexample:
  "css result_page (Suc 0) 0 ''.cardReg.searchRightTop'' = []
   \<and> map_sum id card_result (search result_page (str ''example''))
       = Inr (Some \<lparr>card_image = None, card_heading = None, card_text = None,
                    card_source = None\<rparr>)"
  by (simp add: search_result_page result_page_result_def)
     (simp add: result_page_def page_env_def result_page_css_def)

section \<open>search_news\<close>

lemma news_item_keys:
  assumes "news_item E d item = Inr (d', this)"
  shows "map_of this (str ''last_updated'') = None"
  using assms
  by (auto simp: news_item_def news_thumbnail_part_def news_title_part_def
      news_source_part_def news_time_part_def news_description_part_def
      bind_err_Inr map_of_dict_set Let_def
      split: option.splits if_splits)

lemma news_loop_keys:
  assumes "news_loop E d acc items = Inr (d', c)"
    and "v \<in> set c"
  shows "v \<in> set acc \<or> (\<exists>this. v = PDict this \<and> map_of this (str ''last_updated'') = None)"
  using assms
proof (induction items arbitrary: d acc)
  case Nil
  then show ?case by simp
next
  case (Cons item rest)
  from Cons.prems(1) obtain d1 this where
    i: "news_item E d item = Inr (d1, this)"
    and l: "news_loop E d1 (acc @ [PDict this]) rest = Inr (d', c)"
    by (auto simp: bind_err_Inr)
  from Cons.IH [OF l Cons.prems(2)] news_item_keys [OF i] show ?case by auto
qed

lemma validate_News_last_updated:
  "validate_News (PDict this) = Inr n \<Longrightarrow> map_of this (str ''last_updated'') = None
   \<Longrightarrow> news_last_updated n = None"
  by (auto simp: validate_News_def bind_err_Inr opt_str_def)

lemma search_news_steps:
  assumes "search_news E query = Inr r"
  shows "\<exists>res d parser page d' contents.
      client_get E (str ''https://sg.news.search.yahoo.com/search?q='' @ quote_plus E query)
        headers = Inr res
    \<and> Parser E (res_text res) = (d, parser)
    \<and> css_first E d parser ''#main #web'' = Some page
    \<and> news_loop E d [] (css E d page ''li .dd.NewsArticle li'') = Inr (d', contents)
    \<and> validate_list validate_News contents = Inr (news r)"
proof -
  from assms obtain res where
    g: "client_get E (str ''https://sg.news.search.yahoo.com/search?q='' @ quote_plus E query)
        headers = Inr res"
    and p0: "(case Parser E (res_text res) of (d, parser) \<Rightarrow> news_parse E d parser) = Inr r"
    by (auto simp: search_news_def tabs_get_def query_to_tabs_def bind_err_Inr)
  obtain d parser where p: "Parser E (res_text res) = (d, parser)"
    by (cases "Parser E (res_text res)")
  with p0 have np: "news_parse E d parser = Inr r" by simp
  then obtain page where c: "css_first E d parser ''#main #web'' = Some page"
    by (cases "css_first E d parser ''#main #web''") (auto simp: news_parse_def)
  with np obtain d' contents where
    "news_loop E d [] (css E d page ''li .dd.NewsArticle li'') = Inr (d', contents)"
    "validate_list validate_News contents = Inr (news r)"
    by (auto simp: news_parse_def bind_err_Inr validate_NewsSearchResult_def)
  with g p c show ?thesis by blast
qed

lemma news_loop_append:
  "news_loop E d acc (xs @ ys)
     = bind_err (news_loop E d acc xs) (\<lambda>(d', acc'). news_loop E d' acc' ys)"
proof (induction xs arbitrary: d acc)
  case Nil
  show ?case by simp
next
  case (Cons x xs)
  show ?case
  proof (cases "news_item E d x")
    case (Inl e)
    then show ?thesis by simp
  next
    case (Inr p)
    obtain d1 this where "p = (d1, this)" by (cases p)
    with Inr Cons [of d1 "acc @ [PDict this]"] show ?thesis by simp
  qed
qed

lemma news_loop_acc:
  "news_loop E d acc items = Inr (d', c) \<Longrightarrow> set acc \<subseteq> set c"
proof (induction items arbitrary: d acc)
  case Nil
  then show ?case by simp
next
  case (Cons item rest)
  from Cons.prems obtain d1 this where
    "news_loop E d1 (acc @ [PDict this]) rest = Inr (d', c)"
    by (auto simp: bind_err_Inr)
  from Cons.IH [OF this] show ?case by simp
qed

lemma validate_News_empty: "validate_News (PDict []) = Inl ValidationError"
  by (simp add: validate_News_def req_str_def)

lemma validate_News_error: "validate_News v = Inl e \<Longrightarrow> e = ValidationError"
  by (auto simp: validate_News_def req_str_def opt_str_def bind_err_Inl
      split: pyval.splits option.splits)

lemma validate_list_News_error:
  "validate_list validate_News xs = Inl e \<Longrightarrow> e = ValidationError"
proof (induction xs)
  case Nil
  then show ?case by simp
next
  case (Cons a xs)
  then show ?case
    by (cases "validate_News a"; cases "validate_list validate_News xs")
       (auto dest: validate_News_error)
qed

text \<open>
  C5, as the code has it. Every field of a news entry but the title is optional. A list
  item in which no probe matches yields the empty dictionary, which the \<open>News\<close> model
  rejects for its missing \<open>title\<close>. \<open>search_news\<close> then does not return: it raises
  the exception that a later list item raises while it is read, if one does, and the
  validation error of the model otherwise. A dictionary that holds a title only is
  accepted, with every other field \<open>None\<close>.
\<close>

theorem news_item_without_title_fails:
  assumes "client_get E (str ''https://sg.news.search.yahoo.com/search?q='' @ quote_plus E query)
             headers = Inr res"
    and "Parser E (res_text res) = (d, parser)"
    and "css_first E d parser ''#main #web'' = Some page"
    and "css E d page ''li .dd.NewsArticle li'' = pre @ item # post"
    and "news_loop E d [] pre = Inr (d1, acc)"
    and "css E d1 item ''img'' = []"
    and "css E d1 item ''h4 a'' = []"
    and "css E d1 item ''span.s-source'' = []"
    and "css E d1 item ''span.fc-2nd.s-time'' = []"
    and "css E d1 item ''p.s-desc'' = []"
  shows "news_item E d1 item = Inr (d1, [])
       \<and> validate_News (PDict []) = Inl ValidationError
       \<and> search_news E query
           = (case news_loop E d1 (acc @ [PDict []]) post of
                Inl e \<Rightarrow> Inl e
              | Inr x \<Rightarrow> Inl ValidationError)
       \<and> validate_News (PDict [(str ''title'', PStr t)])
           = Inr \<lparr>news_title = t, news_thumbnail = None, news_source = None,
                  news_last_updated = None, news_text = None\<rparr>"
proof -
  have i: "news_item E d1 item = Inr (d1, [])"
    using assms(6-10)
    by (simp add: news_item_def news_thumbnail_part_def news_title_part_def
        news_source_part_def news_time_part_def news_description_part_def css_first_def)
  have l: "news_loop E d [] (pre @ item # post) = news_loop E d1 (acc @ [PDict []]) post"
    using assms(5) i by (simp add: news_loop_append)
  have p: "search_news E query
      = bind_err (news_loop E d1 (acc @ [PDict []]) post) (\<lambda>(d', contents).
          validate_NewsSearchResult contents)"
    using assms(1-4) l
    by (simp add: search_news_def tabs_get_def query_to_tabs_def news_parse_def)
  have f: "search_news E query
           = (case news_loop E d1 (acc @ [PDict []]) post of
                Inl e \<Rightarrow> Inl e
              | Inr x \<Rightarrow> Inl ValidationError)"
  proof (cases "news_loop E d1 (acc @ [PDict []]) post")
    case (Inl e)
    with p show ?thesis by simp
  next
    case (Inr x)
    obtain d' contents where x: "x = (d', contents)" by (cases x)
    from news_loop_acc [OF Inr [unfolded x]] have "PDict [] \<in> set contents" by auto
    from validate_list_fail [of "PDict []" contents validate_News, OF this validate_News_empty]
    obtain e' where e: "validate_list validate_News contents = Inl e'" by blast
    from validate_list_News_error [OF e] e
    have "validate_list validate_News contents = Inl ValidationError" by simp
    with p Inr x show ?thesis by (simp add: validate_NewsSearchResult_def)
  qed
  have v: "validate_News (PDict [(str ''title'', PStr t)])
           = Inr \<lparr>news_title = t, news_thumbnail = None, news_source = None,
                  news_last_updated = None, news_text = None\<rparr>"
    by (simp add: validate_News_def req_str_def opt_str_def str_inj)
  from i f v validate_News_empty show ?thesis by blast
qed

lemma news_page_first_item:
  "news_loop (news_page [2, 5]) 0 [] [2] =
     Inr (0, [PDict [(str ''title'', PStr (str ''Headline'')),
                     (str ''link'', PStr (str ''https://news.example.com/story'')),
                     (str ''time'', PStr (str ''2 hours ago''))]])"
  by (simp add: news_item_def news_thumbnail_part_def news_title_part_def
      news_source_part_def news_time_part_def news_description_part_def
      css_first_def attr_def opt_val_def dict_set_def str_inj
      news_page_def page_env_def news_page_css_def news_page_attr_def news_page_text_def)

theorem news_item_without_title_fails_witness:
  "news_item (news_page [2, 5]) 0 5 = Inr (0, [])
   \<and> search_news (news_page [2, 5]) (str ''example'') = Inl ValidationError
   \<and> news_item broken_news_page 0 5 = Inr (0, [])
   \<and> search_news broken_news_page (str ''example'') = Inl KeyError
   \<and> validate_News (PDict [(str ''title'', PStr (str ''Headline''))])
       = Inr \<lparr>news_title = str ''Headline'', news_thumbnail = None, news_source = None,
              news_last_updated = None, news_text = None\<rparr>"
proof -
  let ?res = "\<lparr>status_code = 200, res_text = [], res_json = Inl JSONDecodeError\<rparr>"
  have first: "news_item (news_page [2, 5]) 0 5 = Inr (0, [])
     \<and> search_news (news_page [2, 5]) (str ''example'') = Inl ValidationError
     \<and> validate_News (PDict [(str ''title'', PStr (str ''Headline''))])
       = Inr \<lparr>news_title = str ''Headline'', news_thumbnail = None, news_source = None,
              news_last_updated = None, news_text = None\<rparr>"
  proof -
    let ?E = "news_page [2, 5]"
    have a1: "client_get ?E
        (str ''https://sg.news.search.yahoo.com/search?q='' @ quote_plus ?E (str ''example''))
        headers = Inr ?res"
      by (simp add: news_page_def page_env_def)
    have a2: "Parser ?E (res_text ?res) = (0, 0)" by (simp add: news_page_def page_env_def)
    have a3: "css_first ?E 0 0 ''#main #web'' = Some 1"
      by (simp add: css_first_def news_page_def page_env_def news_page_css_def)
    have a4: "css ?E 0 1 ''li .dd.NewsArticle li'' = [2] @ 5 # []"
      by (simp add: news_page_def page_env_def news_page_css_def)
    have c: "css ?E 0 5 ''img'' = []" "css ?E 0 5 ''h4 a'' = []"
      "css ?E 0 5 ''span.s-source'' = []" "css ?E 0 5 ''span.fc-2nd.s-time'' = []"
      "css ?E 0 5 ''p.s-desc'' = []"
      by (simp_all add: news_page_def page_env_def news_page_css_def)
    from news_item_without_title_fails
        [OF a1 a2 a3 a4 news_page_first_item c(1) c(2) c(3) c(4) c(5),
         of "str ''Headline''"]
    show ?thesis by simp
  qed
  have second: "news_item broken_news_page 0 5 = Inr (0, [])
     \<and> search_news broken_news_page (str ''example'') = Inl KeyError"
  proof -
    let ?E = "broken_news_page"
    have a1: "client_get ?E
        (str ''https://sg.news.search.yahoo.com/search?q='' @ quote_plus ?E (str ''example''))
        headers = Inr ?res"
      by (simp add: broken_news_page_def page_env_def)
    have a2: "Parser ?E (res_text ?res) = (0, 0)"
      by (simp add: broken_news_page_def page_env_def)
    have a3: "css_first ?E 0 0 ''#main #web'' = Some 1"
      by (simp add: css_first_def broken_news_page_def page_env_def broken_news_css_def)
    have a4: "css ?E 0 1 ''li .dd.NewsArticle li'' = [] @ 5 # [6]"
      by (simp add: broken_news_page_def page_env_def broken_news_css_def)
    have a5: "news_loop ?E 0 [] [] = Inr (0, [])" by simp
    have c: "css ?E 0 5 ''img'' = []" "css ?E 0 5 ''h4 a'' = []"
      "css ?E 0 5 ''span.s-source'' = []" "css ?E 0 5 ''span.fc-2nd.s-time'' = []"
      "css ?E 0 5 ''p.s-desc'' = []"
      by (simp_all add: broken_news_page_def page_env_def broken_news_css_def)
    have k: "news_loop ?E 0 ([] @ [PDict []]) [6] = Inl KeyError"
      by (simp add: news_item_def news_thumbnail_part_def css_first_def attr_def
          broken_news_page_def page_env_def broken_news_css_def)
    from news_item_without_title_fails
        [OF a1 a2 a3 a4 a5 c(1) c(2) c(3) c(4) c(5), of "[]"] k
    show ?thesis by simp
  qed
  from first second show ?thesis by blast
qed

text \<open>A page whose only list item matches no probe: \<open>search_news\<close> fails.\<close>

theorem empty_news_item_counterexample:
  "search_news (news_page [5]) (str ''example'') = Inl ValidationError"
  by (simp add: search_news_def tabs_get_def query_to_tabs_def news_parse_def news_item_def
      news_thumbnail_part_def news_title_part_def
      news_source_part_def news_time_part_def news_description_part_def
      css_first_def validate_NewsSearchResult_def validate_News_def req_str_def
      news_page_def page_env_def news_page_css_def)

text \<open>
  C6: the time label does not reach the record. The label, without its first two
  characters, is stored under the key \<open>time\<close>; the \<open>News\<close> model has no field of that
  name (its field is \<open>last_updated\<close>) and ignores the key. In every result of
  \<open>search_news\<close> each entry has \<open>last_updated = None\<close>, also for a list item with a
  time label.
\<close>

theorem search_news_last_updated_none:
  assumes "search_news E query = Inr r"
  shows "list_all (\<lambda>n. news_last_updated n = None) (news r)"
proof -
  from search_news_steps [OF assms] obtain d page d' contents where
    l: "news_loop E d [] (css E d page ''li .dd.NewsArticle li'') = Inr (d', contents)"
    and v: "validate_list validate_News contents = Inr (news r)"
    by blast
  have "news_last_updated n = None" if "n \<in> set (news r)" for n
  proof -
    from validate_list_elem [OF v that] obtain y where
      y: "y \<in> set contents" "validate_News y = Inr n" by blast
    from news_loop_keys [OF l y(1)] obtain this where
      "y = PDict this" "map_of this (str ''last_updated'') = None" by auto
    with y(2) validate_News_last_updated show ?thesis by blast
  qed
  then show ?thesis by (simp add: list_all_iff)
qed

lemma search_news_page: "search_news (news_page [2]) (str ''example'') = Inr news_page_result"
  by (simp add: search_news_def tabs_get_def query_to_tabs_def news_parse_def news_item_def
      news_thumbnail_part_def news_title_part_def
      news_source_part_def news_time_part_def news_description_part_def
      css_first_def attr_def opt_val_def dict_set_def str_inj
      validate_NewsSearchResult_def validate_News_def req_str_def opt_str_def
      news_page_def page_env_def news_page_css_def news_page_attr_def news_page_text_def
      news_page_result_def)

theorem search_news_last_updated_none_witness:
  "news_time_part (news_page [2]) 0 2 [] = [(str ''time'', PStr (str ''2 hours ago''))]
   \<and> search_news (news_page [2]) (str ''example'') = Inr news_page_result
   \<and> list_all (\<lambda>n. news_last_updated n = None) (news news_page_result)"
proof -
  have t: "news_time_part (news_page [2]) 0 2 [] = [(str ''time'', PStr (str ''2 hours ago''))]"
    by (simp add: news_time_part_def css_first_def dict_set_def
        news_page_def page_env_def news_page_css_def news_page_text_def str_def)
  from search_news_last_updated_none [OF search_news_page] t search_news_page
  show ?thesis by simp
qed

section \<open>weather\<close>

lemmas weather_page_defs =
  weather_page_def page_env_def weather_page_css_def weather_page_attr_def
  weather_page_text_def weather_page_first_def weather_page_last_def weather_rows_def
  hl_temp_selector_def forecast_selector_def bs_def

lemma ascii_int_values:
  "ascii_int (str ''91'') = Some 91" "ascii_int (str ''33'') = Some 33"
  "ascii_int (str ''79'') = Some 79" "ascii_int (str ''26'') = Some 26"
  "ascii_int (str ''31'') = Some 31" "ascii_int (str ''88'') = Some 88"
  by (simp_all add: ascii_int_def str_def)

lemma weather_page_rows:
  "forecast_row weather_page 0 100 = Inr (str ''Monday'', weather_page_info)"
  "forecast_row weather_page 0 200 = Inr (str ''Tuesday'', weather_page_info)"
  "forecast_row weather_page 0 300 = Inr (str ''Wednesday'', weather_page_info)"
  "forecast_row weather_page 0 400 = Inr (str ''Thursday'', weather_page_info)"
  "forecast_row weather_page 0 500 = Inr (str ''Friday'', weather_page_info)"
  by (simp_all add: forecast_row_def row_day_def row_weather_part_def
      row_precipitation_part_def css_first_def attr_def opt_val_def py_int_def
      nested_set_def dict_set_def str_inj ascii_int_values weather_page_info_def
      weather_page_defs)

lemma row_weather_part_other:
  "row_weather_part E d row info = Inr i1 \<Longrightarrow> k \<noteq> ''weather'' \<Longrightarrow>
   map_of i1 (str k) = map_of info (str k)"
  by (auto simp: row_weather_part_def bind_err_Inr map_of_dict_set split: option.splits)

lemma row_precipitation_part_other:
  "row_precipitation_part E d row info = Inr i2 \<Longrightarrow> k \<noteq> ''precipitation'' \<Longrightarrow>
   map_of i2 (str k) = map_of info (str k)"
  by (auto simp: row_precipitation_part_def bind_err_Inr map_of_dict_set split: option.splits)

lemma nested_set_Inr:
  "nested_set info k1 k2 v = Inr info' \<longleftrightarrow>
   (\<exists>sub. map_of info (str k1) = Some (PDict sub)
        \<and> info' = dict_set k1 (PDict (dict_set k2 v sub)) info)"
  by (auto simp: nested_set_def split: option.splits pyval.splits)

lemma forecast_row_steps:
  assumes "forecast_row E d row = Inr (day, info)"
  shows "\<exists>i2. row_day E d row = Inr day
     \<and> map_of i2 (str ''fahrenheit'') = Some (PDict [])
     \<and> map_of i2 (str ''celsius'') = Some (PDict [])
     \<and> hl_temp_loop E d i2 0 (css E d row hl_temp_selector) = Inr info"
proof -
  from assms obtain i1 i2 where
    d: "row_day E d row = Inr day"
    and w: "row_weather_part E d row
              [(str ''fahrenheit'', PDict []), (str ''celsius'', PDict [])] = Inr i1"
    and p: "row_precipitation_part E d row i1 = Inr i2"
    and h: "hl_temp_loop E d i2 0 (css E d row hl_temp_selector) = Inr info"
    by (auto simp: forecast_row_def bind_err_Inr)
  have "map_of i2 (str ''fahrenheit'') = Some (PDict [])"
    using row_precipitation_part_other [OF p, of "''fahrenheit''"]
      row_weather_part_other [OF w, of "''fahrenheit''"] by (simp add: str_inj)
  moreover have "map_of i2 (str ''celsius'') = Some (PDict [])"
    using row_precipitation_part_other [OF p, of "''celsius''"]
      row_weather_part_other [OF w, of "''celsius''"] by (simp add: str_inj)
  ultimately show ?thesis using d h by blast
qed

lemma high_low_dict:
  "dict_set ''lowest'' (PInt l) (dict_set ''highest'' (PInt h) [])
     = [(str ''highest'', PInt h), (str ''lowest'', PInt l)]"
  by (simp add: dict_set_def str_inj)

lemma validate_high_low:
  "validate_HighLowTemperature (PDict [(str ''highest'', PInt h), (str ''lowest'', PInt l)])
     = Inr \<lparr>highest = h, lowest = l\<rparr>"
  by (simp add: validate_HighLowTemperature_def req_int_def str_inj)

text \<open>The four cells of a row, at the level of its \<open>info\<close> dictionary.\<close>

lemma hl_temp_loop_positions:
  assumes "forecast_row E d row = Inr (day, info)"
    and "css E d row hl_temp_selector = [c0, c1, c2, c3]"
  shows "\<exists>fh ch fl cl.
      py_int E (butlast (node_text E d c0)) = Inr fh
    \<and> py_int E (butlast (node_text E d c1)) = Inr ch
    \<and> py_int E (butlast (node_text E d c2)) = Inr fl
    \<and> py_int E (butlast (node_text E d c3)) = Inr cl
    \<and> req_field validate_HighLowTemperature info ''fahrenheit''
        = Inr \<lparr>highest = fh, lowest = fl\<rparr>
    \<and> req_field validate_HighLowTemperature info ''celsius''
        = Inr \<lparr>highest = ch, lowest = cl\<rparr>"
proof -
  from forecast_row_steps [OF assms(1)] assms(2) obtain i2 where
    f: "map_of i2 (str ''fahrenheit'') = Some (PDict [])"
    and c: "map_of i2 (str ''celsius'') = Some (PDict [])"
    and h: "hl_temp_loop E d i2 0 [c0, c1, c2, c3] = Inr info"
    by auto
  from h obtain fh j1 where
    v0: "py_int E (butlast (node_text E d c0)) = Inr fh"
    and n0: "nested_set i2 ''fahrenheit'' ''highest'' (PInt fh) = Inr j1"
    and h1: "hl_temp_loop E d j1 1 [c1, c2, c3] = Inr info"
    by (auto simp: bind_err_Inr)
  from n0 f have j1: "j1 = dict_set ''fahrenheit'' (PDict (dict_set ''highest'' (PInt fh) [])) i2"
    by (simp add: nested_set_Inr)
  from h1 obtain ch j2 where
    v1: "py_int E (butlast (node_text E d c1)) = Inr ch"
    and n1: "nested_set j1 ''celsius'' ''highest'' (PInt ch) = Inr j2"
    and h2: "hl_temp_loop E d j2 2 [c2, c3] = Inr info"
    by (auto simp: bind_err_Inr)
  from n1 c have j2: "j2 = dict_set ''celsius'' (PDict (dict_set ''highest'' (PInt ch) [])) j1"
    by (simp add: nested_set_Inr j1 map_of_dict_set)
  from h2 obtain fl j3 where
    v2: "py_int E (butlast (node_text E d c2)) = Inr fl"
    and n2: "nested_set j2 ''fahrenheit'' ''lowest'' (PInt fl) = Inr j3"
    and h3: "hl_temp_loop E d j3 3 [c3] = Inr info"
    by (auto simp: bind_err_Inr numeral_2_eq_2 numeral_3_eq_3)
  from n2 have j3: "j3 = dict_set ''fahrenheit''
      (PDict (dict_set ''lowest'' (PInt fl) (dict_set ''highest'' (PInt fh) []))) j2"
    by (simp add: nested_set_Inr j2 j1 map_of_dict_set)
  from h3 obtain cl where
    v3: "py_int E (butlast (node_text E d c3)) = Inr cl"
    and n3: "nested_set j3 ''celsius'' ''lowest'' (PInt cl) = Inr info"
    by (auto simp: bind_err_Inr)
  from n3 have i: "info = dict_set ''celsius''
      (PDict (dict_set ''lowest'' (PInt cl) (dict_set ''highest'' (PInt ch) []))) j3"
    by (simp add: nested_set_Inr j3 j2 j1 map_of_dict_set)
  have rf: "req_field validate_HighLowTemperature info ''fahrenheit''
        = Inr \<lparr>highest = fh, lowest = fl\<rparr>"
    by (simp add: req_field_def i j3 map_of_dict_set high_low_dict validate_high_low)
  have rc: "req_field validate_HighLowTemperature info ''celsius''
        = Inr \<lparr>highest = ch, lowest = cl\<rparr>"
    by (simp add: req_field_def i map_of_dict_set high_low_dict validate_high_low)
  from v0 v1 v2 v3 rf rc show ?thesis by blast
qed

lemma update_length_le: "length (AList.update k v al) \<le> Suc (length al)"
  by (induction al) auto

lemma forecast_loop_keys:
  assumes "forecast_loop E d fc rows = Inr fc'"
  shows "fst ` set fc' = fst ` set fc \<union> {day. \<exists>row \<in> set rows. row_day E d row = Inr day}"
    and "distinct (map fst fc) \<Longrightarrow> distinct (map fst fc')"
    and "length fc' \<le> length fc + length rows"
    and "list_all (\<lambda>row. \<exists>day. row_day E d row = Inr day) rows"
  using assms
proof (induction rows arbitrary: fc)
  case Nil
  { case 1 then show ?case by simp }
  { case 2 then show ?case by simp }
  { case 3 then show ?case by simp }
  { case 4 then show ?case by simp }
next
  case (Cons row rest)
  { case 1
    then obtain day info where
      r: "forecast_row E d row = Inr (day, info)"
      and l: "forecast_loop E d (AList.update day (PDict info) fc) rest = Inr fc'"
      by (auto simp: bind_err_Inr)
    from forecast_row_steps [OF r] have rd: "row_day E d row = Inr day" by blast
    from Cons.IH(1) [OF l] rd show ?case by (auto simp: dom_update) }
  { case 2
    then obtain day info where
      l: "forecast_loop E d (AList.update day (PDict info) fc) rest = Inr fc'"
      by (auto simp: bind_err_Inr)
    from Cons.IH(2) [OF _ l] 2(1) show ?case by (simp add: distinct_update) }
  { case 3
    then obtain day info where
      l: "forecast_loop E d (AList.update day (PDict info) fc) rest = Inr fc'"
      by (auto simp: bind_err_Inr)
    have "length (AList.update day (PDict info) fc) \<le> Suc (length fc)"
      by (rule update_length_le)
    with Cons.IH(3) [OF l] show ?case by simp }
  { case 4
    then obtain day info where
      r: "forecast_row E d row = Inr (day, info)"
      and l: "forecast_loop E d (AList.update day (PDict info) fc) rest = Inr fc'"
      by (auto simp: bind_err_Inr)
    from forecast_row_steps [OF r] have rd: "row_day E d row = Inr day" by blast
    with Cons.IH(4) [OF l] show ?case by auto }
qed

lemma validate_forecast_keys:
  "validate_forecast fc = Inr ws \<Longrightarrow> map fst ws = map fst fc \<and> set (map fst fc) \<subseteq> set weekdays"
proof (induction fc arbitrary: ws)
  case Nil
  then show ?case by simp
next
  case (Cons a fc)
  obtain k v where a: "a = (k, v)" by (cases a)
  from Cons.prems a obtain w ws' where
    "k \<in> set weekdays" "validate_forecast fc = Inr ws'" "ws = (k, w) # ws'"
    by (auto simp: bind_err_Inr split: if_splits)
  with Cons.IH [of ws'] a show ?case by auto
qed

lemma validate_WeatherInformation_fields:
  assumes "validate_WeatherInformation data = Inr w"
  shows "\<exists>fc. map_of data (str ''forecast'') = Some (PDict fc)
            \<and> validate_forecast fc = Inr (forecast w)"
    and "map_of data (str ''weather'') \<noteq> None"
  using assms
  by (auto simp: validate_WeatherInformation_def bind_err_Inr req_str_def
      split: option.splits pyval.splits)

lemma weather_str_part_other:
  "k \<noteq> k' \<Longrightarrow> map_of (weather_str_part E d p sel k data) (str k') = map_of data (str k')"
  by (simp add: weather_str_part_def map_of_dict_set split: option.splits)

lemma weather_int_part_other:
  "weather_int_part E d p sel k data = Inr data' \<Longrightarrow> k \<noteq> k' \<Longrightarrow>
   map_of data' (str k') = map_of data (str k')"
  by (auto simp: weather_int_part_def bind_err_Inr map_of_dict_set split: option.splits)

lemma weather_heading_forecast:
  assumes "weather_heading_part E d parser data = Inr data3"
    and "map_of data (str ''weather'') = None"
    and "map_of data3 (str ''weather'') \<noteq> None"
  shows "\<exists>fc. forecast_loop E d [] (take 7 (css E d parser forecast_selector)) = Inr fc
            \<and> map_of data3 (str ''forecast'') = Some (PDict fc)"
proof (cases "css_first E d parser ''div#module-location-heading''")
  case None
  with assms show ?thesis by (simp add: weather_heading_part_def)
next
  case (Some w)
  with assms(1) show ?thesis
    by (auto simp: weather_heading_part_def bind_err_Inr map_of_dict_set Let_def)
qed

lemma weather_parse_forecast:
  assumes "weather_parse E d parser = Inr w"
  shows "\<exists>fc. forecast_loop E d [] (take 7 (css E d parser forecast_selector)) = Inr fc
            \<and> validate_forecast fc = Inr (forecast w)"
proof -
  from assms obtain data1 data2 data3 where
    d1: "weather_int_part E d parser (''.celsius.celsius_D'' @ bs @ ''(b'' @ bs @ '')'')
           ''celsius''
           (weather_str_part E d parser ''time'' ''time''
             (weather_str_part E d parser (''h2.D'' @ bs @ ''(b'' @ bs @ '')'') ''country''
               (weather_str_part E d parser
                  (''div.M'' @ bs @ ''(10px'' @ bs @ '') h1'') ''location''
                  [(str ''forecast'', PDict [])]))) = Inr data1"
    and d2: "weather_int_part E d parser ''.fahrenheit'' ''fahrenheit'' data1 = Inr data2"
    and d3: "weather_heading_part E d parser data2 = Inr data3"
    and v: "validate_WeatherInformation data3 = Inr w"
    by (auto simp: weather_parse_def bind_err_Inr)
  have "map_of data2 (str ''weather'') = None"
    using weather_int_part_other [OF d2, of "''weather''"]
      weather_int_part_other [OF d1, of "''weather''"]
    by (simp add: weather_str_part_other str_inj)
  from weather_heading_forecast [OF d3 this validate_WeatherInformation_fields(2) [OF v]]
    validate_WeatherInformation_fields(1) [OF v]
  show ?thesis by auto
qed

lemma weather_page_loop:
  "forecast_loop weather_page 0 [] [100, 200, 300, 400, 500] =
     Inr [(str ''Monday'', PDict weather_page_info), (str ''Tuesday'', PDict weather_page_info),
          (str ''Wednesday'', PDict weather_page_info),
          (str ''Thursday'', PDict weather_page_info),
          (str ''Friday'', PDict weather_page_info)]"
  by (simp add: weather_page_rows str_inj)

lemma weather_page_day_valid: "validate_WeatherForecast (PDict weather_page_info) = Inr weather_page_day"
  by (simp add: validate_WeatherForecast_def req_field_def weather_page_info_def str_inj
      validate_HighLowTemperature_def validate_WeatherForecastInner_def
      validate_Precipitation_def req_int_def req_str_def weather_page_day_def)

lemma weather_weather_page: "weather weather_page = Inr weather_page_result"
proof -
  have g: "client_get weather_page (str ''https://sg.news.yahoo.com/weather/'') headers
      = Inr \<lparr>status_code = 200, res_text = [], res_json = Inl JSONDecodeError\<rparr>"
    by (simp add: weather_page_def page_env_def)
  have p: "Parser weather_page [] = (0, 0)" by (simp add: weather_page_def page_env_def)
  have r: "take 7 (css weather_page 0 0 forecast_selector) = [100, 200, 300, 400, 500]"
    by (simp add: weather_page_defs)
  have h: "weather_heading_part weather_page 0 0 data =
      Inr (dict_set ''forecast''
            (PDict [(str ''Monday'', PDict weather_page_info),
                    (str ''Tuesday'', PDict weather_page_info),
                    (str ''Wednesday'', PDict weather_page_info),
                    (str ''Thursday'', PDict weather_page_info),
                    (str ''Friday'', PDict weather_page_info)])
            (dict_set ''weather'' (PStr (str ''Cloudy''))
              (dict_set ''weather_icon'' (PStr (str ''https://s.yimg.com/cloudy.png'')) data)))"
    for data
    unfolding weather_heading_part_def r weather_page_loop
    by (simp add: css_first_def attr_def opt_val_def weather_str_part_def weather_page_defs)
  have wk: "set weekdays = set (map str [''Monday'', ''Tuesday'', ''Wednesday'', ''Thursday'',
      ''Friday'', ''Saturday'', ''Sunday''])"
    by (simp add: weekdays_def)
  show ?thesis
    unfolding weather_def g weather_parse_def
    by (simp add: p h)
       (simp add: weather_int_part_def weather_str_part_def css_first_def py_int_def
        ascii_int_values dict_set_def str_inj validate_WeatherInformation_def
        req_str_def req_int_def weather_page_day_valid weekdays_def weather_page_result_def
        weather_page_defs)
qed

text \<open>
  C9. Whenever \<open>weather\<close> returns, its forecast has at most 7 entries with distinct keys,
  every key is a weekday name, and the keys are exactly the day labels of the first seven
  forecast rows of the page: nothing is added for a day without a row. For a page with
  exactly 5 rows whose labels differ, the forecast has exactly 5 entries.
\<close>

theorem weather_forecast_rows:
  assumes "weather E = Inr w"
    and "client_get E (str ''https://sg.news.yahoo.com/weather/'') headers = Inr res"
    and "Parser E (res_text res) = (d, parser)"
  shows "length (forecast w) \<le> 7
       \<and> distinct (map fst (forecast w))
       \<and> set (map fst (forecast w)) \<subseteq> set weekdays
       \<and> set (map fst (forecast w))
           = {day. \<exists>row \<in> set (take 7 (css E d parser forecast_selector)).
                     row_day E d row = Inr day}
       \<and> (length (css E d parser forecast_selector) = 5
            \<and> distinct (map (row_day E d) (css E d parser forecast_selector))
          \<longrightarrow> length (forecast w) = 5)"
proof -
  let ?rows = "css E d parser forecast_selector"
  from assms have "weather_parse E d parser = Inr w" by (simp add: weather_def)
  from weather_parse_forecast [OF this] obtain fc where
    l: "forecast_loop E d [] (take 7 ?rows) = Inr fc"
    and v: "validate_forecast fc = Inr (forecast w)" by blast
  from validate_forecast_keys [OF v] have
    k: "map fst (forecast w) = map fst fc" and wd: "set (map fst fc) \<subseteq> set weekdays" by auto
  note fl = forecast_loop_keys [OF l]
  have len: "length (forecast w) \<le> 7"
  proof -
    have "length (forecast w) = length fc" using k by (metis length_map)
    with fl(3) show ?thesis by simp
  qed
  have dist: "distinct (map fst (forecast w))" using fl(2) k by simp
  have keys: "set (map fst (forecast w))
      = {day. \<exists>row \<in> set (take 7 ?rows). row_day E d row = Inr day}"
    using fl(1) k by simp
  have five: "length (forecast w) = 5"
    if n: "length ?rows = 5" and dr: "distinct (map (row_day E d) ?rows)"
  proof -
    from n have t: "take 7 ?rows = ?rows" by simp
    from fl(4) have ok: "\<forall>row \<in> set ?rows. \<exists>day. row_day E d row = Inr day"
      by (simp add: t list_all_iff)
    have "{day. \<exists>row \<in> set ?rows. row_day E d row = Inr day}
        = (\<lambda>row. projr (row_day E d row)) ` set ?rows"
      using ok by force
    moreover have "inj_on (\<lambda>row. projr (row_day E d row)) (set ?rows)"
    proof (rule inj_onI)
      fix x y assume x: "x \<in> set ?rows" and y: "y \<in> set ?rows"
        and e: "projr (row_day E d x) = projr (row_day E d y)"
      from ok x y obtain a b where "row_day E d x = Inr a" "row_day E d y = Inr b" by blast
      with e have "row_day E d x = row_day E d y" by simp
      with dr x y show "x = y" by (simp add: distinct_map inj_on_def)
    qed
    ultimately have "card {day. \<exists>row \<in> set ?rows. row_day E d row = Inr day}
        = card (set ?rows)"
      by (simp add: card_image)
    also have "\<dots> = length ?rows" using dr by (simp add: distinct_card distinct_map)
    finally have "card (set (map fst (forecast w))) = 5" using keys t n by simp
    with dist show ?thesis by (metis distinct_card length_map)
  qed
  from len dist wd k keys five show ?thesis by simp
qed

theorem weather_forecast_rows_witness:
  "weather weather_page = Inr weather_page_result
   \<and> length (css weather_page 0 0 forecast_selector) = 5
   \<and> length (forecast weather_page_result) = 5
   \<and> distinct (map fst (forecast weather_page_result))
   \<and> set (map fst (forecast weather_page_result)) \<subseteq> set weekdays"
proof -
  have g: "client_get weather_page (str ''https://sg.news.yahoo.com/weather/'') headers
      = Inr \<lparr>status_code = 200, res_text = [], res_json = Inl JSONDecodeError\<rparr>"
    by (simp add: weather_page_def page_env_def)
  have p: "Parser weather_page
      (res_text \<lparr>status_code = 200, res_text = [], res_json = Inl JSONDecodeError\<rparr>) = (0, 0)"
    by (simp add: weather_page_def page_env_def)
  have n: "length (css weather_page 0 0 forecast_selector) = 5"
    by (simp add: weather_page_defs)
  have c: "css weather_page 0 0 forecast_selector = [100, 200, 300, 400, 500]"
    by (simp add: weather_page_defs)
  have dr: "distinct (map (row_day weather_page 0) (css weather_page 0 0 forecast_selector))"
    unfolding c by (simp add: row_day_def weather_page_defs str_def)
  from weather_forecast_rows [OF weather_weather_page g p] n dr
  have "length (forecast weather_page_result) = 5
      \<and> distinct (map fst (forecast weather_page_result))
      \<and> set (map fst (forecast weather_page_result)) \<subseteq> set weekdays"
    by blast
  with weather_weather_page n show ?thesis by blast
qed

lemma forecast_loop_untouched:
  assumes "forecast_loop E d fc rows = Inr fc'"
    and "list_all (\<lambda>r. row_day E d r \<noteq> Inr day) rows"
  shows "map_of fc' day = map_of fc day"
  using assms
proof (induction rows arbitrary: fc)
  case Nil
  then show ?case by simp
next
  case (Cons row rest)
  from Cons.prems(1) obtain day' info where
    r: "forecast_row E d row = Inr (day', info)"
    and l: "forecast_loop E d (AList.update day' (PDict info) fc) rest = Inr fc'"
    by (auto simp: bind_err_Inr)
  from forecast_row_steps [OF r] have "row_day E d row = Inr day'" by blast
  with Cons.prems(2) have ne: "day' \<noteq> day" by auto
  from Cons.prems(2) have "list_all (\<lambda>r. row_day E d r \<noteq> Inr day) rest" by simp
  from Cons.IH [OF l this] ne show ?case by (simp add: update_conv')
qed

lemma forecast_loop_rows:
  assumes "forecast_loop E d fc rows = Inr fc'"
    and "row \<in> set rows"
  shows "\<exists>day info. forecast_row E d row = Inr (day, info)"
  using assms
proof (induction rows arbitrary: fc)
  case Nil
  then show ?case by simp
next
  case (Cons row0 rest)
  from Cons.prems(1) obtain day0 info0 where
    r0: "forecast_row E d row0 = Inr (day0, info0)"
    and l: "forecast_loop E d (AList.update day0 (PDict info0) fc) rest = Inr fc'"
    by (auto simp: bind_err_Inr)
  show ?case
  proof (cases "row = row0")
    case True
    with r0 show ?thesis by blast
  next
    case False
    with Cons.prems(2) have "row \<in> set rest" by simp
    from Cons.IH [OF l this] show ?thesis .
  qed
qed

lemma forecast_loop_lookup:
  assumes "forecast_loop E d fc rows = Inr fc'"
    and "distinct (map (row_day E d) rows)"
    and "row \<in> set rows"
    and "forecast_row E d row = Inr (day, info)"
  shows "map_of fc' day = Some (PDict info)"
  using assms
proof (induction rows arbitrary: fc)
  case Nil
  then show ?case by simp
next
  case (Cons row0 rest)
  from Cons.prems(1) obtain day0 info0 where
    r0: "forecast_row E d row0 = Inr (day0, info0)"
    and l: "forecast_loop E d (AList.update day0 (PDict info0) fc) rest = Inr fc'"
    by (auto simp: bind_err_Inr)
  from Cons.prems(2) have dr: "distinct (map (row_day E d) rest)"
    and nr: "row_day E d row0 \<notin> row_day E d ` set rest" by auto
  show ?case
  proof (cases "row = row0")
    case True
    with r0 Cons.prems(4) have e: "day0 = day" "info0 = info" by auto
    from forecast_row_steps [OF r0] have "row_day E d row0 = Inr day0" by blast
    with nr e have "list_all (\<lambda>r. row_day E d r \<noteq> Inr day) rest"
      by (force simp: list_all_iff image_iff)
    from forecast_loop_untouched [OF l this] e show ?thesis by (simp add: update_conv')
  next
    case False
    with Cons.prems(3) have "row \<in> set rest" by simp
    from Cons.IH [OF l dr this Cons.prems(4)] show ?thesis .
  qed
qed

lemma validate_forecast_lookup:
  "validate_forecast fc = Inr ws \<Longrightarrow> map_of fc day = Some v \<Longrightarrow>
   \<exists>f. validate_WeatherForecast v = Inr f \<and> map_of ws day = Some f"
proof (induction fc arbitrary: ws)
  case Nil
  then show ?case by simp
next
  case (Cons a fc)
  obtain k v0 where a: "a = (k, v0)" by (cases a)
  from Cons.prems(1) a obtain w ws' where
    w: "validate_WeatherForecast v0 = Inr w" "validate_forecast fc = Inr ws'" "ws = (k, w) # ws'"
    by (auto simp: bind_err_Inr split: if_splits)
  show ?case
  proof (cases "k = day")
    case True
    with Cons.prems(2) a w show ?thesis by simp
  next
    case False
    with Cons.prems(2) a have "map_of fc day = Some v" by simp
    from Cons.IH [OF w(2) this] False w(3) show ?thesis by simp
  qed
qed

lemma validate_WeatherForecast_temps:
  assumes "validate_WeatherForecast (PDict info) = Inr f"
  shows "req_field validate_HighLowTemperature info ''fahrenheit'' = Inr (forecast_fahrenheit f)"
    and "req_field validate_HighLowTemperature info ''celsius'' = Inr (forecast_celsius f)"
  using assms by (auto simp: validate_WeatherForecast_def bind_err_Inr)

lemma hl_temp_loop_four:
  assumes "map_of info (str ''fahrenheit'') = Some (PDict fs)"
    and "map_of info (str ''celsius'') = Some (PDict cs)"
    and "py_int E (butlast (node_text E d c0)) = Inr fh"
    and "py_int E (butlast (node_text E d c1)) = Inr ch"
    and "py_int E (butlast (node_text E d c2)) = Inr fl"
    and "py_int E (butlast (node_text E d c3)) = Inr cl"
  shows "hl_temp_loop E d info 0 [c0, c1, c2, c3] =
     Inr (dict_set ''celsius''
            (PDict (dict_set ''lowest'' (PInt cl) (dict_set ''highest'' (PInt ch) cs)))
         (dict_set ''fahrenheit''
            (PDict (dict_set ''lowest'' (PInt fl) (dict_set ''highest'' (PInt fh) fs)))
         (dict_set ''celsius'' (PDict (dict_set ''highest'' (PInt ch) cs))
         (dict_set ''fahrenheit'' (PDict (dict_set ''highest'' (PInt fh) fs)) info))))"
  using assms by (simp add: nested_set_def map_of_dict_set)

text \<open>
  C10. The temperature loop places each cell by its index alone: the text of a cell
  loses its last character and is parsed as an integer, and cell 0 is stored as the
  Fahrenheit high, cell 1 as the Celsius high, cell 2 as the Fahrenheit low, cell 3 as
  the Celsius low. So the dictionary of a forecast row with four temperature cells
  validates to these four values; and in every result of \<open>weather\<close>, for a row among
  the first seven (their day labels differing) with four temperature cells, the forecast
  entry of the row's day holds them.
\<close>

theorem weather_temperatures_by_position:
  "(map_of info0 (str ''fahrenheit'') = Some (PDict fs)
      \<and> map_of info0 (str ''celsius'') = Some (PDict cs)
      \<and> py_int E (butlast (node_text E d c0)) = Inr fh
      \<and> py_int E (butlast (node_text E d c1)) = Inr ch
      \<and> py_int E (butlast (node_text E d c2)) = Inr fl
      \<and> py_int E (butlast (node_text E d c3)) = Inr cl
    \<longrightarrow> hl_temp_loop E d info0 0 [c0, c1, c2, c3] =
         Inr (dict_set ''celsius''
                (PDict (dict_set ''lowest'' (PInt cl) (dict_set ''highest'' (PInt ch) cs)))
             (dict_set ''fahrenheit''
                (PDict (dict_set ''lowest'' (PInt fl) (dict_set ''highest'' (PInt fh) fs)))
             (dict_set ''celsius'' (PDict (dict_set ''highest'' (PInt ch) cs))
             (dict_set ''fahrenheit'' (PDict (dict_set ''highest'' (PInt fh) fs)) info0)))))
   \<and> (forecast_row E d row = Inr (day, info)
      \<and> css E d row hl_temp_selector = [c0, c1, c2, c3]
    \<longrightarrow> (\<exists>h0 h1 l0 l1.
          py_int E (butlast (node_text E d c0)) = Inr h0
        \<and> py_int E (butlast (node_text E d c1)) = Inr h1
        \<and> py_int E (butlast (node_text E d c2)) = Inr l0
        \<and> py_int E (butlast (node_text E d c3)) = Inr l1
        \<and> req_field validate_HighLowTemperature info ''fahrenheit''
            = Inr \<lparr>highest = h0, lowest = l0\<rparr>
        \<and> req_field validate_HighLowTemperature info ''celsius''
            = Inr \<lparr>highest = h1, lowest = l1\<rparr>))
   \<and> (weather E = Inr w
      \<and> client_get E (str ''https://sg.news.yahoo.com/weather/'') headers = Inr res
      \<and> Parser E (res_text res) = (d, parser)
      \<and> row \<in> set (take 7 (css E d parser forecast_selector))
      \<and> distinct (map (row_day E d) (take 7 (css E d parser forecast_selector)))
      \<and> css E d row hl_temp_selector = [c0, c1, c2, c3]
    \<longrightarrow> (\<exists>day f.
          row_day E d row = Inr day
        \<and> map_of (forecast w) day = Some f
        \<and> py_int E (butlast (node_text E d c0)) = Inr (highest (forecast_fahrenheit f))
        \<and> py_int E (butlast (node_text E d c1)) = Inr (highest (forecast_celsius f))
        \<and> py_int E (butlast (node_text E d c2)) = Inr (lowest (forecast_fahrenheit f))
        \<and> py_int E (butlast (node_text E d c3)) = Inr (lowest (forecast_celsius f))))"
proof (intro conjI impI)
  assume a: "map_of info0 (str ''fahrenheit'') = Some (PDict fs)
      \<and> map_of info0 (str ''celsius'') = Some (PDict cs)
      \<and> py_int E (butlast (node_text E d c0)) = Inr fh
      \<and> py_int E (butlast (node_text E d c1)) = Inr ch
      \<and> py_int E (butlast (node_text E d c2)) = Inr fl
      \<and> py_int E (butlast (node_text E d c3)) = Inr cl"
  then have a1: "map_of info0 (str ''fahrenheit'') = Some (PDict fs)"
    and a2: "map_of info0 (str ''celsius'') = Some (PDict cs)"
    and a3: "py_int E (butlast (node_text E d c0)) = Inr fh"
    and a4: "py_int E (butlast (node_text E d c1)) = Inr ch"
    and a5: "py_int E (butlast (node_text E d c2)) = Inr fl"
    and a6: "py_int E (butlast (node_text E d c3)) = Inr cl"
    by simp_all
  show "hl_temp_loop E d info0 0 [c0, c1, c2, c3] =
         Inr (dict_set ''celsius''
                (PDict (dict_set ''lowest'' (PInt cl) (dict_set ''highest'' (PInt ch) cs)))
             (dict_set ''fahrenheit''
                (PDict (dict_set ''lowest'' (PInt fl) (dict_set ''highest'' (PInt fh) fs)))
             (dict_set ''celsius'' (PDict (dict_set ''highest'' (PInt ch) cs))
             (dict_set ''fahrenheit'' (PDict (dict_set ''highest'' (PInt fh) fs)) info0))))"
    by (rule hl_temp_loop_four [OF a1 a2 a3 a4 a5 a6])
next
  assume "forecast_row E d row = Inr (day, info)
      \<and> css E d row hl_temp_selector = [c0, c1, c2, c3]"
  then have b1: "forecast_row E d row = Inr (day, info)"
    and b2: "css E d row hl_temp_selector = [c0, c1, c2, c3]"
    by simp_all
  show "\<exists>h0 h1 l0 l1.
          py_int E (butlast (node_text E d c0)) = Inr h0
        \<and> py_int E (butlast (node_text E d c1)) = Inr h1
        \<and> py_int E (butlast (node_text E d c2)) = Inr l0
        \<and> py_int E (butlast (node_text E d c3)) = Inr l1
        \<and> req_field validate_HighLowTemperature info ''fahrenheit''
            = Inr \<lparr>highest = h0, lowest = l0\<rparr>
        \<and> req_field validate_HighLowTemperature info ''celsius''
            = Inr \<lparr>highest = h1, lowest = l1\<rparr>"
    by (rule hl_temp_loop_positions [OF b1 b2])
next
  assume a: "weather E = Inr w
      \<and> client_get E (str ''https://sg.news.yahoo.com/weather/'') headers = Inr res
      \<and> Parser E (res_text res) = (d, parser)
      \<and> row \<in> set (take 7 (css E d parser forecast_selector))
      \<and> distinct (map (row_day E d) (take 7 (css E d parser forecast_selector)))
      \<and> css E d row hl_temp_selector = [c0, c1, c2, c3]"
  let ?rows = "take 7 (css E d parser forecast_selector)"
  from a have "weather_parse E d parser = Inr w" by (auto simp: weather_def)
  from weather_parse_forecast [OF this] obtain fc where
    l: "forecast_loop E d [] ?rows = Inr fc"
    and v: "validate_forecast fc = Inr (forecast w)" by blast
  from a have mem: "row \<in> set ?rows" and dr: "distinct (map (row_day E d) ?rows)"
    and cells: "css E d row hl_temp_selector = [c0, c1, c2, c3]" by auto
  from forecast_loop_keys(4) [OF l] mem obtain day where
    rd: "row_day E d row = Inr day" by (auto simp: list_all_iff)
  have "\<exists>info. forecast_row E d row = Inr (day, info)"
    using forecast_loop_rows [OF l mem] rd forecast_row_steps by fastforce
  then obtain info where fr: "forecast_row E d row = Inr (day, info)" by blast
  from forecast_loop_lookup [OF l dr mem fr]
  have "map_of fc day = Some (PDict info)" .
  from validate_forecast_lookup [OF v this] obtain f where
    f: "validate_WeatherForecast (PDict info) = Inr f" "map_of (forecast w) day = Some f"
    by blast
  from hl_temp_loop_positions [OF fr cells] validate_WeatherForecast_temps [OF f(1)]
  have "py_int E (butlast (node_text E d c0)) = Inr (highest (forecast_fahrenheit f))
    \<and> py_int E (butlast (node_text E d c1)) = Inr (highest (forecast_celsius f))
    \<and> py_int E (butlast (node_text E d c2)) = Inr (lowest (forecast_fahrenheit f))
    \<and> py_int E (butlast (node_text E d c3)) = Inr (lowest (forecast_celsius f))"
    by auto
  with rd f(2) show "\<exists>day f.
          row_day E d row = Inr day
        \<and> map_of (forecast w) day = Some f
        \<and> py_int E (butlast (node_text E d c0)) = Inr (highest (forecast_fahrenheit f))
        \<and> py_int E (butlast (node_text E d c1)) = Inr (highest (forecast_celsius f))
        \<and> py_int E (butlast (node_text E d c2)) = Inr (lowest (forecast_fahrenheit f))
        \<and> py_int E (butlast (node_text E d c3)) = Inr (lowest (forecast_celsius f))"
    by blast
qed

theorem weather_temperatures_by_position_witness:
  "weather weather_page = Inr weather_page_result
   \<and> forecast_row weather_page 0 100 = Inr (str ''Monday'', weather_page_info)
   \<and> css weather_page 0 100 hl_temp_selector = [108, 109, 110, 111]
   \<and> map (node_text weather_page 0) [108, 109, 110, 111]
       = [str ''91'' @ [176], str ''33'' @ [176], str ''79'' @ [176], str ''26'' @ [176]]
   \<and> hl_temp_loop weather_page 0
         [(str ''fahrenheit'', PDict []), (str ''celsius'', PDict [])] 0 [108, 109, 110, 111]
       = Inr [(str ''fahrenheit'', PDict [(str ''highest'', PInt 91), (str ''lowest'', PInt 79)]),
              (str ''celsius'', PDict [(str ''highest'', PInt 33), (str ''lowest'', PInt 26)])]
   \<and> req_field validate_HighLowTemperature weather_page_info ''fahrenheit''
       = Inr \<lparr>highest = 91, lowest = 79\<rparr>
   \<and> req_field validate_HighLowTemperature weather_page_info ''celsius''
       = Inr \<lparr>highest = 33, lowest = 26\<rparr>
   \<and> map_of (forecast weather_page_result) (str ''Monday'') = Some weather_page_day
   \<and> forecast_fahrenheit weather_page_day = \<lparr>highest = 91, lowest = 79\<rparr>
   \<and> forecast_celsius weather_page_day = \<lparr>highest = 33, lowest = 26\<rparr>"
proof -
  note T = weather_temperatures_by_position
    [where E = weather_page and d = 0 and ?c0.0 = 108 and ?c1.0 = 109 and ?c2.0 = 110
       and ?c3.0 = 111 and row = 100]
  have g: "client_get weather_page (str ''https://sg.news.yahoo.com/weather/'') headers
      = Inr \<lparr>status_code = 200, res_text = [], res_json = Inl JSONDecodeError\<rparr>"
    by (simp add: weather_page_def page_env_def)
  have p: "Parser weather_page
      (res_text \<lparr>status_code = 200, res_text = [], res_json = Inl JSONDecodeError\<rparr>) = (0, 0)"
    by (simp add: weather_page_def page_env_def)
  have c: "take 7 (css weather_page 0 0 forecast_selector) = [100, 200, 300, 400, 500]"
    by (simp add: weather_page_defs)
  have r: "100 \<in> set (take 7 (css weather_page 0 0 forecast_selector))"
    unfolding c by simp
  have dr: "distinct (map (row_day weather_page 0)
      (take 7 (css weather_page 0 0 forecast_selector)))"
    unfolding c by (simp add: row_day_def weather_page_defs str_def)
  have h: "css weather_page 0 100 hl_temp_selector = [108, 109, 110, 111]"
    by (simp add: weather_page_defs)
  have t: "map (node_text weather_page 0) [108, 109, 110, 111]
       = [str ''91'' @ [176], str ''33'' @ [176], str ''79'' @ [176], str ''26'' @ [176]]"
    by (simp add: weather_page_defs)
  have pi: "py_int weather_page (butlast (node_text weather_page 0 108)) = Inr 91"
    "py_int weather_page (butlast (node_text weather_page 0 109)) = Inr 33"
    "py_int weather_page (butlast (node_text weather_page 0 110)) = Inr 79"
    "py_int weather_page (butlast (node_text weather_page 0 111)) = Inr 26"
    by (simp_all add: py_int_def weather_page_defs ascii_int_values)
  have m: "row_day weather_page 0 100 = Inr (str ''Monday'')"
    by (simp add: row_day_def weather_page_defs)
  have f: "map_of (forecast weather_page_result) (str ''Monday'') = Some weather_page_day"
    by (simp add: weather_page_result_def)
  have b: "map_of [(str ''fahrenheit'', PDict []), (str ''celsius'', PDict [])]
        (str ''fahrenheit'') = Some (PDict [])"
    "map_of [(str ''fahrenheit'', PDict []), (str ''celsius'', PDict [])]
        (str ''celsius'') = Some (PDict [])"
    by (simp_all add: str_inj)
  from T [where ?info0.0 = "[(str ''fahrenheit'', PDict []), (str ''celsius'', PDict [])]"
        and fs = "[]" and cs = "[]" and fh = 91 and ch = 33 and fl = 79 and cl = 26] b pi
  have "hl_temp_loop weather_page 0
         [(str ''fahrenheit'', PDict []), (str ''celsius'', PDict [])] 0 [108, 109, 110, 111]
       = Inr (dict_set ''celsius''
                (PDict (dict_set ''lowest'' (PInt 26) (dict_set ''highest'' (PInt 33) [])))
             (dict_set ''fahrenheit''
                (PDict (dict_set ''lowest'' (PInt 79) (dict_set ''highest'' (PInt 91) [])))
             (dict_set ''celsius'' (PDict (dict_set ''highest'' (PInt 33) []))
             (dict_set ''fahrenheit'' (PDict (dict_set ''highest'' (PInt 91) []))
                [(str ''fahrenheit'', PDict []), (str ''celsius'', PDict [])]))))"
    by blast
  then have A: "hl_temp_loop weather_page 0
         [(str ''fahrenheit'', PDict []), (str ''celsius'', PDict [])] 0 [108, 109, 110, 111]
       = Inr [(str ''fahrenheit'', PDict [(str ''highest'', PInt 91), (str ''lowest'', PInt 79)]),
              (str ''celsius'', PDict [(str ''highest'', PInt 33), (str ''lowest'', PInt 26)])]"
    by (simp add: dict_set_def str_inj)
  from T [where day = "str ''Monday''" and info = weather_page_info] weather_page_rows(1) h pi
  have B: "req_field validate_HighLowTemperature weather_page_info ''fahrenheit''
       = Inr \<lparr>highest = 91, lowest = 79\<rparr>
     \<and> req_field validate_HighLowTemperature weather_page_info ''celsius''
       = Inr \<lparr>highest = 33, lowest = 26\<rparr>"
    by auto
  from T [where w = weather_page_result and parser = 0
        and res = "\<lparr>status_code = 200, res_text = [], res_json = Inl JSONDecodeError\<rparr>"]
    weather_weather_page g p r dr h m f pi
  have C: "forecast_fahrenheit weather_page_day = \<lparr>highest = 91, lowest = 79\<rparr>
     \<and> forecast_celsius weather_page_day = \<lparr>highest = 33, lowest = 26\<rparr>"
    by auto
  from weather_weather_page weather_page_rows(1) h t A B f C show ?thesis by blast
qed

end
